(* ===== verification/Oracle_Base.thy ===== *)
theory Oracle_Base
  imports Main "HOL-Library.Word"
begin

text \<open>
  Shared vocabulary of the development: the machine types of the runtime
  (\<open>runtime/src/lib.rs\<close>: \<open>AccountId\<close>, \<open>Balance\<close>, \<open>Hash\<close>, \<open>BlockNumber\<close>), the
  result of an operation that may fail or panic, bounded vectors, the byte views of
  integers (\<open>to_le_bytes\<close>, \<open>from_le_bytes\<close>), \<open>slice::chunks\<close>, UTF-8 validation,
  the origins of FRAME dispatchables, and runs of dispatchables over a state.
\<close>

unbundle bit_operations_syntax

section \<open>Types\<close>

type_synonym byte = "8 word"
type_synonym u16 = "16 word"
type_synonym u32 = "32 word"
type_synonym u64 = "64 word"
type_synonym u128 = "128 word"

text \<open>
  Rust strings are byte vectors that hold valid UTF-8; \<open>into_bytes\<close> and \<open>as_bytes\<close>
  are the identity on them.
\<close>

type_synonym bytes = "byte list"
type_synonym rust_string = "byte list"

text \<open>A 32-byte value (\<open>H256\<close>, \<open>AccountId32\<close>, \<open>sr25519::Public\<close>) is a 256-bit word.\<close>

type_synonym h256 = "256 word"
type_synonym account = "256 word"
type_synonym pubkey = "256 word"
type_synonym balance = u128
type_synonym block_number = u32

named_theorems outcome_simps "evaluation of outcomes and guards"
named_theorems inv_intros "introduction rules for well-formedness invariants"

section \<open>Outcomes\<close>

text \<open>
  \<open>Ok\<close> and \<open>Err\<close> are the two sides of a Rust \<open>Result\<close>; \<open>Panic\<close> is an aborted
  execution (\<open>expect\<close>, \<open>unwrap\<close>, an index or slice out of range, a remainder by zero).
\<close>

datatype ('e, 'a) outcome = Ok 'a | Err 'e | Panic

fun and_then :: "('e, 'a) outcome \<Rightarrow> ('a \<Rightarrow> ('e, 'b) outcome) \<Rightarrow> ('e, 'b) outcome" where
  "and_then (Ok a) f = f a"
| "and_then (Err e) f = Err e"
| "and_then Panic f = Panic"

definition ensure :: "bool \<Rightarrow> 'e \<Rightarrow> ('e, unit) outcome" where
  "ensure b e = (if b then Ok () else Err e)"

definition ok_or :: "'e \<Rightarrow> 'a option \<Rightarrow> ('e, 'a) outcome" where
  "ok_or e x = (case x of None \<Rightarrow> Err e | Some a \<Rightarrow> Ok a)"

definition expect :: "'a option \<Rightarrow> ('e, 'a) outcome" where
  "expect x = (case x of None \<Rightarrow> Panic | Some a \<Rightarrow> Ok a)"

lemma and_then_Ok [outcome_simps]:
  "and_then x f = Ok b \<longleftrightarrow> (\<exists>a. x = Ok a \<and> f a = Ok b)"
  by (cases x) auto

lemma and_then_Err [outcome_simps]:
  "and_then x f = Err e \<longleftrightarrow> x = Err e \<or> (\<exists>a. x = Ok a \<and> f a = Err e)"
  by (cases x) auto

lemma and_then_Panic [outcome_simps]:
  "and_then x f = Panic \<longleftrightarrow> x = Panic \<or> (\<exists>a. x = Ok a \<and> f a = Panic)"
  by (cases x) auto

lemma ensure_iffs [simp, outcome_simps]:
  "ensure b e = Ok u \<longleftrightarrow> b"
  "ensure b e = Err e' \<longleftrightarrow> \<not> b \<and> e' = e"
  "ensure b e \<noteq> Panic"
  by (auto simp: ensure_def)

lemma ensure_True [simp]: "ensure True e = Ok ()"
  by (simp add: ensure_def)

lemma ensure_False [simp]: "ensure False e = Err e"
  by (simp add: ensure_def)

lemma ok_or_iffs [simp, outcome_simps]:
  "ok_or e x = Ok a \<longleftrightarrow> x = Some a"
  "ok_or e x = Err e' \<longleftrightarrow> x = None \<and> e' = e"
  "ok_or e x \<noteq> Panic"
  by (auto simp: ok_or_def split: option.splits)

lemma ok_or_simps [simp]: "ok_or e None = Err e" "ok_or e (Some a) = Ok a"
  by (simp_all add: ok_or_def)

lemma expect_iffs [simp, outcome_simps]:
  "expect x = Ok a \<longleftrightarrow> x = Some a"
  "expect x \<noteq> Err e"
  "expect x = Panic \<longleftrightarrow> x = None"
  by (auto simp: expect_def split: option.splits)

lemma expect_simps [simp]: "expect None = Panic" "expect (Some a) = Ok a"
  by (simp_all add: expect_def)

section \<open>Origins and dispatch errors\<close>

datatype origin = Root | Signed account | Unsigned

datatype 'e dispatch_error = BadOrigin | ModuleError 'e | OtherError string

fun ensure_signed :: "origin \<Rightarrow> ('e dispatch_error, account) outcome" where
  "ensure_signed (Signed who) = Ok who"
| "ensure_signed _ = Err BadOrigin"

fun ensure_none :: "origin \<Rightarrow> ('e dispatch_error, unit) outcome" where
  "ensure_none Unsigned = Ok ()"
| "ensure_none _ = Err BadOrigin"

fun ensure_signed_or_root :: "origin \<Rightarrow> ('e dispatch_error, account option) outcome" where
  "ensure_signed_or_root (Signed who) = Ok (Some who)"
| "ensure_signed_or_root Root = Ok None"
| "ensure_signed_or_root Unsigned = Err BadOrigin"

lemma ensure_signed_iffs [simp, outcome_simps]:
  "ensure_signed o' = Ok who \<longleftrightarrow> o' = Signed who"
  "ensure_signed o' = Err e \<longleftrightarrow> (\<forall>who. o' \<noteq> Signed who) \<and> e = BadOrigin"
  "ensure_signed o' \<noteq> Panic"
  by (cases o'; auto)+

lemma ensure_none_iffs [simp, outcome_simps]:
  "ensure_none o' = Ok u \<longleftrightarrow> o' = Unsigned"
  "ensure_none o' = Err e \<longleftrightarrow> o' \<noteq> Unsigned \<and> e = BadOrigin"
  "ensure_none o' \<noteq> Panic"
  by (cases o'; auto)+

section \<open>Validity of unsigned transactions\<close>

text \<open>The parts of \<open>TransactionValidity\<close> that the pallets set.\<close>

datatype invalid_transaction = InvalidCall | Stale | Future | BadProof

record valid_transaction =
  vt_tag_prefix :: string
  vt_priority :: u64
  vt_provides :: "block_number list"
  vt_longevity :: u64
  vt_propagate :: bool

type_synonym transaction_validity = "(invalid_transaction, valid_transaction) outcome"

section \<open>Bounded vectors\<close>

text \<open>\<open>BoundedVec::try_from\<close>: the vector itself when it fits the bound.\<close>

definition bounded :: "u32 \<Rightarrow> 'a list \<Rightarrow> 'a list option" where
  "bounded n xs = (if length xs \<le> unat n then Some xs else None)"

lemma bounded_Some [simp]: "bounded n xs = Some ys \<longleftrightarrow> ys = xs \<and> length xs \<le> unat n"
  by (auto simp: bounded_def)

lemma bounded_None [simp]: "bounded n xs = None \<longleftrightarrow> unat n < length xs"
  by (auto simp: bounded_def)

section \<open>Rust integer arithmetic\<close>

definition saturating_add :: "'a::len word \<Rightarrow> 'a word \<Rightarrow> 'a word" where
  "saturating_add a b = (if unat a + unat b < 2 ^ LENGTH('a) then a + b else - 1)"

definition saturating_sub :: "'a::len word \<Rightarrow> 'a word \<Rightarrow> 'a word" where
  "saturating_sub a b = (if a < b then 0 else a - b)"

definition checked_add :: "'a::len word \<Rightarrow> 'a word \<Rightarrow> 'a word option" where
  "checked_add a b = (if unat a + unat b < 2 ^ LENGTH('a) then Some (a + b) else None)"

lemma unat_saturating_add:
  "unat (saturating_add a b :: 'a::len word) = min (unat a + unat b) (2 ^ LENGTH('a) - 1)"
  by (auto simp: saturating_add_def unat_word_ariths unsigned_minus_1_eq_mask mask_eq_exp_minus_1)

lemma saturating_add_ge1: "a \<le> saturating_add a (b :: 'a::len word)"
proof -
  have "unat a < 2 ^ LENGTH('a)"
    by (rule unsigned_less)
  then have "unat a \<le> 2 ^ LENGTH('a) - 1"
    by linarith
  then show ?thesis
    by (simp add: word_le_nat_alt unat_saturating_add)
qed

lemma saturating_add_mono: "b \<le> c \<Longrightarrow> saturating_add a b \<le> saturating_add a c"
  by (auto simp: word_le_nat_alt unat_saturating_add)

lemma checked_add_Some:
  "checked_add a b = Some c \<longleftrightarrow> unat a + unat b < 2 ^ LENGTH('a) \<and> c = a + (b :: 'a::len word)"
  by (auto simp: checked_add_def)

lemma unat_checked_add:
  "checked_add a b = Some c \<Longrightarrow> unat c = unat a + unat (b :: 'a::len word)"
  by (auto simp: checked_add_Some unat_word_ariths)

lemma unat_plus_one: "n \<noteq> - 1 \<Longrightarrow> unat (n + 1) = unat n + 1"
  using unatSuc [of n] by (simp add: add.commute eq_neg_iff_add_eq_0)

end
