(* ===== verification/Byte_Views.thy ===== *)
theory Byte_Views
  imports Oracle_Base
begin

text \<open>
  The byte-level operations of the Rust standard library that the program uses:
  \<open>to_le_bytes\<close> and \<open>from_le_bytes\<close>, the 32 raw bytes of an \<open>H256\<close>,
  \<open>slice::chunks\<close>, \<open>String::from_utf8\<close> and \<open>String::from_utf16\<close>.
\<close>

section \<open>Little-endian integers\<close>

fun le_bytes :: "nat \<Rightarrow> 'a::len word \<Rightarrow> bytes" where
  "le_bytes 0 w = []"
| "le_bytes (Suc n) w = ucast w # le_bytes n (drop_bit 8 w)"

fun of_le_bytes :: "bytes \<Rightarrow> 'a::len word" where
  "of_le_bytes [] = 0"
| "of_le_bytes (b # bs) = ucast b OR push_bit 8 (of_le_bytes bs)"

lemma length_le_bytes [simp]: "length (le_bytes n w) = n"
  by (induction n arbitrary: w) auto

lemma of_le_bytes_le_bytes:
  "of_le_bytes (le_bytes n w) = take_bit (8 * n) (w :: 'a::len word)"
proof (induction n arbitrary: w)
  case 0
  then show ?case by simp
next
  case (Suc n)
  have "of_le_bytes (le_bytes (Suc n) w)
      = ucast (ucast w :: byte) OR push_bit 8 (take_bit (8 * n) (drop_bit 8 w))"
    by (simp add: Suc.IH)
  also have "\<dots> = take_bit (8 * Suc n) w"
    by (rule bit_word_eqI)
      (auto simp: bit_simps algebra_simps dest: bit_imp_le_length)
  finally show ?case .
qed

corollary of_le_bytes_full:
  "LENGTH('a) \<le> 8 * n \<Longrightarrow> of_le_bytes (le_bytes n w) = (w :: 'a::len word)"
  by (simp add: of_le_bytes_le_bytes take_bit_word_eq_self)

lemma ucast_of_le_bytes_Cons:
  "8 \<le> LENGTH('a) \<Longrightarrow> ucast (of_le_bytes (b # bs) :: 'a::len word) = b"
  by (rule bit_word_eqI) (auto simp: bit_simps)

lemma drop_of_le_bytes_Cons:
  assumes "8 * Suc (length bs) \<le> LENGTH('a)"
  shows "drop_bit 8 (of_le_bytes (b # bs) :: 'a::len word) = of_le_bytes bs"
proof (rule bit_word_eqI)
  fix n assume n: "n < LENGTH('a)"
  have hi: "\<not> bit (of_le_bytes bs :: 'a word) m" if "8 * length bs \<le> m" for m
    using that
  proof (induction bs arbitrary: m)
    case Nil
    then show ?case by simp
  next
    case (Cons c cs)
    then show ?case
      by (auto simp: bit_simps dest: bit_imp_le_length)
  qed
  show "bit (drop_bit 8 (of_le_bytes (b # bs) :: 'a word)) n = bit (of_le_bytes bs :: 'a word) n"
    using n assms hi [of n] bit_imp_le_length [of b "n + 8"]
    by (auto simp: bit_simps dest: bit_imp_le_length)
qed

lemma le_bytes_of_le_bytes:
  "8 * length bs \<le> LENGTH('a) \<Longrightarrow> le_bytes (length bs) (of_le_bytes bs :: 'a::len word) = bs"
proof (induction bs)
  case Nil
  then show ?case by simp
next
  case (Cons b bs)
  then show ?case
    by (simp add: ucast_of_le_bytes_Cons drop_of_le_bytes_Cons del: of_le_bytes.simps)
qed

lemma unat_of_nat_small: "n < 2 ^ LENGTH('a) \<Longrightarrow> unat (of_nat n :: 'a::len word) = n"
  by (simp add: unat_of_nat)

section \<open>The 32 raw bytes of an H256\<close>

definition h256_bytes :: "h256 \<Rightarrow> bytes" where
  "h256_bytes h = rev (le_bytes 32 h)"

definition h256_of_bytes :: "bytes \<Rightarrow> h256" where
  "h256_of_bytes bs = of_le_bytes (rev bs)"

lemma length_h256_bytes [simp]: "length (h256_bytes h) = 32"
  by (simp add: h256_bytes_def)

lemma h256_of_bytes_bytes [simp]: "h256_of_bytes (h256_bytes h) = h"
  by (simp add: h256_bytes_def h256_of_bytes_def of_le_bytes_full)

lemma h256_bytes_of_bytes: "length bs = 32 \<Longrightarrow> h256_bytes (h256_of_bytes bs) = bs"
  using le_bytes_of_le_bytes [of "rev bs", where 'a = 256]
  by (simp add: h256_bytes_def h256_of_bytes_def)

lemma h256_bytes_inject [simp]: "h256_bytes h = h256_bytes h' \<longleftrightarrow> h = h'"
  by (metis h256_of_bytes_bytes)

lemma neq_by_length: "length xs = m \<Longrightarrow> length ys = n \<Longrightarrow> m \<noteq> n \<Longrightarrow> xs \<noteq> ys"
  by auto

section \<open>Chunks of a slice\<close>

text \<open>\<open>xs.chunks(n)\<close>: pieces of length \<open>n\<close>, the last one possibly shorter.\<close>

function chunks :: "nat \<Rightarrow> 'a list \<Rightarrow> 'a list list" where
  "chunks n xs = (if xs = [] \<or> n = 0 then [] else take n xs # chunks n (drop n xs))"
  by pat_completeness auto
termination
  by (relation "measure (\<lambda>(n, xs). length xs)") auto

declare chunks.simps [simp del]

lemma chunks_Nil [simp]: "chunks n [] = []"
  by (subst chunks.simps) simp

lemma chunks_append:
  "length c = n \<Longrightarrow> 0 < n \<Longrightarrow> chunks n (c @ xs) = c # chunks n xs"
  by (subst chunks.simps) auto

lemma concat_chunks: "0 < n \<Longrightarrow> concat (chunks n xs) = xs"
proof (induction n xs rule: chunks.induct)
  case (1 n xs)
  then show ?case
    by (subst chunks.simps) auto
qed

lemma chunks_concat:
  "0 < n \<Longrightarrow> \<forall>c \<in> set cs. length c = n \<Longrightarrow> chunks n (concat cs) = cs"
  by (induction cs) (auto simp: chunks_append)

lemma length_in_chunks: "0 < n \<Longrightarrow> c \<in> set (chunks n xs) \<Longrightarrow> 0 < length c \<and> length c \<le> n"
proof (induction n xs rule: chunks.induct)
  case (1 n xs)
  then show ?case
    by (subst (asm) (2) chunks.simps) (auto split: if_splits)
qed

lemma length_in_chunks_exact:
  "0 < n \<Longrightarrow> n dvd length xs \<Longrightarrow> c \<in> set (chunks n xs) \<Longrightarrow> length c = n"
proof (induction n xs rule: chunks.induct)
  case (1 n xs)
  show ?case
  proof (cases "xs = []")
    case False
    with 1 have "n \<le> length xs"
      by (simp add: dvd_imp_le)
    moreover from 1 have "n dvd length (drop n xs)"
      by (simp add: dvd_diff_nat)
    moreover have "chunks n xs = take n xs # chunks n (drop n xs)"
      using False \<open>0 < n\<close> by (subst chunks.simps) simp
    ultimately show ?thesis
      using 1 False by auto
  qed (use 1 in simp)
qed

section \<open>UTF-8 and UTF-16\<close>

abbreviation (input) cont_byte :: "byte \<Rightarrow> bool" where
  "cont_byte b \<equiv> 0x80 \<le> b \<and> b \<le> 0xBF"

text \<open>
  Well-formed UTF-8 (the table of the Unicode standard that \<open>core::str::from_utf8\<close>
  implements): no overlong form, no surrogate, nothing above U+10FFFF.
\<close>

fun valid_utf8 :: "bytes \<Rightarrow> bool" where
  "valid_utf8 [] = True"
| "valid_utf8 (b # bs) =
     (if b < 0x80 then valid_utf8 bs
      else if 0xC2 \<le> b \<and> b \<le> 0xDF then
        (case bs of c # r \<Rightarrow> cont_byte c \<and> valid_utf8 r | _ \<Rightarrow> False)
      else if 0xE0 \<le> b \<and> b \<le> 0xEF then
        (case bs of c # d # r \<Rightarrow>
           (if b = 0xE0 then 0xA0 \<le> c \<and> c \<le> 0xBF
            else if b = 0xED then 0x80 \<le> c \<and> c \<le> 0x9F
            else cont_byte c) \<and> cont_byte d \<and> valid_utf8 r
         | _ \<Rightarrow> False)
      else if 0xF0 \<le> b \<and> b \<le> 0xF4 then
        (case bs of c # d # e # r \<Rightarrow>
           (if b = 0xF0 then 0x90 \<le> c \<and> c \<le> 0xBF
            else if b = 0xF4 then 0x80 \<le> c \<and> c \<le> 0x8F
            else cont_byte c) \<and> cont_byte d \<and> cont_byte e \<and> valid_utf8 r
         | _ \<Rightarrow> False)
      else False)"

definition from_utf8 :: "bytes \<Rightarrow> rust_string option" where
  "from_utf8 bs = (if valid_utf8 bs then Some bs else None)"

lemma valid_utf8_ascii: "\<forall>b \<in> set bs. b < 0x80 \<Longrightarrow> valid_utf8 bs"
  by (induction bs) auto

lemma from_utf8_Some [simp]: "from_utf8 bs = Some s \<longleftrightarrow> valid_utf8 bs \<and> s = bs"
  by (auto simp: from_utf8_def)

lemma from_utf8_valid [simp]: "valid_utf8 bs \<Longrightarrow> from_utf8 bs = Some bs"
  by (simp add: from_utf8_def)

lemma from_utf8_None [simp]: "from_utf8 bs = None \<longleftrightarrow> \<not> valid_utf8 bs"
  by (auto simp: from_utf8_def)

text \<open>ASCII literals of the source as bytes.\<close>

definition ascii :: "string \<Rightarrow> bytes" where
  "ascii s = map of_char s"

section \<open>Runs of dispatchables\<close>

text \<open>
  A FRAME call is transactional: it returns the new state, or fails and leaves the state
  as it was. A block is a list of calls applied in order.
\<close>

fun run_calls :: "('c \<Rightarrow> 's \<Rightarrow> ('e, 's) outcome) \<Rightarrow> 'c list \<Rightarrow> 's \<Rightarrow> 's" where
  "run_calls ex [] s = s"
| "run_calls ex (c # cs) s = run_calls ex cs (case ex c s of Ok s' \<Rightarrow> s' | _ \<Rightarrow> s)"

lemma run_calls_append: "run_calls ex (cs @ ds) s = run_calls ex ds (run_calls ex cs s)"
  by (induction cs arbitrary: s) auto

text \<open>An invariant that every successful call keeps holds along every run.\<close>

locale call_invariant =
  fixes exec :: "'c \<Rightarrow> 's \<Rightarrow> ('e, 's) outcome"
    and inv :: "'s \<Rightarrow> bool"
  assumes exec_inv: "inv s \<Longrightarrow> exec c s = Ok s' \<Longrightarrow> inv s'"
begin

lemma step_inv: "inv s \<Longrightarrow> inv (case exec c s of Ok s' \<Rightarrow> s' | _ \<Rightarrow> s)"
  by (auto split: outcome.splits intro: exec_inv)

lemma run_inv: "inv s \<Longrightarrow> inv (run_calls exec cs s)"
  by (induction cs arbitrary: s) (auto intro: step_inv)

end

text \<open>A transitive relation between states that every successful call respects.\<close>

locale call_relation =
  fixes exec :: "'c \<Rightarrow> 's \<Rightarrow> ('e, 's) outcome"
    and rel :: "'s \<Rightarrow> 's \<Rightarrow> bool"
  assumes rel_refl: "rel s s"
    and rel_trans: "rel s t \<Longrightarrow> rel t u \<Longrightarrow> rel s u"
    and exec_rel: "exec c s = Ok s' \<Longrightarrow> rel s s'"
begin

lemma step_rel: "rel s (case exec c s of Ok s' \<Rightarrow> s' | _ \<Rightarrow> s)"
  by (auto split: outcome.splits intro: exec_rel rel_refl)

lemma run_rel: "rel s (run_calls exec cs s)"
proof (induction cs arbitrary: s)
  case Nil
  show ?case by (simp add: rel_refl)
next
  case (Cons c cs)
  show ?case
    using rel_trans [OF step_rel Cons.IH] by simp
qed

end

end
