(* ===== verification/Payload_Model.thy ===== *)
theory Payload_Model
  imports Byte_Views
begin

text \<open>
  The messages that cross the boundary between the runtime and the node
  (\<open>model/src/lib.rs\<close>): the request a runtime worker leaves in the off-chain database for
  the script executor, and the response the executor leaves for the worker. The SCALE
  codec they derive is third-party code; it enters the model as a record of functions and
  the round-trip law \<open>codec_laws\<close>. Theory \<open>Scale_Format\<close> shows that the published SCALE
  format satisfies the law.
\<close>

section \<open>Payloads\<close>

datatype job_state = Idling | Pending | Processing | Finish

record request_payload =
  rq_job_id :: bytes
  rq_job_content :: bytes
  rq_content_abi :: bytes
  rq_job_state :: job_state

record response_payload =
  rs_job_id :: bytes
  rs_job_result :: bytes
  rs_job_state :: job_state
  rs_address :: pubkey
  rs_exe_time :: u32

text \<open>\<open>#[derive(Default)]\<close>: empty vectors, and the variant marked \<open>#[default]\<close>.\<close>

definition default_job_state :: job_state where
  "default_job_state = Idling"

definition default_request :: request_payload where
  "default_request = \<lparr>rq_job_id = [], rq_job_content = [], rq_content_abi = [],
     rq_job_state = default_job_state\<rparr>"

text \<open>
  Progress order of a job. The runtime moves a job along \<open>Pending\<close>, \<open>Processing\<close>,
  \<open>Finish\<close>; \<open>Idling\<close> is the default of the type and never stored by a call.
\<close>

fun state_rank :: "job_state \<Rightarrow> nat" where
  "state_rank Idling = 0"
| "state_rank Pending = 1"
| "state_rank Processing = 2"
| "state_rank Finish = 3"

lemma state_rank_inject [simp]: "state_rank a = state_rank b \<longleftrightarrow> a = b"
  by (cases a; cases b) auto

instantiation job_state :: linorder
begin

definition less_eq_job_state :: "job_state \<Rightarrow> job_state \<Rightarrow> bool" where
  "less_eq_job_state a b \<longleftrightarrow> state_rank a \<le> state_rank b"

definition less_job_state :: "job_state \<Rightarrow> job_state \<Rightarrow> bool" where
  "less_job_state a b \<longleftrightarrow> state_rank a < state_rank b"

instance
  by standard (auto simp: less_eq_job_state_def less_job_state_def)

end

section \<open>The codec the payloads derive\<close>

record payload_codecs =
  enc_request :: "request_payload \<Rightarrow> bytes"
  dec_request :: "bytes \<Rightarrow> request_payload option"
  enc_response :: "response_payload \<Rightarrow> bytes"
  dec_response :: "bytes \<Rightarrow> response_payload option"
  enc_hash :: "h256 \<Rightarrow> bytes"
  dec_hash :: "bytes \<Rightarrow> h256 option"
  public_bytes :: "pubkey \<Rightarrow> bytes"
  dec_public :: "bytes \<Rightarrow> pubkey option"

text \<open>A vector of the 32-bit runtime has fewer than \<open>2 ^ 32\<close> elements.\<close>

definition fits :: "'a list \<Rightarrow> bool" where
  "fits xs \<longleftrightarrow> length xs < 2 ^ 32"

definition request_fits :: "request_payload \<Rightarrow> bool" where
  "request_fits p \<longleftrightarrow> fits (rq_job_id p) \<and> fits (rq_job_content p) \<and> fits (rq_content_abi p)"

definition response_fits :: "response_payload \<Rightarrow> bool" where
  "response_fits p \<longleftrightarrow> fits (rs_job_id p) \<and> fits (rs_job_result p)"

definition codec_laws :: "payload_codecs \<Rightarrow> bool" where
  "codec_laws C \<longleftrightarrow>
     (\<forall>p. request_fits p \<longrightarrow> dec_request C (enc_request C p) = Some p) \<and>
     (\<forall>p. response_fits p \<longrightarrow> dec_response C (enc_response C p) = Some p) \<and>
     (\<forall>h. length (enc_hash C h) = 32) \<and>
     (\<forall>h. dec_hash C (enc_hash C h) = Some h) \<and>
     (\<forall>bs. length bs < 32 \<longrightarrow> dec_hash C bs = None) \<and>
     (\<forall>a. dec_public C (public_bytes C a) = Some a)"

lemma codec_lawsD:
  assumes "codec_laws C"
  shows "request_fits p \<Longrightarrow> dec_request C (enc_request C p) = Some p"
    and "response_fits r \<Longrightarrow> dec_response C (enc_response C r) = Some r"
    and "length (enc_hash C h) = 32"
    and "dec_hash C (enc_hash C h) = Some h"
    and "length bs < 32 \<Longrightarrow> dec_hash C bs = None"
    and "dec_public C (public_bytes C a) = Some a"
  using assms by (auto simp: codec_laws_def)

lemma enc_hash_inject: "codec_laws C \<Longrightarrow> enc_hash C h = enc_hash C h' \<longleftrightarrow> h = h'"
  by (metis codec_lawsD(4) option.inject)

lemma fits_append_iff: "fits (xs @ ys) \<longleftrightarrow> length xs + length ys < 2 ^ 32"
  by (simp add: fits_def)

lemma default_request_fits [simp]: "request_fits default_request"
  by (simp add: request_fits_def fits_def default_request_def)

end
