(* ===== verification/Wasmstore_Pallet.thy ===== *)
theory Wasmstore_Pallet
  imports Payload_Model
begin

text \<open>
  The on-chain half of \<open>pallets/wasmstore-pallet/src/lib.rs\<close>: scripts, the job queue, the
  results, the five calls and the validation of unsigned transactions. The record
  \<open>ws_state\<close> is the pallet's storage. Third-party functions (the hasher, the SCALE
  encoding of a job, the \<open>Debug\<close> rendering of a name) are the record \<open>ws_externals\<close>.
\<close>

section \<open>Storage, configuration, events and errors\<close>

datatype script_type = Executable | Source

record script_detail =
  sd_publisher :: account
  sd_block_number :: block_number
  sd_wasm_code :: bytes
  sd_wasm_abi :: bytes
  sd_hash :: h256
  sd_name :: bytes
  sd_typ :: script_type
  sd_ref_count :: u64

record ocw_job =
  job_caller :: account
  job_script_name :: bytes
  job_wasm_code :: bytes
  job_wasm_abi :: bytes
  job_status :: job_state

record script_result =
  result_data :: bytes
  ext_time :: u32

datatype ws_event =
    ScriptUpload account block_number u64 rust_string h256
  | RequestExecution h256 account block_number rust_string
  | UnsignedTx block_number
  | TestEvent "account list"

datatype ws_error =
    SizeTooBig | HashCheckFail | InvalidWasmFormat | NotOwner | ValAlreadyExist
  | NoValExist | MaxCapReach | InvalidOperation

record ws_config =
  max_script_size :: u32
  max_script_key_len :: u32
  max_string_size :: u32
  max_result_size :: u32
  ws_unsigned_priority :: u64

text \<open>The values of \<open>runtime/src/configs/mod.rs\<close>.\<close>

definition runtime_ws_config :: ws_config where
  "runtime_ws_config =
     \<lparr>max_script_size = 524288, max_script_key_len = 512, max_string_size = 256,
      max_result_size = 1024, ws_unsigned_priority = 3\<rparr>"

record ws_externals =
  ws_hash :: "bytes \<Rightarrow> h256"
  ws_debug_encode :: "rust_string \<Rightarrow> bytes"
  ws_enc_job :: "ocw_job \<Rightarrow> bytes"
  ws_codecs :: payload_codecs

record ws_state =
  scripts :: "bytes \<rightharpoonup> script_detail"
  jobs :: "h256 \<rightharpoonup> ocw_job"
  results :: "h256 \<times> pubkey \<rightharpoonup> script_result"
  ws_block :: block_number
  ws_events :: "ws_event list"

type_synonym ws_outcome = "(ws_error dispatch_error, ws_state) outcome"

section \<open>The calls\<close>

subsection \<open>upload_wasm\<close>

definition prefixed_name :: "script_type \<Rightarrow> rust_string \<Rightarrow> rust_string" where
  "prefixed_name typ name =
     (case typ of Executable \<Rightarrow> ascii ''EXE'' @ name | Source \<Rightarrow> ascii ''SRC'' @ name)"

definition upload_wasm ::
  "ws_config \<Rightarrow> ws_externals \<Rightarrow> origin \<Rightarrow> rust_string \<Rightarrow> script_type \<Rightarrow> bytes \<Rightarrow> bytes
     \<Rightarrow> ws_state \<Rightarrow> ws_outcome" where
  "upload_wasm cfg X orig name0 typ wasm_code script_abi s =
     and_then (ensure_signed orig) (\<lambda>who.
     let name = prefixed_name typ name0; code_hash = ws_hash X wasm_code in
     and_then (ensure (length wasm_code \<le> unat (max_script_size cfg)) (ModuleError SizeTooBig)) (\<lambda>_.
     and_then (ok_or (ModuleError SizeTooBig) (bounded (max_script_size cfg) wasm_code)) (\<lambda>bounded_wasm_code.
     and_then (ok_or (ModuleError SizeTooBig) (bounded (max_string_size cfg) name)) (\<lambda>bounded_name.
     and_then (ok_or (ModuleError SizeTooBig) (bounded (max_script_size cfg) script_abi)) (\<lambda>bounded_wasm_abi.
     and_then (ok_or (ModuleError SizeTooBig)
        (bounded (max_script_key_len cfg) (ws_debug_encode X name))) (\<lambda>script_key.
     and_then (case scripts s script_key of
          None \<Rightarrow> Ok ()
        | Some d \<Rightarrow> ensure (bounded_name \<noteq> sd_name d \<or> bounded_wasm_code \<noteq> sd_wasm_code d)
                      (ModuleError ValAlreadyExist)) (\<lambda>_.
     Ok (s\<lparr>scripts := (scripts s)(script_key \<mapsto>
              \<lparr>sd_publisher = who, sd_block_number = ws_block s,
               sd_wasm_code = bounded_wasm_code, sd_wasm_abi = bounded_wasm_abi,
               sd_hash = code_hash, sd_name = bounded_name, sd_typ = typ, sd_ref_count = 0\<rparr>),
            ws_events := ws_events s @
              [ScriptUpload who (ws_block s) (of_nat (length bounded_wasm_code)) name code_hash]\<rparr>))))))))"

subsection \<open>request_script_execution\<close>

definition new_job :: "account \<Rightarrow> bytes \<Rightarrow> script_detail \<Rightarrow> ocw_job" where
  "new_job who name d =
     \<lparr>job_caller = who, job_script_name = name, job_wasm_code = sd_wasm_code d,
      job_wasm_abi = sd_wasm_abi d, job_status = Pending\<rparr>"

definition job_key :: "ws_externals \<Rightarrow> ocw_job \<Rightarrow> h256" where
  "job_key X job = ws_hash X (ws_enc_job X job)"

definition request_script_execution ::
  "ws_config \<Rightarrow> ws_externals \<Rightarrow> origin \<Rightarrow> rust_string \<Rightarrow> rust_string option \<Rightarrow> ws_state \<Rightarrow> ws_outcome" where
  "request_script_execution cfg X orig script_name params s =
     and_then (ensure_signed orig) (\<lambda>who.
     and_then (ok_or (ModuleError SizeTooBig)
        (bounded (max_script_key_len cfg) (ws_debug_encode X script_name))) (\<lambda>script_key.
     case scripts s script_key of
       None \<Rightarrow> Err (ModuleError NoValExist)
     | Some val \<Rightarrow>
         and_then (ok_or (ModuleError SizeTooBig) (bounded (max_string_size cfg) script_name)) (\<lambda>name.
         let job = new_job who name val; job_id = job_key X job in
         case jobs s job_id of
           Some _ \<Rightarrow> Err (ModuleError ValAlreadyExist)
         | None \<Rightarrow>
             Ok (s\<lparr>jobs := (jobs s)(job_id \<mapsto> job),
                   ws_events := ws_events s @
                     [RequestExecution job_id who (ws_block s) script_name]\<rparr>))))"

subsection \<open>change_job_state\<close>

fun next_state :: "job_state \<Rightarrow> job_state" where
  "next_state Pending = Processing"
| "next_state Processing = Finish"
| "next_state st = st"

definition advance_job :: "ocw_job \<Rightarrow> ocw_job" where
  "advance_job job = job\<lparr>job_status := next_state (job_status job)\<rparr>"

definition change_job_state ::
  "origin \<Rightarrow> block_number \<Rightarrow> h256 \<Rightarrow> ws_state \<Rightarrow> ws_outcome" where
  "change_job_state orig block key s =
     and_then (ensure_none orig) (\<lambda>_.
     Ok (s\<lparr>jobs := (case jobs s key of
                      Some existing_job \<Rightarrow> (jobs s)(key \<mapsto> advance_job existing_job)
                    | None \<Rightarrow> jobs s)\<rparr>))"

subsection \<open>submit_result_unsiged\<close>

definition submit_result_unsiged ::
  "ws_config \<Rightarrow> ws_externals \<Rightarrow> origin \<Rightarrow> block_number \<Rightarrow> bytes \<Rightarrow> bytes \<Rightarrow> pubkey \<Rightarrow> u32
     \<Rightarrow> ws_state \<Rightarrow> ws_outcome" where
  "submit_result_unsiged cfg X orig block key val processor_pub time s =
     and_then (ensure_none orig) (\<lambda>_.
     and_then (expect (dec_hash (ws_codecs X) key)) (\<lambda>onchain_key.
     case jobs s onchain_key of
       None \<Rightarrow> Ok s
     | Some job \<Rightarrow>
         if job_status job \<noteq> Finish then Err (ModuleError InvalidOperation)
         else (case results s (onchain_key, processor_pub) of
             None \<Rightarrow>
               and_then (ok_or (ModuleError SizeTooBig) (bounded (max_result_size cfg) val)) (\<lambda>data.
               Ok (s\<lparr>results := (results s)((onchain_key, processor_pub) \<mapsto>
                        \<lparr>result_data = data, ext_time = time\<rparr>)\<rparr>))
           | Some current \<Rightarrow>
               and_then (expect (bounded (max_result_size cfg) val)) (\<lambda>data.
               Ok (s\<lparr>results := (results s)((onchain_key, processor_pub) \<mapsto>
                        current\<lparr>result_data := data, ext_time := time\<rparr>)\<rparr>)))))"

subsection \<open>get_collators_lts\<close>

text \<open>The invulnerable collators are the state of the collator-selection pallet.\<close>

definition get_collators_lts :: "account list \<Rightarrow> origin \<Rightarrow> ws_state \<Rightarrow> ws_outcome" where
  "get_collators_lts invulnerables orig s =
     and_then (ensure_signed orig) (\<lambda>who.
     Ok (s\<lparr>ws_events := ws_events s @ [TestEvent (fold (\<lambda>c r. r @ [c]) invulnerables [])]\<rparr>))"

section \<open>Dispatch\<close>

datatype ws_call =
    Upload_wasm rust_string script_type bytes bytes
  | Request_script_execution rust_string "rust_string option"
  | Change_job_state block_number h256
  | Submit_result_unsiged block_number bytes bytes pubkey u32
  | Get_collators_lts

text \<open>
  The runtime's router. The collator list is read at dispatch; the block number is part of
  the state and constant within a block.
\<close>

fun ws_dispatch ::
  "ws_config \<Rightarrow> ws_externals \<Rightarrow> account list \<Rightarrow> origin \<times> ws_call \<Rightarrow> ws_state \<Rightarrow> ws_outcome" where
  "ws_dispatch cfg X collators (orig, Upload_wasm name typ code abi) s = upload_wasm cfg X orig name typ code abi s"
| "ws_dispatch cfg X collators (orig, Request_script_execution name params) s =
     request_script_execution cfg X orig name params s"
| "ws_dispatch cfg X collators (orig, Change_job_state b k) s = change_job_state orig b k s"
| "ws_dispatch cfg X collators (orig, Submit_result_unsiged b k v p t) s =
     submit_result_unsiged cfg X orig b k v p t s"
| "ws_dispatch cfg X collators (orig, Get_collators_lts) s = get_collators_lts collators orig s"

section \<open>Validation of unsigned transactions\<close>

definition validate_unsiged_transaction ::
  "ws_config \<Rightarrow> block_number \<Rightarrow> h256 \<Rightarrow> ws_state \<Rightarrow> transaction_validity" where
  "validate_unsiged_transaction cfg block key s =
     (if ws_block s < block then Err Future
      else if key = 0 then Err BadProof
      else Ok \<lparr>vt_tag_prefix = ''WasmstoreJobWorker'', vt_priority = ws_unsigned_priority cfg,
               vt_provides = [], vt_longevity = 5, vt_propagate = True\<rparr>)"

fun ws_validate_unsigned ::
  "ws_config \<Rightarrow> ws_externals \<Rightarrow> ws_call \<Rightarrow> ws_state \<Rightarrow> transaction_validity" where
  "ws_validate_unsigned cfg X (Change_job_state block key) s =
     validate_unsiged_transaction cfg block key s"
| "ws_validate_unsigned cfg X (Submit_result_unsiged block key v p t) s =
     and_then (expect (dec_hash (ws_codecs X) key))
       (\<lambda>onchain_key. validate_unsiged_transaction cfg block onchain_key s)"
| "ws_validate_unsigned cfg X _ s = Err InvalidCall"

section \<open>What each call does\<close>

lemmas ws_call_defs = upload_wasm_def request_script_execution_def change_job_state_def
  submit_result_unsiged_def get_collators_lts_def

definition script_key :: "ws_externals \<Rightarrow> rust_string \<Rightarrow> bytes" where
  "script_key X name = ws_debug_encode X name"

definition upload_sizes_ok ::
  "ws_config \<Rightarrow> ws_externals \<Rightarrow> rust_string \<Rightarrow> bytes \<Rightarrow> bytes \<Rightarrow> bool" where
  "upload_sizes_ok cfg X name code abi \<longleftrightarrow>
     length code \<le> unat (max_script_size cfg) \<and> length name \<le> unat (max_string_size cfg) \<and>
     length abi \<le> unat (max_script_size cfg) \<and>
     length (script_key X name) \<le> unat (max_script_key_len cfg)"

definition uploaded ::
  "ws_externals \<Rightarrow> account \<Rightarrow> rust_string \<Rightarrow> script_type \<Rightarrow> bytes \<Rightarrow> bytes \<Rightarrow> ws_state \<Rightarrow> script_detail" where
  "uploaded X who name typ code abi s =
     \<lparr>sd_publisher = who, sd_block_number = ws_block s, sd_wasm_code = code, sd_wasm_abi = abi,
      sd_hash = ws_hash X code, sd_name = name, sd_typ = typ, sd_ref_count = 0\<rparr>"

lemma upload_wasm_Ok_iff:
  "upload_wasm cfg X orig name0 typ code abi s = Ok s' \<longleftrightarrow>
     (\<exists>who. orig = Signed who \<and>
        upload_sizes_ok cfg X (prefixed_name typ name0) code abi \<and>
        (\<forall>d. scripts s (script_key X (prefixed_name typ name0)) = Some d \<longrightarrow>
               sd_name d \<noteq> prefixed_name typ name0 \<or> sd_wasm_code d \<noteq> code) \<and>
        s' = s\<lparr>scripts := (scripts s)(script_key X (prefixed_name typ name0) \<mapsto>
                   uploaded X who (prefixed_name typ name0) typ code abi s),
               ws_events := ws_events s @ [ScriptUpload who (ws_block s)
                   (of_nat (length code)) (prefixed_name typ name0) (ws_hash X code)]\<rparr>)"
  by (auto simp: upload_wasm_def upload_sizes_ok_def uploaded_def script_key_def Let_def
      outcome_simps split: option.splits)

lemma upload_wasm_Err:
  "upload_wasm cfg X orig name0 typ code abi s = Err e \<Longrightarrow>
     e \<in> {BadOrigin, ModuleError SizeTooBig, ModuleError ValAlreadyExist}"
  by (auto simp: upload_wasm_def Let_def outcome_simps split: option.splits)

lemma upload_wasm_no_panic: "upload_wasm cfg X orig name0 typ code abi s \<noteq> Panic"
  by (auto simp: upload_wasm_def Let_def outcome_simps split: option.splits)

lemma request_Ok_iff:
  "request_script_execution cfg X orig name params s = Ok s' \<longleftrightarrow>
     (\<exists>who d. orig = Signed who \<and>
        length (script_key X name) \<le> unat (max_script_key_len cfg) \<and>
        scripts s (script_key X name) = Some d \<and>
        length name \<le> unat (max_string_size cfg) \<and>
        jobs s (job_key X (new_job who name d)) = None \<and>
        s' = s\<lparr>jobs := (jobs s)(job_key X (new_job who name d) \<mapsto> new_job who name d),
               ws_events := ws_events s @
                 [RequestExecution (job_key X (new_job who name d)) who (ws_block s) name]\<rparr>)"
  by (auto simp: request_script_execution_def script_key_def Let_def outcome_simps
      split: option.splits)

lemma request_no_panic: "request_script_execution cfg X orig name params s \<noteq> Panic"
  by (auto simp: request_script_execution_def Let_def outcome_simps split: option.splits)

lemma change_Ok_iff:
  "change_job_state orig block key s = Ok s' \<longleftrightarrow>
     orig = Unsigned \<and>
     s' = s\<lparr>jobs := (case jobs s key of
              Some job \<Rightarrow> (jobs s)(key \<mapsto> advance_job job) | None \<Rightarrow> jobs s)\<rparr>"
  by (auto simp: change_job_state_def outcome_simps)

lemma change_no_panic: "change_job_state orig block key s \<noteq> Panic"
  by (auto simp: change_job_state_def outcome_simps)

lemma script_result_update:
  fixes r :: script_result
  shows "r\<lparr>result_data := d, ext_time := t\<rparr> = \<lparr>result_data = d, ext_time = t\<rparr>"
  by (cases r) simp

lemma submit_Ok_iff:
  "submit_result_unsiged cfg X orig block key val p t s = Ok s' \<longleftrightarrow>
     orig = Unsigned \<and>
     (\<exists>h. dec_hash (ws_codecs X) key = Some h \<and>
        (case jobs s h of
           None \<Rightarrow> s' = s
         | Some job \<Rightarrow> job_status job = Finish \<and> length val \<le> unat (max_result_size cfg) \<and>
             s' = s\<lparr>results := (results s)((h, p) \<mapsto> \<lparr>result_data = val, ext_time = t\<rparr>)\<rparr>))"
proof (cases "dec_hash (ws_codecs X) key")
  case None
  then show ?thesis
    by (simp add: submit_result_unsiged_def and_then_Ok)
next
  case (Some h)
  then show ?thesis
    by (cases "jobs s h"; cases "results s (h, p)")
      (auto simp: submit_result_unsiged_def and_then_Ok script_result_update)
qed

lemma submit_Panic_iff:
  "submit_result_unsiged cfg X orig block key val p t s = Panic \<longleftrightarrow>
     orig = Unsigned \<and>
     (dec_hash (ws_codecs X) key = None \<or>
      (\<exists>h job r. dec_hash (ws_codecs X) key = Some h \<and> jobs s h = Some job \<and>
         job_status job = Finish \<and> results s (h, p) = Some r \<and>
         unat (max_result_size cfg) < length val))"
  by (auto simp: submit_result_unsiged_def outcome_simps split: option.splits if_splits)

lemma collators_Ok_iff:
  "get_collators_lts collators orig s = Ok s' \<longleftrightarrow>
     (\<exists>who. orig = Signed who) \<and> s' = s\<lparr>ws_events := ws_events s @ [TestEvent collators]\<rparr>"
proof -
  have "fold (\<lambda>c r. r @ [c]) xs ys = ys @ xs" for xs ys :: "account list"
    by (induction xs arbitrary: ys) auto
  then show ?thesis
    by (auto simp: get_collators_lts_def outcome_simps)
qed

lemmas ws_Ok_iffs = upload_wasm_Ok_iff request_Ok_iff change_Ok_iff submit_Ok_iff collators_Ok_iff

text \<open>One case per call, for the proofs about every call.\<close>

lemma ws_dispatch_cases [consumes 1, case_names upload request change submit_none submit collators]:
  assumes "ws_dispatch cfg X collators c s = Ok s'"
  obtains
    who name ty code abi where
      "c = (Signed who, Upload_wasm name ty code abi)"
      "upload_sizes_ok cfg X (prefixed_name ty name) code abi"
      "s' = s\<lparr>scripts := (scripts s)(script_key X (prefixed_name ty name) \<mapsto>
                   uploaded X who (prefixed_name ty name) ty code abi s),
               ws_events := ws_events s @ [ScriptUpload who (ws_block s)
                   (of_nat (length code)) (prefixed_name ty name) (ws_hash X code)]\<rparr>"
  | who name params d where
      "c = (Signed who, Request_script_execution name params)"
      "length name \<le> unat (max_string_size cfg)"
      "scripts s (script_key X name) = Some d"
      "jobs s (job_key X (new_job who name d)) = None"
      "s' = s\<lparr>jobs := (jobs s)(job_key X (new_job who name d) \<mapsto> new_job who name d),
               ws_events := ws_events s @
                 [RequestExecution (job_key X (new_job who name d)) who (ws_block s) name]\<rparr>"
  | b k where
      "c = (Unsigned, Change_job_state b k)"
      "s' = s\<lparr>jobs := (case jobs s k of
              Some job \<Rightarrow> (jobs s)(k \<mapsto> advance_job job) | None \<Rightarrow> jobs s)\<rparr>"
  | b k v p t where
      "c = (Unsigned, Submit_result_unsiged b k v p t)" "s' = s"
  | b k v p t h job where
      "c = (Unsigned, Submit_result_unsiged b k v p t)"
      "dec_hash (ws_codecs X) k = Some h" "jobs s h = Some job" "job_status job = Finish"
      "length v \<le> unat (max_result_size cfg)"
      "s' = s\<lparr>results := (results s)((h, p) \<mapsto> \<lparr>result_data = v, ext_time = t\<rparr>)\<rparr>"
  | who where
      "c = (Signed who, Get_collators_lts)"
      "s' = s\<lparr>ws_events := ws_events s @ [TestEvent collators]\<rparr>"
proof -
  obtain orig call where c: "c = (orig, call)" by (cases c)
  show thesis
    using assms c that
    by (cases call) (auto simp: ws_Ok_iffs split: option.splits)
qed

end
