(* ===== verification/Scale_Format.thy ===== *)
theory Scale_Format
  imports Payload_Model
begin

text \<open>
  The published SCALE format at the types the program encodes: compact lengths, byte
  vectors, fixed-width integers, 32-byte values, enum tags and structs field by field in
  declaration order. Each codec is shown to satisfy the interface \<open>codec\<close> (decoding an
  encoding followed by anything gives the value and the rest), and together they satisfy
  \<open>codec_laws\<close>, the only fact the rest of the development uses.
\<close>

section \<open>The codec interface\<close>

locale codec =
  fixes enc :: "'a \<Rightarrow> bytes"
    and dec :: "bytes \<Rightarrow> ('a \<times> bytes) option"
    and ok :: "'a \<Rightarrow> bool"
  assumes dec_enc: "ok x \<Longrightarrow> dec (enc x @ r) = Some (x, r)"
begin

lemma dec_enc_exact: "ok x \<Longrightarrow> dec (enc x) = Some (x, [])"
  using dec_enc [of x "[]"] by simp

lemma enc_prefix_free:
  assumes "ok x" "ok y" "enc x @ r = enc y @ r'"
  shows "x = y \<and> r = r'"
proof -
  have "Some (x, r) = Some (y, r')"
    using dec_enc [OF assms(1), of r] dec_enc [OF assms(2), of r'] assms(3) by metis
  then show ?thesis by simp
qed

lemma enc_inject: "ok x \<Longrightarrow> ok y \<Longrightarrow> enc x = enc y \<Longrightarrow> x = y"
  by (metis dec_enc_exact option.inject prod.inject)

end

text \<open>Two fields in sequence.\<close>

fun enc_pair :: "('a \<Rightarrow> bytes) \<Rightarrow> ('b \<Rightarrow> bytes) \<Rightarrow> 'a \<times> 'b \<Rightarrow> bytes" where
  "enc_pair ea eb (a, b) = ea a @ eb b"

definition dec_pair ::
  "(bytes \<Rightarrow> ('a \<times> bytes) option) \<Rightarrow> (bytes \<Rightarrow> ('b \<times> bytes) option)
     \<Rightarrow> bytes \<Rightarrow> (('a \<times> 'b) \<times> bytes) option" where
  "dec_pair da db bs =
     (case da bs of None \<Rightarrow> None
      | Some (a, r) \<Rightarrow> (case db r of None \<Rightarrow> None | Some (b, r') \<Rightarrow> Some ((a, b), r')))"

locale codec_pair =
  fst: codec ea da oka + snd: codec eb db okb
  for ea :: "'a \<Rightarrow> bytes" and da oka and eb :: "'b \<Rightarrow> bytes" and db okb
begin

sublocale codec "enc_pair ea eb" "dec_pair da db" "\<lambda>(a, b). oka a \<and> okb b"
  by unfold_locales (auto simp: dec_pair_def fst.dec_enc snd.dec_enc)

end

section \<open>Compact lengths\<close>

definition enc_compact :: "nat \<Rightarrow> bytes" where
  "enc_compact n =
     (if n < 2 ^ 6 then le_bytes 1 (of_nat (4 * n) :: byte)
      else if n < 2 ^ 14 then le_bytes 2 (of_nat (4 * n + 1) :: u16)
      else if n < 2 ^ 30 then le_bytes 4 (of_nat (4 * n + 2) :: u32)
      else 3 # le_bytes 4 (of_nat n :: u32))"

text \<open>
  The decoder rejects an encoding that is longer than needed, as the library does.
\<close>

definition dec_compact :: "bytes \<Rightarrow> (nat \<times> bytes) option" where
  "dec_compact bs =
     (case bs of [] \<Rightarrow> None | b # r \<Rightarrow>
        if unat b mod 4 = 0 then Some (unat b div 4, r)
        else if unat b mod 4 = 1 then
          (if length bs < 2 then None
           else let n = unat (of_le_bytes (take 2 bs) :: u16) div 4
                in if 2 ^ 6 \<le> n then Some (n, drop 2 bs) else None)
        else if unat b mod 4 = 2 then
          (if length bs < 4 then None
           else let n = unat (of_le_bytes (take 4 bs) :: u32) div 4
                in if 2 ^ 14 \<le> n then Some (n, drop 4 bs) else None)
        else if unat b div 4 = 0 \<and> 4 \<le> length r then
          (let n = unat (of_le_bytes (take 4 r) :: u32)
           in if 2 ^ 30 \<le> n then Some (n, drop 4 r) else None)
        else None)"

lemma le_bytes_first:
  "0 < k \<Longrightarrow> \<exists>bs. le_bytes k w = ucast w # bs"
  by (cases k) auto

lemma unat_ucast_byte: "8 \<le> LENGTH('a) \<Longrightarrow> unat (ucast (w :: 'a::len word) :: byte) = unat w mod 256"
  by (simp add: unsigned_ucast_eq take_bit_eq_mod)

lemma dec_compact_two:
  assumes "unat b mod 4 = 1" "xs = b # r" "2 \<le> length xs" "2 ^ 6 \<le> n"
    and "unat (of_le_bytes (take 2 xs) :: u16) div 4 = n"
  shows "dec_compact xs = Some (n, drop 2 xs)"
  using assms(1,3,4,5) by (auto simp: dec_compact_def assms(2) simp del: of_le_bytes.simps)

lemma dec_compact_four:
  assumes "unat b mod 4 = 2" "xs = b # r" "4 \<le> length xs" "2 ^ 14 \<le> n"
    and "unat (of_le_bytes (take 4 xs) :: u32) div 4 = n"
  shows "dec_compact xs = Some (n, drop 4 xs)"
  using assms(1,3,4,5) by (auto simp: dec_compact_def assms(2) simp del: of_le_bytes.simps)

text \<open>The low two bits of the first byte tell the mode apart.\<close>

lemma compact_tag: "t < 4 \<Longrightarrow> (4 * n + t) mod 256 mod 4 = (t :: nat)"
  by (subst mod_mod_cancel) auto

lemma compact_mode_two:
  assumes "2 ^ 6 \<le> n" "n < 2 ^ 14"
  shows "dec_compact (le_bytes 2 (of_nat (4 * n + 1) :: u16) @ r) = Some (n, r)"
proof -
  define w :: u16 where "w = of_nat (4 * n + 1)"
  have w: "unat w = 4 * n + 1"
    unfolding w_def using assms by (intro unat_of_nat_small) simp
  obtain bs where bs: "le_bytes 2 w = ucast w # bs"
    using le_bytes_first [of 2 w] by auto
  have tag: "unat (ucast w :: byte) mod 4 = 1"
    using compact_tag [of 1 n] by (simp add: unat_ucast_byte w)
  have xs: "le_bytes 2 w @ r = ucast w # (bs @ r)"
    by (simp only: bs append_Cons)
  have val: "unat (of_le_bytes (take 2 (le_bytes 2 w @ r)) :: u16) div 4 = n"
    by (simp add: of_le_bytes_full w)
  from dec_compact_two [OF tag xs _ assms(1) val] show ?thesis
    by (simp add: w_def)
qed

lemma compact_mode_four:
  assumes "2 ^ 14 \<le> n" "n < 2 ^ 30"
  shows "dec_compact (le_bytes 4 (of_nat (4 * n + 2) :: u32) @ r) = Some (n, r)"
proof -
  define w :: u32 where "w = of_nat (4 * n + 2)"
  have w: "unat w = 4 * n + 2"
    unfolding w_def using assms by (intro unat_of_nat_small) simp
  obtain bs where bs: "le_bytes 4 w = ucast w # bs"
    using le_bytes_first [of 4 w] by auto
  have tag: "unat (ucast w :: byte) mod 4 = 2"
    using compact_tag [of 2 n] by (simp add: unat_ucast_byte w)
  have xs: "le_bytes 4 w @ r = ucast w # (bs @ r)"
    by (simp only: bs append_Cons)
  have val: "unat (of_le_bytes (take 4 (le_bytes 4 w @ r)) :: u32) div 4 = n"
    by (simp add: of_le_bytes_full w)
  from dec_compact_four [OF tag xs _ assms(1) val] show ?thesis
    by (simp add: w_def)
qed

lemma dec_compact_enc:
  assumes "n < 2 ^ 32"
  shows "dec_compact (enc_compact n @ r) = Some (n, r)"
proof -
  consider "n < 2 ^ 6" | "2 ^ 6 \<le> n" "n < 2 ^ 14" | "2 ^ 14 \<le> n" "n < 2 ^ 30" | "2 ^ 30 \<le> n"
    by linarith
  then show ?thesis
  proof cases
    case 1
    then have "unat (of_nat (4 * n) :: byte) = 4 * n"
      by (intro unat_of_nat_small) simp
    with 1 show ?thesis
      by (simp add: enc_compact_def dec_compact_def)
  next
    case 2
    then have "enc_compact n = le_bytes 2 (of_nat (4 * n + 1) :: u16)"
      by (simp add: enc_compact_def)
    then show ?thesis by (simp only: compact_mode_two [OF 2])
  next
    case 3
    then have "enc_compact n = le_bytes 4 (of_nat (4 * n + 2) :: u32)"
      by (simp add: enc_compact_def)
    then show ?thesis by (simp only: compact_mode_four [OF 3])
  next
    case 4
    then have "unat (of_nat n :: u32) = n"
      using assms by (intro unat_of_nat_small) simp
    with 4 show ?thesis
      by (simp add: enc_compact_def dec_compact_def of_le_bytes_full Let_def)
  qed
qed

section \<open>Field types\<close>

definition enc_vec :: "bytes \<Rightarrow> bytes" where
  "enc_vec xs = enc_compact (length xs) @ xs"

definition dec_vec :: "bytes \<Rightarrow> (bytes \<times> bytes) option" where
  "dec_vec bs =
     (case dec_compact bs of None \<Rightarrow> None
      | Some (n, r) \<Rightarrow> if n \<le> length r then Some (take n r, drop n r) else None)"

definition enc_u32 :: "u32 \<Rightarrow> bytes" where
  "enc_u32 w = le_bytes 4 w"

definition dec_u32 :: "bytes \<Rightarrow> (u32 \<times> bytes) option" where
  "dec_u32 bs = (if length bs < 4 then None else Some (of_le_bytes (take 4 bs), drop 4 bs))"

definition dec_h256 :: "bytes \<Rightarrow> (h256 \<times> bytes) option" where
  "dec_h256 bs = (if length bs < 32 then None else Some (h256_of_bytes (take 32 bs), drop 32 bs))"

fun enc_job_state :: "job_state \<Rightarrow> bytes" where
  "enc_job_state Idling = [0]"
| "enc_job_state Pending = [1]"
| "enc_job_state Processing = [2]"
| "enc_job_state Finish = [3]"

definition dec_job_state :: "bytes \<Rightarrow> (job_state \<times> bytes) option" where
  "dec_job_state bs =
     (case bs of [] \<Rightarrow> None | b # r \<Rightarrow>
        if b = 0 then Some (Idling, r) else if b = 1 then Some (Pending, r)
        else if b = 2 then Some (Processing, r) else if b = 3 then Some (Finish, r) else None)"

interpretation vec: codec enc_vec dec_vec fits
  by unfold_locales (simp add: enc_vec_def dec_vec_def dec_compact_enc fits_def)

interpretation u32: codec enc_u32 dec_u32 "\<lambda>_. True"
  by unfold_locales (simp add: enc_u32_def dec_u32_def of_le_bytes_full)

interpretation h256: codec h256_bytes dec_h256 "\<lambda>_. True"
  by unfold_locales (simp add: dec_h256_def)

interpretation job_state: codec enc_job_state dec_job_state "\<lambda>_. True"
proof
  fix x r
  show "dec_job_state (enc_job_state x @ r) = Some (x, r)"
    by (cases x) (simp_all add: dec_job_state_def)
qed

section \<open>Structs, field by field\<close>

abbreviation (input) enc_request_fields where
  "enc_request_fields \<equiv> enc_pair enc_vec (enc_pair enc_vec (enc_pair enc_vec enc_job_state))"

abbreviation (input) dec_request_fields where
  "dec_request_fields \<equiv> dec_pair dec_vec (dec_pair dec_vec (dec_pair dec_vec dec_job_state))"

abbreviation (input) enc_response_fields where
  "enc_response_fields \<equiv>
     enc_pair enc_vec (enc_pair enc_vec (enc_pair enc_job_state (enc_pair h256_bytes enc_u32)))"

abbreviation (input) dec_response_fields where
  "dec_response_fields \<equiv>
     dec_pair dec_vec (dec_pair dec_vec (dec_pair dec_job_state (dec_pair dec_h256 dec_u32)))"

interpretation rq1: codec_pair enc_vec dec_vec fits enc_job_state dec_job_state "\<lambda>_. True" ..

interpretation rq2: codec_pair enc_vec dec_vec fits
  "enc_pair enc_vec enc_job_state" "dec_pair dec_vec dec_job_state" "\<lambda>(a, b). fits a \<and> True" ..

interpretation rq3: codec_pair enc_vec dec_vec fits
  "enc_pair enc_vec (enc_pair enc_vec enc_job_state)"
  "dec_pair dec_vec (dec_pair dec_vec dec_job_state)"
  "\<lambda>(a, b). fits a \<and> (case b of (a, b) \<Rightarrow> fits a \<and> True)" ..

interpretation rs1: codec_pair h256_bytes dec_h256 "\<lambda>_. True" enc_u32 dec_u32 "\<lambda>_. True" ..

interpretation rs2: codec_pair enc_job_state dec_job_state "\<lambda>_. True"
  "enc_pair h256_bytes enc_u32" "dec_pair dec_h256 dec_u32" "\<lambda>(a, b). True \<and> True" ..

interpretation rs3: codec_pair enc_vec dec_vec fits
  "enc_pair enc_job_state (enc_pair h256_bytes enc_u32)"
  "dec_pair dec_job_state (dec_pair dec_h256 dec_u32)"
  "\<lambda>(a, b). True \<and> (case b of (a, b) \<Rightarrow> True \<and> True)" ..

interpretation rs4: codec_pair enc_vec dec_vec fits
  "enc_pair enc_vec (enc_pair enc_job_state (enc_pair h256_bytes enc_u32))"
  "dec_pair dec_vec (dec_pair dec_job_state (dec_pair dec_h256 dec_u32))"
  "\<lambda>(a, b). fits a \<and> (case b of (a, b) \<Rightarrow> True \<and> (case b of (a, b) \<Rightarrow> True \<and> True))" ..

definition scale_enc_request :: "request_payload \<Rightarrow> bytes" where
  "scale_enc_request p =
     enc_request_fields (rq_job_id p, rq_job_content p, rq_content_abi p, rq_job_state p)"

definition scale_dec_request :: "bytes \<Rightarrow> request_payload option" where
  "scale_dec_request bs =
     (case dec_request_fields bs of None \<Rightarrow> None
      | Some ((i, c, a, st), r) \<Rightarrow>
          Some \<lparr>rq_job_id = i, rq_job_content = c, rq_content_abi = a, rq_job_state = st\<rparr>)"

definition scale_enc_response :: "response_payload \<Rightarrow> bytes" where
  "scale_enc_response p =
     enc_response_fields (rs_job_id p, rs_job_result p, rs_job_state p, rs_address p, rs_exe_time p)"

definition scale_dec_response :: "bytes \<Rightarrow> response_payload option" where
  "scale_dec_response bs =
     (case dec_response_fields bs of None \<Rightarrow> None
      | Some ((i, res, st, a, t), r) \<Rightarrow>
          Some \<lparr>rs_job_id = i, rs_job_result = res, rs_job_state = st, rs_address = a,
            rs_exe_time = t\<rparr>)"

lemma scale_request_roundtrip:
  "request_fits p \<Longrightarrow> scale_dec_request (scale_enc_request p) = Some p"
  using rq3.dec_enc_exact
    [of "(rq_job_id p, rq_job_content p, rq_content_abi p, rq_job_state p)"]
  by (simp add: scale_enc_request_def scale_dec_request_def request_fits_def
      del: enc_pair.simps)

lemma scale_response_roundtrip:
  "response_fits p \<Longrightarrow> scale_dec_response (scale_enc_response p) = Some p"
  using rs4.dec_enc_exact
    [of "(rs_job_id p, rs_job_result p, rs_job_state p, rs_address p, rs_exe_time p)"]
  by (simp add: scale_enc_response_def scale_dec_response_def response_fits_def
      del: enc_pair.simps)

section \<open>The codecs the program derives\<close>

definition scale_codecs :: payload_codecs where
  "scale_codecs =
     \<lparr>enc_request = scale_enc_request, dec_request = scale_dec_request,
      enc_response = scale_enc_response, dec_response = scale_dec_response,
      enc_hash = h256_bytes, dec_hash = (\<lambda>bs. map_option fst (dec_h256 bs)),
      public_bytes = h256_bytes, dec_public = (\<lambda>bs. map_option fst (dec_h256 bs))\<rparr>"

lemma scale_codec_laws: "codec_laws scale_codecs"
  unfolding codec_laws_def scale_codecs_def
  using scale_request_roundtrip scale_response_roundtrip h256.dec_enc_exact
  by (auto simp: dec_h256_def)

end
