(* ===== verification/Wasmstore_Props.thy ===== *)
theory Wasmstore_Props
  imports Wasmstore_Pallet Scale_Format
begin

text \<open>
  What the wasmstore calls keep and what they allow: the storage invariant and the progress
  relation of the pallet, lifted to every run of blocks through \<open>call_invariant\<close> and
  \<open>call_relation\<close>, and the properties of jobs, scripts and results that follow.
\<close>

section \<open>Runs of blocks\<close>

text \<open>A step is the start of a block (with its number) or a call with its origin.\<close>

type_synonym ws_step = "block_number + origin \<times> ws_call"

fun ws_exec ::
  "ws_config \<Rightarrow> ws_externals \<Rightarrow> account list \<Rightarrow> ws_step \<Rightarrow> ws_state \<Rightarrow> ws_outcome" where
  "ws_exec cfg X collators (Inl n) s = Ok (s\<lparr>ws_block := n\<rparr>)"
| "ws_exec cfg X collators (Inr c) s = ws_dispatch cfg X collators c s"

abbreviation ws_run ::
  "ws_config \<Rightarrow> ws_externals \<Rightarrow> account list \<Rightarrow> ws_step list \<Rightarrow> ws_state \<Rightarrow> ws_state" where
  "ws_run cfg X collators \<equiv> run_calls (ws_exec cfg X collators)"

definition ws_genesis :: ws_state where
  "ws_genesis = \<lparr>scripts = Map.empty, jobs = Map.empty, results = Map.empty,
     ws_block = 0, ws_events = []\<rparr>"

section \<open>The storage invariant\<close>

definition script_ok :: "ws_config \<Rightarrow> ws_externals \<Rightarrow> bytes \<Rightarrow> script_detail \<Rightarrow> bool" where
  "script_ok cfg X k d \<longleftrightarrow>
     k = script_key X (sd_name d) \<and> sd_hash d = ws_hash X (sd_wasm_code d) \<and>
     upload_sizes_ok cfg X (sd_name d) (sd_wasm_code d) (sd_wasm_abi d) \<and>
     (\<exists>n. sd_name d = prefixed_name (sd_typ d) n)"

definition job_ok :: "ws_config \<Rightarrow> ws_externals \<Rightarrow> h256 \<Rightarrow> ocw_job \<Rightarrow> bool" where
  "job_ok cfg X h j \<longleftrightarrow>
     h = job_key X (j\<lparr>job_status := Pending\<rparr>) \<and> Pending \<le> job_status j \<and>
     length (job_script_name j) \<le> unat (max_string_size cfg) \<and>
     length (job_wasm_code j) \<le> unat (max_script_size cfg) \<and>
     length (job_wasm_abi j) \<le> unat (max_script_size cfg)"

definition ws_inv :: "ws_config \<Rightarrow> ws_externals \<Rightarrow> ws_state \<Rightarrow> bool" where
  "ws_inv cfg X s \<longleftrightarrow>
     (\<forall>k d. scripts s k = Some d \<longrightarrow> script_ok cfg X k d) \<and>
     (\<forall>h j. jobs s h = Some j \<longrightarrow> job_ok cfg X h j) \<and>
     (\<forall>h p r. results s (h, p) = Some r \<longrightarrow>
        length (result_data r) \<le> unat (max_result_size cfg) \<and>
        (\<exists>j. jobs s h = Some j \<and> job_status j = Finish))"

lemma ws_inv_genesis: "ws_inv cfg X ws_genesis"
  by (simp add: ws_inv_def ws_genesis_def)

lemma next_state_mono: "a \<le> next_state a"
  by (cases a) (auto simp: less_eq_job_state_def)

lemma advance_Finish [simp]: "job_status j = Finish \<Longrightarrow> advance_job j = j"
  by (cases j) (simp add: advance_job_def)

lemma advance_ok: "job_ok cfg X h j \<Longrightarrow> job_ok cfg X h (advance_job j)"
  using next_state_mono [of "job_status j"] by (auto simp: job_ok_def advance_job_def)

lemma uploaded_ok:
  "upload_sizes_ok cfg X (prefixed_name ty n) code abi \<Longrightarrow>
     script_ok cfg X (script_key X (prefixed_name ty n))
       (uploaded X who (prefixed_name ty n) ty code abi s)"
  by (auto simp: script_ok_def uploaded_def)

lemma new_job_ok:
  "script_ok cfg X k d \<Longrightarrow> length name \<le> unat (max_string_size cfg) \<Longrightarrow>
     job_ok cfg X (job_key X (new_job who name d)) (new_job who name d)"
  by (auto simp: job_ok_def script_ok_def new_job_def upload_sizes_ok_def)

lemma ws_dispatch_inv:
  assumes "ws_dispatch cfg X collators c s = Ok s'" "ws_inv cfg X s"
  shows "ws_inv cfg X s'"
  using assms(1)
proof (cases rule: ws_dispatch_cases)
  case (upload who name ty code abi)
  with assms(2) uploaded_ok show ?thesis by (auto simp: ws_inv_def)
next
  case (request who name params d)
  with assms(2) have "job_ok cfg X (job_key X (new_job who name d)) (new_job who name d)"
    by (auto simp: ws_inv_def intro: new_job_ok)
  with assms(2) request show ?thesis
    by (fastforce simp: ws_inv_def)
next
  case (change b k)
  show ?thesis
  proof (cases "jobs s k")
    case (Some j)
    with assms(2) have "job_ok cfg X k (advance_job j)"
      by (auto simp: ws_inv_def intro: advance_ok)
    with assms(2) change Some show ?thesis
      by (fastforce simp: ws_inv_def)
  qed (use assms(2) change in simp)
next
  case submit_none
  with assms(2) show ?thesis by simp
next
  case submit
  with assms(2) show ?thesis by (auto simp: ws_inv_def)
next
  case collators
  with assms(2) show ?thesis by (simp add: ws_inv_def)
qed

interpretation ws_safe: call_invariant "ws_exec cfg X collators" "ws_inv cfg X" for cfg X collators
proof
  fix s c s'
  assume "ws_inv cfg X s" "ws_exec cfg X collators c s = Ok s'"
  then show "ws_inv cfg X s'"
    by (cases c) (auto simp: ws_inv_def [of _ _ "s\<lparr>ws_block := _\<rparr>"] intro: ws_dispatch_inv,
      auto simp: ws_inv_def)
qed

section \<open>The progress relation\<close>

definition ws_progress :: "ws_state \<Rightarrow> ws_state \<Rightarrow> bool" where
  "ws_progress s t \<longleftrightarrow>
     (\<forall>k. scripts s k \<noteq> None \<longrightarrow> scripts t k \<noteq> None) \<and>
     (\<forall>h j. jobs s h = Some j \<longrightarrow>
        (\<exists>st. jobs t h = Some (j\<lparr>job_status := st\<rparr>) \<and> job_status j \<le> st)) \<and>
     (\<forall>hp. results s hp \<noteq> None \<longrightarrow> results t hp \<noteq> None) \<and>
     (\<exists>es. ws_events t = ws_events s @ es)"

lemma ws_progress_job:
  "ws_progress s t \<Longrightarrow> jobs s h = Some j \<Longrightarrow>
     \<exists>st. jobs t h = Some (j\<lparr>job_status := st\<rparr>) \<and> job_status j \<le> st"
  unfolding ws_progress_def by blast

lemma job_self_update: "j = j\<lparr>job_status := job_status (j :: ocw_job)\<rparr>"
  by simp

lemma ws_progress_refl: "ws_progress s s"
  unfolding ws_progress_def by (metis append_Nil2 job_self_update order_refl)

lemma ws_progress_trans: "ws_progress s t \<Longrightarrow> ws_progress t u \<Longrightarrow> ws_progress s u"
  unfolding ws_progress_def
proof (intro conjI allI impI, goal_cases)
  case (2 h j)
  then obtain st where st: "jobs t h = Some (j\<lparr>job_status := st\<rparr>)" "job_status j \<le> st"
    by blast
  with 2 obtain st' where "jobs u h = Some (j\<lparr>job_status := st\<rparr>\<lparr>job_status := st'\<rparr>)"
    "job_status (j\<lparr>job_status := st\<rparr>) \<le> st'" by blast
  with st show ?case by (auto intro: order_trans)
qed auto

lemma advance_progress:
  "\<exists>st. advance_job j = j\<lparr>job_status := st\<rparr> \<and> job_status j \<le> st"
  using next_state_mono by (auto simp: advance_job_def)

lemma ws_dispatch_progress:
  assumes "ws_dispatch cfg X collators c s = Ok s'"
  shows "ws_progress s s'"
  using assms
proof (cases rule: ws_dispatch_cases)
  case (change b k)
  then show ?thesis
    using advance_progress ws_progress_refl [of s]
    by (auto simp: ws_progress_def split: option.splits)
next
  case (request who name params d)
  then show ?thesis
    using ws_progress_refl [of s] by (auto simp: ws_progress_def)
qed (use ws_progress_refl [of s] in \<open>auto simp: ws_progress_def\<close>)

interpretation ws_flow: call_relation "ws_exec cfg X collators" ws_progress for cfg X collators
proof
  fix c s s'
  assume "ws_exec cfg X collators c s = Ok s'"
  then show "ws_progress s s'"
    using ws_progress_refl [of s]
    by (cases c) (auto simp: ws_progress_def [of _ "s\<lparr>ws_block := _\<rparr>"] intro: ws_dispatch_progress,
      auto simp: ws_progress_def)
qed (auto intro: ws_progress_refl ws_progress_trans)

section \<open>Sample externals for closed examples\<close>

text \<open>
  A concrete hasher (a polynomial hash, as the third-party Blake2 is a parameter), a
  rendering of names that quotes them, and the SCALE format.
\<close>

definition sample_hash :: "bytes \<Rightarrow> h256" where
  "sample_hash bs = foldl (\<lambda>h b. h * 257 + ucast b + 1) 1 bs"

definition sample_enc_job :: "ocw_job \<Rightarrow> bytes" where
  "sample_enc_job j =
     le_bytes 4 (job_caller j) @ job_script_name j @ job_wasm_code j @ job_wasm_abi j
       @ enc_job_state (job_status j)"

definition sample_externals :: ws_externals where
  "sample_externals =
     \<lparr>ws_hash = sample_hash, ws_debug_encode = (\<lambda>n. 34 # n @ [34]),
      ws_enc_job = sample_enc_job, ws_codecs = scale_codecs\<rparr>"

lemmas sample_simps = sample_externals_def sample_hash_def sample_enc_job_def
  runtime_ws_config_def script_key_def job_key_def new_job_def uploaded_def
  upload_sizes_ok_def prefixed_name_def ascii_def

section \<open>Properties of the pallet\<close>

text \<open>
  C10: From the empty storage of a new chain, every sequence of blocks and calls (any
  origins, any arguments, failing calls included) leads to a well-formed storage: every
  script sits under the key of its own name within the configured sizes and carries the
  hash of its code; every job sits under the hash of its pending form; every stored result
  fits the bound and belongs to a finished job of the queue.
\<close>

theorem ws_reachable_inv: "ws_inv cfg X (ws_run cfg X collators steps ws_genesis)"
  by (rule ws_safe.run_inv [OF ws_inv_genesis])

text \<open>
  C28: Along every run no script, job or result is ever removed, the emitted events are
  only extended, and a queued job keeps its caller, name and code while its state only
  moves forward.
\<close>

theorem ws_run_progress: "ws_progress s (ws_run cfg X collators steps s)"
  by (rule ws_flow.run_rel)

fun changes_job :: "h256 \<Rightarrow> ws_step \<Rightarrow> bool" where
  "changes_job h (Inr (Unsigned, Change_job_state b k)) \<longleftrightarrow> k = h"
| "changes_job h _ \<longleftrightarrow> False"

lemma changes_job_iff:
  "changes_job h st \<longleftrightarrow> (\<exists>b. st = Inr (Unsigned, Change_job_state b h))"
  by (cases "(h, st)" rule: changes_job.cases) auto

lemma ws_exec_job:
  assumes "jobs s h = Some j" "ws_exec cfg X collators st s = Ok s'"
  shows "jobs s' h = Some (if changes_job h st then advance_job j else j)"
proof (cases st)
  case (Inl n)
  with assms show ?thesis by auto
next
  case (Inr c)
  with assms(2) have "ws_dispatch cfg X collators c s = Ok s'" by simp
  then show ?thesis
    using assms(1) Inr
    by (cases rule: ws_dispatch_cases) (auto simp: changes_job_iff split: option.splits)
qed

lemma changes_job_succeeds: "changes_job h st \<Longrightarrow> \<exists>s'. ws_exec cfg X collators st s = Ok s'"
  by (auto simp: changes_job_iff change_Ok_iff)

lemma advance_job_pow: "(advance_job ^^ n) j = j\<lparr>job_status := (next_state ^^ n) (job_status j)\<rparr>"
  by (induction n) (auto simp: advance_job_def)

text \<open>
  C16: The state of a queued job after any run is a function of one number, how many
  unsigned \<open>change_job_state\<close> calls for its key the run holds: each moves the job one
  step along Pending, Processing, Finish, whoever sent it and whatever block it names, and
  nothing else moves it.
\<close>

theorem job_status_counts:
  assumes "jobs s h = Some j"
  shows "jobs (ws_run cfg X collators steps s) h =
     Some (j\<lparr>job_status :=
       (next_state ^^ length (filter (changes_job h) steps)) (job_status j)\<rparr>)"
proof -
  have "jobs (ws_run cfg X collators steps s) h =
      Some ((advance_job ^^ length (filter (changes_job h) steps)) j)"
    using assms
  proof (induction steps arbitrary: s j)
    case (Cons st steps)
    let ?s' = "case ws_exec cfg X collators st s of Ok s' \<Rightarrow> s' | _ \<Rightarrow> s"
    have "jobs ?s' h = Some (if changes_job h st then advance_job j else j)"
      using Cons.prems ws_exec_job [OF Cons.prems, where st = st]
        changes_job_succeeds [of h st cfg X collators s]
      by (auto split: outcome.splits)
    from Cons.IH [OF this] show ?case
      by (simp add: funpow_swap1)
  qed simp
  then show ?thesis
    by (simp add: advance_job_pow)
qed

theorem job_status_counts_witness:
  "job_status (the (jobs (ws_run runtime_ws_config sample_externals []
      [Inr (Unsigned, Change_job_state 1 9), Inl 2, Inr (Unsigned, Change_job_state 0 9)]
      (ws_genesis\<lparr>jobs := [9 \<mapsto> \<lparr>job_caller = 5, job_script_name = [], job_wasm_code = [],
          job_wasm_abi = [], job_status = Pending\<rparr>]\<rparr>)) 9)) = Finish"
  by (subst job_status_counts [where j = "\<lparr>job_caller = 5, job_script_name = [], job_wasm_code = [],
      job_wasm_abi = [], job_status = Pending\<rparr>"]) (simp_all add: numeral_2_eq_2)

text \<open>
  C24: After a successful upload, a request for the uploaded (prefixed) name by any signed
  account, if that job is not already queued, queues a pending job of that account that
  carries exactly the uploaded code and interface description.
\<close>

theorem request_after_upload:
  assumes up: "upload_wasm cfg X (Signed who) name0 ty code abi s = Ok s'"
    and fresh: "jobs s' (job_key X (new_job who' (prefixed_name ty name0)
        (uploaded X who (prefixed_name ty name0) ty code abi s))) = None"
  shows "\<exists>t h j. request_script_execution cfg X (Signed who') (prefixed_name ty name0) params s' = Ok t
     \<and> jobs t h = Some j \<and> job_caller j = who' \<and> job_wasm_code j = code \<and> job_wasm_abi j = abi
     \<and> job_status j = Pending"
proof -
  let ?name = "prefixed_name ty name0"
  let ?d = "uploaded X who ?name ty code abi s"
  let ?j = "new_job who' ?name ?d"
  from up have sizes: "upload_sizes_ok cfg X ?name code abi"
    and stored: "scripts s' (script_key X ?name) = Some ?d"
    by (auto simp: upload_wasm_Ok_iff)
  let ?t = "s'\<lparr>jobs := (jobs s')(job_key X ?j \<mapsto> ?j), ws_events := ws_events s' @
      [RequestExecution (job_key X ?j) who' (ws_block s') ?name]\<rparr>"
  have "request_script_execution cfg X (Signed who') ?name params s' = Ok ?t"
    using sizes stored fresh by (auto simp: request_Ok_iff upload_sizes_ok_def)
  moreover have "jobs ?t (job_key X ?j) = Some ?j" by simp
  moreover have "job_caller ?j = who' \<and> job_wasm_code ?j = code \<and> job_wasm_abi ?j = abi
      \<and> job_status ?j = Pending"
    by (simp add: new_job_def uploaded_def)
  ultimately show ?thesis by blast
qed

theorem request_after_upload_witness:
  "\<exists>s' t h j. upload_wasm runtime_ws_config sample_externals (Signed 1) [97] Executable [0, 1] [2] ws_genesis = Ok s'
     \<and> request_script_execution runtime_ws_config sample_externals (Signed 2)
         (prefixed_name Executable [97]) None s' = Ok t
     \<and> jobs t h = Some j \<and> job_wasm_code j = [0, 1]"
proof -
  let ?X = sample_externals
  let ?n = "prefixed_name Executable [97]"
  let ?s' = "ws_genesis\<lparr>scripts := [script_key ?X ?n \<mapsto> uploaded ?X 1 ?n Executable [0, 1] [2] ws_genesis],
     ws_events := [ScriptUpload 1 0 (of_nat (length ([0, 1] :: bytes))) ?n (ws_hash ?X [0, 1])]\<rparr>"
  have up: "upload_wasm runtime_ws_config ?X (Signed 1) [97] Executable [0, 1] [2] ws_genesis = Ok ?s'"
    by (simp add: upload_wasm_Ok_iff ws_genesis_def upload_sizes_ok_def script_key_def
        sample_externals_def runtime_ws_config_def prefixed_name_def ascii_def)
  moreover have "jobs ?s' (job_key ?X (new_job 2 ?n (uploaded ?X 1 ?n Executable [0, 1] [2] ws_genesis))) = None"
    by (simp add: ws_genesis_def)
  ultimately show ?thesis
    using request_after_upload [OF up, of 2 None] by blast
qed

text \<open>
  A request is accepted at most once for the same caller and script content: after a
  request by \<open>who\<close> succeeded, and however the chain continues, another request by \<open>who\<close>
  for a name whose stored code and interface are still those of that job is refused with
  \<open>ValAlreadyExist\<close>, also after the job has finished and its result was stored.
\<close>

lemma request_never_again:
  assumes first: "request_script_execution cfg X (Signed who) name params s = Ok s'"
    and d: "scripts s (script_key X name) = Some d"
    and d': "scripts (ws_run cfg X collators steps s') (script_key X name) = Some d'"
    and same: "sd_wasm_code d' = sd_wasm_code d" "sd_wasm_abi d' = sd_wasm_abi d"
  shows "request_script_execution cfg X (Signed who) name params'
     (ws_run cfg X collators steps s') = Err (ModuleError ValAlreadyExist)"
proof -
  let ?t = "ws_run cfg X collators steps s'"
  let ?j = "new_job who name d"
  from first d have sizes: "length (ws_debug_encode X name) \<le> unat (max_script_key_len cfg)"
      "length name \<le> unat (max_string_size cfg)"
    and queued: "jobs s' (job_key X ?j) = Some ?j"
    by (auto simp: request_Ok_iff script_key_def)
  from queued obtain st where "jobs ?t (job_key X ?j) = Some (?j\<lparr>job_status := st\<rparr>)"
    using ws_progress_job [OF ws_flow.run_rel] by blast
  moreover have "new_job who name d' = ?j"
    by (simp add: new_job_def same)
  ultimately show ?thesis
    using d' sizes by (simp add: request_script_execution_def script_key_def bounded_def)
qed

text \<open>
  C27: \<open>upload_wasm\<close> does not protect a published script: any signed account that uploads
  other code (within the sizes) under an existing name replaces the script of its
  publisher, and becomes its publisher.
\<close>

theorem upload_replaces_foreign_script:
  assumes "scripts s (script_key X (prefixed_name ty name)) = Some d"
    and "sd_wasm_code d \<noteq> code"
    and "upload_sizes_ok cfg X (prefixed_name ty name) code abi"
  shows "\<exists>s' d'. upload_wasm cfg X (Signed who) name ty code abi s = Ok s'
     \<and> scripts s' (script_key X (prefixed_name ty name)) = Some d'
     \<and> sd_publisher d' = who \<and> sd_wasm_code d' = code"
  using assms by (auto simp: upload_wasm_Ok_iff uploaded_def)

theorem upload_replaces_foreign_script_witness:
  "\<exists>s' d'. upload_wasm runtime_ws_config sample_externals (Signed 66) [97] Source [9] []
       (ws_genesis\<lparr>scripts := [script_key sample_externals (prefixed_name Source [97]) \<mapsto>
          uploaded sample_externals 1 (prefixed_name Source [97]) Source [0, 1] [2] ws_genesis]\<rparr>) = Ok s'
     \<and> scripts s' (script_key sample_externals (prefixed_name Source [97])) = Some d'
     \<and> sd_publisher d' = 66 \<and> sd_wasm_code d' = [9]"
  by (rule upload_replaces_foreign_script
      [where d = "uploaded sample_externals 1 (prefixed_name Source [97]) Source [0, 1] [2] ws_genesis"])
    (simp_all add: sample_simps)

text \<open>
  The result a step submits under a job and a processor, if it is an unsigned submission
  whose key decodes to the job and whose content fits.
\<close>

fun submission ::
  "ws_config \<Rightarrow> ws_externals \<Rightarrow> h256 \<Rightarrow> pubkey \<Rightarrow> ws_step \<Rightarrow> script_result option" where
  "submission cfg X h p (Inr (Unsigned, Submit_result_unsiged b key v q t)) =
     (if dec_hash (ws_codecs X) key = Some h \<and> q = p \<and> length v \<le> unat (max_result_size cfg)
      then Some \<lparr>result_data = v, ext_time = t\<rparr> else None)"
| "submission cfg X h p _ = None"

lemma submission_Some:
  "submission cfg X h p st = Some r \<longleftrightarrow>
     (\<exists>b key. st = Inr (Unsigned, Submit_result_unsiged b key (result_data r) p (ext_time r))
        \<and> dec_hash (ws_codecs X) key = Some h \<and> length (result_data r) \<le> unat (max_result_size cfg))"
  by (cases "(cfg, X, h, p, st)" rule: submission.cases; cases r) auto

abbreviation finished :: "h256 \<Rightarrow> ws_state \<Rightarrow> bool" where
  "finished h s \<equiv> map_option job_status (jobs s h) = Some Finish"

lemma ws_reachable_results:
  "results (ws_run cfg X collators steps ws_genesis) (h, p) = Some r \<Longrightarrow>
     finished h (ws_run cfg X collators steps ws_genesis)"
  using ws_safe.run_inv [OF ws_inv_genesis, of cfg X collators steps]
  unfolding ws_inv_def by fastforce

text \<open>What one step does to one entry of the results, also when it fails and is rolled back.\<close>

lemma ws_exec_results:
  assumes "ws_exec cfg X collators st s = Ok s'"
  shows "results s' (h, p) =
     (if finished h s \<and> submission cfg X h p st \<noteq> None then submission cfg X h p st else results s (h, p))"
proof (cases "\<exists>b key v q t. st = Inr (Unsigned, Submit_result_unsiged b key v q t)")
  case True
  then obtain b key v q t where st: "st = Inr (Unsigned, Submit_result_unsiged b key v q t)" by blast
  with assms obtain k where k: "dec_hash (ws_codecs X) key = Some k"
    and out: "case jobs s k of None \<Rightarrow> s' = s | Some job \<Rightarrow> job_status job = Finish
      \<and> length v \<le> unat (max_result_size cfg)
      \<and> s' = s\<lparr>results := (results s)((k, q) \<mapsto> \<lparr>result_data = v, ext_time = t\<rparr>)\<rparr>"
    by (auto simp: submit_Ok_iff)
  show ?thesis
  proof (cases "jobs s k")
    case None
    with out k st show ?thesis by auto
  next
    case (Some job)
    with out k st show ?thesis by auto
  qed
next
  case False
  then have none: "submission cfg X h p st = None"
    by (cases "submission cfg X h p st") (auto simp: submission_Some)
  show ?thesis
  proof (cases st)
    case (Inr c)
    with assms have "ws_dispatch cfg X collators c s = Ok s'" by simp
    then show ?thesis
      by (cases rule: ws_dispatch_cases) (use none False Inr in auto)
  qed (use assms none in auto)
qed

lemma step_results:
  "results (case ws_exec cfg X collators st s of Ok s' \<Rightarrow> s' | _ \<Rightarrow> s) (h, p) =
     (if finished h s \<and> submission cfg X h p st \<noteq> None then submission cfg X h p st else results s (h, p))"
proof (cases "ws_exec cfg X collators st s")
  case (Ok s')
  with ws_exec_results [OF this] show ?thesis by simp
next
  case (Err e)
  have "\<not> (finished h s \<and> submission cfg X h p st \<noteq> None)"
  proof
    assume fin: "finished h s \<and> submission cfg X h p st \<noteq> None"
    then obtain r where "submission cfg X h p st = Some r" by blast
    with fin obtain b key j where "st = Inr (Unsigned, Submit_result_unsiged b key (result_data r) p (ext_time r))"
        "dec_hash (ws_codecs X) key = Some h" "length (result_data r) \<le> unat (max_result_size cfg)"
        "jobs s h = Some j" "job_status j = Finish"
      by (auto simp: submission_Some)
    then have "\<exists>s'. ws_exec cfg X collators st s = Ok s'"
      by (auto simp: submit_Ok_iff)
    with Err show False by simp
  qed
  with Err show ?thesis by auto
next
  case Panic
  have "\<not> (finished h s \<and> submission cfg X h p st \<noteq> None)"
    using Panic by (auto simp: submission_Some submit_Panic_iff)
  with Panic show ?thesis by auto
qed

text \<open>The last element of a list that \<open>f\<close> is defined on.\<close>

lemma last_match_snoc:
  "(\<exists>pre y post. xs @ [x] = pre @ y # post \<and> Q pre \<and> f y = Some r \<and> list_all (\<lambda>y. f y = None) post)
     \<longleftrightarrow> (case f x of Some q \<Rightarrow> Q xs \<and> q = r
          | None \<Rightarrow> (\<exists>pre y post. xs = pre @ y # post \<and> Q pre \<and> f y = Some r \<and> list_all (\<lambda>y. f y = None) post))"
  (is "?L \<longleftrightarrow> ?R")
proof
  assume ?L
  then obtain pre y post where split: "xs @ [x] = pre @ y # post" "Q pre" "f y = Some r" "list_all (\<lambda>y. f y = None) post"
    by blast
  then show ?R
    by (cases post rule: rev_cases) auto
next
  assume R: ?R
  show ?L
  proof (cases "f x")
    case None
    with R obtain pre y post where "xs = pre @ y # post" "Q pre" "f y = Some r" "list_all (\<lambda>y. f y = None) post"
      by auto
    with None show ?L by (intro exI [of _ pre] exI [of _ y] exI [of _ "post @ [x]"]) simp
  next
    case (Some q)
    with R show ?L by (intro exI [of _ xs] exI [of _ x] exI [of _ "[]"]) simp
  qed
qed

text \<open>
  C11: What the chain holds as a job's result is the last word of a submitter, not the first.
  After any run from the genesis state the result under a job and a processor is some \<open>r\<close>
  exactly when \<open>r\<close> is the content of the last unsigned submission for the two that fits the
  size bound, provided the job had finished before it. What came before the job
  finished, came signed, was too big or named another processor leaves no trace.
\<close>

theorem stored_result_is_last:
  "results (ws_run cfg X collators steps ws_genesis) (h, p) = Some r \<longleftrightarrow>
     (\<exists>pre st post. steps = pre @ st # post
        \<and> map_option job_status (jobs (ws_run cfg X collators pre ws_genesis) h) = Some Finish
        \<and> submission cfg X h p st = Some r
        \<and> list_all (\<lambda>st. submission cfg X h p st = None) post)"
proof (induction steps rule: rev_induct)
  case Nil
  then show ?case by (simp add: ws_genesis_def)
next
  case (snoc x steps)
  let ?s = "ws_run cfg X collators steps ws_genesis"
  have last: "results (ws_run cfg X collators (steps @ [x]) ws_genesis) (h, p) =
      (if finished h ?s \<and> submission cfg X h p x \<noteq> None then submission cfg X h p x else results ?s (h, p))"
    by (simp add: run_calls_append step_results)
  have "results ?s (h, p) = None" if "\<not> finished h ?s"
    using ws_reachable_results [of cfg X collators steps h p] that by (cases "results ?s (h, p)") blast+
  then show ?case
    unfolding last_match_snoc [where Q = "\<lambda>pre. finished h (ws_run cfg X collators pre ws_genesis)"] last
    using snoc.IH by (cases "submission cfg X h p x") simp_all
qed

text \<open>
  Nothing ties a stored result to the processor it names: two unsigned submissions for
  a finished job and the same processor key, with any two contents, get the same verdict
  from the transaction validation, both succeed, and the second content is what is stored.
\<close>

lemma result_overwritable:
  assumes "jobs s h = Some j" "job_status j = Finish"
    and "dec_hash (ws_codecs X) key = Some h"
    and "length v \<le> unat (max_result_size cfg)" "length v' \<le> unat (max_result_size cfg)"
  shows "ws_validate_unsigned cfg X (Submit_result_unsiged b key v p t) s
         = ws_validate_unsigned cfg X (Submit_result_unsiged b key v' p t') s
     \<and> (\<exists>s1 s2. submit_result_unsiged cfg X Unsigned b key v p t s = Ok s1
        \<and> submit_result_unsiged cfg X Unsigned b key v' p t' s1 = Ok s2
        \<and> results s2 (h, p) = Some \<lparr>result_data = v', ext_time = t'\<rparr>)"
  using assms by (auto simp: submit_Ok_iff)

definition sample_job :: "job_state \<Rightarrow> ocw_job" where
  "sample_job st = \<lparr>job_caller = 5, job_script_name = ascii ''EXEa'', job_wasm_code = [0, 1],
     job_wasm_abi = [2], job_status = st\<rparr>"

lemma dec_hash_sample: "dec_hash (ws_codecs sample_externals) (h256_bytes h) = Some h"
  using codec_lawsD(4) [OF scale_codec_laws, of h]
  by (simp add: sample_externals_def scale_codecs_def)

text \<open>
  Validation of unsigned transactions, on every call: the two worker calls are accepted
  exactly when the block they name is not in the future and the job key is not the zero
  hash (a key that does not decode panics); accepted ones get the configured priority,
  five blocks of longevity and no dependency tag, so neither the sender nor the content
  nor the existence of the job matters. Every other call is refused.
\<close>

lemma ws_validate_unsigned_spec:
  "ws_validate_unsigned cfg X call s =
     (let verdict = (\<lambda>b h. if ws_block s < b then Err Future else if h = 0 then Err BadProof
          else Ok \<lparr>vt_tag_prefix = ''WasmstoreJobWorker'', vt_priority = ws_unsigned_priority cfg,
                   vt_provides = [], vt_longevity = 5, vt_propagate = True\<rparr>)
      in case call of
           Change_job_state b h \<Rightarrow> verdict b h
         | Submit_result_unsiged b key v p t \<Rightarrow>
             (case dec_hash (ws_codecs X) key of None \<Rightarrow> Panic | Some h \<Rightarrow> verdict b h)
         | _ \<Rightarrow> Err InvalidCall)"
  by (cases call) (auto simp: validate_unsiged_transaction_def Let_def split: option.splits)

end
