(* ===== verification/Offchain_Db.thy ===== *)
theory Offchain_Db
  imports Byte_Views
begin

text \<open>
  The node's persistent off-chain database, which the off-chain workers of the runtime
  (\<open>local_storage_get\<close>, \<open>local_storage_set\<close>, \<open>local_storage_compare_and_set\<close>,
  \<open>local_storage_clear\<close>) and the node's script manager (\<open>OffchainStorage\<close> with the
  prefix \<open>storage\<close>) share. Its state is a map from keys to values. The interface
  \<open>kv_store\<close> is what the clients rely on; \<open>OffchainApiKey\<close>
  (\<open>offchain-utils/src/offchain_api_key.rs\<close>) is its first client.
\<close>

section \<open>The store\<close>

type_synonym offchain_db = "bytes \<rightharpoonup> bytes"

definition db_get :: "offchain_db \<Rightarrow> bytes \<Rightarrow> bytes option" where
  "db_get db k = db k"

definition db_set :: "bytes \<Rightarrow> bytes \<Rightarrow> offchain_db \<Rightarrow> offchain_db" where
  "db_set k v db = db(k \<mapsto> v)"

definition db_clear :: "bytes \<Rightarrow> offchain_db \<Rightarrow> offchain_db" where
  "db_clear k db = db(k := None)"

definition db_compare_and_set ::
  "bytes \<Rightarrow> bytes option \<Rightarrow> bytes \<Rightarrow> offchain_db \<Rightarrow> bool \<times> offchain_db" where
  "db_compare_and_set k old new db =
     (if db_get db k = old then (True, db_set k new db) else (False, db))"

section \<open>What the clients rely on\<close>

locale kv_store =
  fixes get :: "'db \<Rightarrow> 'k \<Rightarrow> 'v option"
    and put :: "'k \<Rightarrow> 'v \<Rightarrow> 'db \<Rightarrow> 'db"
    and cas :: "'k \<Rightarrow> 'v option \<Rightarrow> 'v \<Rightarrow> 'db \<Rightarrow> bool \<times> 'db"
  assumes get_put: "get (put k v db) k' = (if k' = k then Some v else get db k')"
    and cas_eq: "cas k old new db = (if get db k = old then (True, put k new db) else (False, db))"
begin

lemma get_put_same [simp]: "get (put k v db) k = Some v"
  by (simp add: get_put)

lemma get_put_other [simp]: "k' \<noteq> k \<Longrightarrow> get (put k v db) k' = get db k'"
  by (simp add: get_put)

lemma cas_success: "get db k = old \<Longrightarrow> cas k old new db = (True, put k new db)"
  by (simp add: cas_eq)

lemma cas_failure: "get db k \<noteq> old \<Longrightarrow> cas k old new db = (False, db)"
  by (simp add: cas_eq)

lemma cas_get:
  "get (snd (cas k old new db)) k' =
     (if k' = k \<and> get db k = old then Some new else get db k')"
  by (simp add: cas_eq get_put)

text \<open>Reading a key and then writing it by compare-and-set, with nothing in between.\<close>

lemma read_then_cas: "cas k (get db k) new db = (True, put k new db)"
  by (simp add: cas_eq)

text \<open>At most one of two writers that start from the same read succeeds.\<close>

lemma cas_exclusive:
  assumes "cas k old a db = (True, db')" "Some a \<noteq> old"
  shows "cas k old b db' = (False, db')"
  using assms by (auto simp: cas_eq get_put split: if_splits)

end

interpretation odb: kv_store db_get db_set db_compare_and_set
  by unfold_locales (auto simp: db_get_def db_set_def db_compare_and_set_def)

lemma db_clear_get: "db_get (db_clear k db) k' = (if k' = k then None else db_get db k')"
  by (simp add: db_get_def db_clear_def)

section \<open>API keys in the store\<close>

definition do_fetch_local :: "rust_string \<Rightarrow> offchain_db \<Rightarrow> (string, rust_string option) outcome" where
  "do_fetch_local key db =
     (case db_get db key of
        Some api_key_bytes \<Rightarrow>
          and_then (expect (from_utf8 api_key_bytes)) (\<lambda>api_key. Ok (Some api_key))
      | None \<Rightarrow> Ok None)"

definition fetch_api_key_for_request ::
  "rust_string \<Rightarrow> offchain_db \<Rightarrow> (string, rust_string) outcome" where
  "fetch_api_key_for_request key db =
     and_then (do_fetch_local key db) (ok_or ''Missing or invalid API key'')"

definition store_api_key :: "rust_string \<Rightarrow> rust_string \<Rightarrow> offchain_db \<Rightarrow> offchain_db" where
  "store_api_key key value db = db_set key value db"

lemma fetch_api_key_cases:
  "fetch_api_key_for_request key db =
     (case db_get db key of
        None \<Rightarrow> Err ''Missing or invalid API key''
      | Some b \<Rightarrow> if valid_utf8 b then Ok b else Panic)"
  by (auto simp: fetch_api_key_for_request_def do_fetch_local_def from_utf8_def
      split: option.splits)

lemma fetch_store_same:
  "valid_utf8 v \<Longrightarrow> fetch_api_key_for_request k (store_api_key k v db) = Ok v"
  by (simp add: fetch_api_key_cases store_api_key_def)

lemma fetch_store_other:
  "k' \<noteq> k \<Longrightarrow>
     fetch_api_key_for_request k' (store_api_key k v db) = fetch_api_key_for_request k' db"
  by (simp add: fetch_api_key_cases store_api_key_def)

text \<open>The crate's tests (\<open>tests.rs\<close>, which no module declares): a stored key is found, an unknown is not.\<close>

lemma replayed_api_key_tests:
  "fetch_api_key_for_request (ascii ''test_api_key'')
     (db_set (ascii ''test_api_key'') (ascii ''mock_key_value'') Map.empty) = Ok (ascii ''mock_key_value'')"
  "fetch_api_key_for_request (ascii ''non_existent_key'') Map.empty = Err ''Missing or invalid API key''"
  by (simp_all add: fetch_api_key_cases db_set_def db_get_def ascii_def)

end
