(* ===== verification/Wasmstore_Worker.thy ===== *)
theory Wasmstore_Worker
  imports Wasmstore_Props Offchain_Db
begin

text \<open>
  The off-chain half of \<open>pallets/wasmstore-pallet/src/lib.rs\<close>: the \<open>offchain_worker\<close>
  hook and its helpers. A run of the worker reads the chain (the current block number and
  the entries that \<open>JobQueue::iter\<close> yields, in its order) and acts on the off-chain
  database and the transaction pool; both effects stay when the worker panics later. The
  pool is third-party: \<open>accept\<close> says whether it takes a call, given what it took before.
\<close>

section \<open>State and results of a run\<close>

record worker =
  wk_db :: offchain_db
  wk_pool :: "ws_call list"
  wk_events :: "ws_event list"

datatype worker_exit = Returned | Panicked

datatype command = CmdNone | RequestData bytes bytes | ResultData "bytes set"

datatype wasm_store_err = ValueAlreadyExist | IsStillRunning | Unintialize | OtherErr

type_synonym pool = "ws_call list \<Rightarrow> ws_call \<Rightarrow> bool"

definition master_key :: bytes where
  "master_key = ascii ''wasmstore_jobs_executor''"

definition master_result_key :: bytes where
  "master_result_key = ascii ''wasmstore_jobs_result''"

definition init_mark :: bytes where
  "init_mark = ascii ''init''"

text \<open>What \<open>JobQueue::iter\<close> yields: every entry of the map once, in some order.\<close>

definition iterates :: "(h256 \<times> ocw_job) list \<Rightarrow> ws_state \<Rightarrow> bool" where
  "iterates jl s \<longleftrightarrow> distinct (map fst jl) \<and> map_of jl = jobs s"

section \<open>Submitting transactions\<close>

definition submit_unsigned_transaction :: "pool \<Rightarrow> ws_call \<Rightarrow> worker \<Rightarrow> bool \<times> worker" where
  "submit_unsigned_transaction accept call w =
     (if accept (wk_pool w) call then (True, w\<lparr>wk_pool := wk_pool w @ [call]\<rparr>) else (False, w))"

definition submit_and_report ::
  "pool \<Rightarrow> block_number \<Rightarrow> ws_call \<Rightarrow> worker \<Rightarrow> (string, unit) outcome \<times> worker" where
  "submit_and_report accept block call w =
     (case submit_unsigned_transaction accept call w of
        (True, w') \<Rightarrow> (Ok (), w'\<lparr>wk_events := wk_events w' @ [UnsignedTx block]\<rparr>)
      | (False, w') \<Rightarrow> (Err ''Unable to submit unsigned transaction.'', w'))"

definition ocw_do_change_job_state ::
  "pool \<Rightarrow> block_number \<Rightarrow> h256 \<Rightarrow> worker \<Rightarrow> (string, unit) outcome \<times> worker" where
  "ocw_do_change_job_state accept block key w =
     submit_and_report accept block (Change_job_state block key) w"

definition ocw_do_submit_result ::
  "pool \<Rightarrow> block_number \<Rightarrow> bytes \<Rightarrow> bytes \<Rightarrow> pubkey \<Rightarrow> u32 \<Rightarrow> worker
     \<Rightarrow> (string, unit) outcome \<times> worker" where
  "ocw_do_submit_result accept block key val processor_pub time w =
     submit_and_report accept block (Submit_result_unsiged block key val processor_pub time) w"

section \<open>Handling the job queue\<close>

fun ocw_do_handling_job ::
  "payload_codecs \<Rightarrow> pool \<Rightarrow> block_number \<Rightarrow> bytes \<Rightarrow> (h256 \<times> ocw_job) list \<Rightarrow> worker
     \<Rightarrow> (wasm_store_err, command) outcome \<times> worker" where
  "ocw_do_handling_job C accept block params [] w = (Ok CmdNone, w)"
| "ocw_do_handling_job C accept block params ((job_id, job) # rest) w =
     (case job_status job of
        Pending \<Rightarrow>
          let key_list = params @ enc_hash C job_id in
          (case ocw_do_change_job_state accept block job_id w of
             (Ok _, w') \<Rightarrow>
               (Ok (RequestData key_list (enc_request C
                  \<lparr>rq_job_id = enc_hash C job_id, rq_job_content = job_wasm_code job,
                   rq_content_abi = job_wasm_abi job, rq_job_state = job_status job\<rparr>)), w')
           | (_, w') \<Rightarrow> (Ok (RequestData key_list (enc_request C default_request)), w'))
      | Finish \<Rightarrow> (Ok (ResultData {enc_hash C job_id}), w)
      | _ \<Rightarrow> ocw_do_handling_job C accept block params rest w)"

definition ocw_do_handling_result :: "bytes \<Rightarrow> (wasm_store_err, bytes list) outcome" where
  "ocw_do_handling_result params =
     (if params = init_mark then Err IsStillRunning
      else if length params < 4 then Panic
      else Ok (chunks 32 (drop 4 params)))"

section \<open>The hook\<close>

definition store_request ::
  "payload_codecs \<Rightarrow> bytes \<Rightarrow> bytes \<Rightarrow> bytes \<Rightarrow> offchain_db \<Rightarrow> offchain_db" where
  "store_request C jobs_val key_list encoded_payload db =
     (case dec_request C encoded_payload of
        None \<Rightarrow> db
      | Some payload \<Rightarrow>
          db_set (rq_job_id payload) encoded_payload
            (snd (db_compare_and_set master_key (Some jobs_val) key_list db)))"

fun submit_results ::
  "payload_codecs \<Rightarrow> pool \<Rightarrow> block_number \<Rightarrow> bytes list \<Rightarrow> worker \<Rightarrow> worker_exit \<times> worker" where
  "submit_results C accept block [] w = (Returned, w)"
| "submit_results C accept block (k # ks) w =
     (case db_get (wk_db w) k of
        None \<Rightarrow> submit_results C accept block ks w
      | Some raw_val \<Rightarrow>
          (case dec_response C raw_val of
             None \<Rightarrow> submit_results C accept block ks w
           | Some res \<Rightarrow>
               (case dec_public C (public_bytes C (rs_address res)) of
                  None \<Rightarrow> (Panicked, w)
                | Some address \<Rightarrow>
                    (case ocw_do_submit_result accept block (rs_job_id res) (rs_job_result res)
                            address (rs_exe_time res) w of
                       (Ok _, w') \<Rightarrow> submit_results C accept block ks w'
                     | (_, w') \<Rightarrow> (Panicked, w')))))"

definition handle_results ::
  "payload_codecs \<Rightarrow> pool \<Rightarrow> block_number \<Rightarrow> bytes \<Rightarrow> worker \<Rightarrow> worker_exit \<times> worker" where
  "handle_results C accept block results_val w =
     (case ocw_do_handling_result results_val of
        Ok result_key_list \<Rightarrow> submit_results C accept block result_key_list w
      | Err e \<Rightarrow> (Returned, w)
      | Panic \<Rightarrow> (Panicked, w))"

definition offchain_worker ::
  "payload_codecs \<Rightarrow> pool \<Rightarrow> block_number \<Rightarrow> (h256 \<times> ocw_job) list \<Rightarrow> worker
     \<Rightarrow> worker_exit \<times> worker" where
  "offchain_worker C accept block jl w =
     (case db_get (wk_db w) master_key of
        None \<Rightarrow> (Panicked, w)
      | Some jobs_val \<Rightarrow>
     (case db_get (wk_db w) master_result_key of
        None \<Rightarrow> (Panicked, w)
      | Some results_val \<Rightarrow>
     (case ocw_do_handling_job C accept block jobs_val jl w of
        (Ok CmdNone, w') \<Rightarrow> (Returned, w')
      | (Ok (RequestData key_list data), w') \<Rightarrow>
          handle_results C accept block results_val
            (w'\<lparr>wk_db := store_request C jobs_val key_list data (wk_db w')\<rparr>)
      | (Ok (ResultData result_list), w') \<Rightarrow> handle_results C accept block results_val w'
      | (_, w') \<Rightarrow> handle_results C accept block results_val w')))"

section \<open>The queue loop as a search\<close>

definition active :: "h256 \<times> ocw_job \<Rightarrow> bool" where
  "active e \<longleftrightarrow> job_status (snd e) = Pending \<or> job_status (snd e) = Finish"

definition job_request :: "payload_codecs \<Rightarrow> h256 \<Rightarrow> ocw_job \<Rightarrow> request_payload" where
  "job_request C h j =
     \<lparr>rq_job_id = enc_hash C h, rq_job_content = job_wasm_code j,
      rq_content_abi = job_wasm_abi j, rq_job_state = Pending\<rparr>"

text \<open>
  The loop returns at the first active entry, so it is a search: everything before it is
  skipped and nothing after it is looked at.
\<close>

lemma handling_job_find:
  "ocw_do_handling_job C accept block params jl w =
     (case find active jl of
        None \<Rightarrow> (Ok CmdNone, w)
      | Some (h, j) \<Rightarrow>
          if job_status j = Finish then (Ok (ResultData {enc_hash C h}), w)
          else if accept (wk_pool w) (Change_job_state block h)
          then (Ok (RequestData (params @ enc_hash C h) (enc_request C (job_request C h j))),
                w\<lparr>wk_pool := wk_pool w @ [Change_job_state block h],
                  wk_events := wk_events w @ [UnsignedTx block]\<rparr>)
          else (Ok (RequestData (params @ enc_hash C h) (enc_request C default_request)), w))"
proof (induction jl)
  case (Cons e jl)
  obtain h j where "e = (h, j)" by (cases e)
  with Cons show ?case
    by (cases "job_status j")
      (simp_all add: active_def ocw_do_change_job_state_def submit_and_report_def
        submit_unsigned_transaction_def job_request_def)
qed simp

lemma find_active_None: "find active jl = None \<longleftrightarrow> (\<forall>e \<in> set jl. \<not> active e)"
  by (auto simp: find_None_iff)

lemma find_Some_in: "find P xs = Some x \<Longrightarrow> x \<in> set xs \<and> P x"
  by (induction xs) (auto split: if_splits)

lemma find_active_Some:
  assumes "find active jl = Some (h, j)"
  shows "(h, j) \<in> set jl" "job_status j = Pending \<or> job_status j = Finish"
  using find_Some_in [OF assms] by (auto simp: active_def)

lemma find_iterates:
  "iterates jl s \<Longrightarrow> find active jl = Some (h, j) \<Longrightarrow> jobs s h = Some j"
  using find_active_Some(1) [of jl h j] by (auto simp: iterates_def dest: map_of_is_SomeI)

lemma job_request_fits:
  assumes "codec_laws C" "ws_inv cfg X s" "jobs s h = Some j"
  shows "request_fits (job_request C h j)"
proof -
  have "unat (max_script_size cfg) < 2 ^ 32"
    using unsigned_less [of "max_script_size cfg", where 'a = nat] by simp
  moreover have "length (job_wasm_code j) \<le> unat (max_script_size cfg)"
      "length (job_wasm_abi j) \<le> unat (max_script_size cfg)"
    using assms(2,3) by (auto simp: ws_inv_def job_ok_def)
  ultimately show ?thesis
    using codec_lawsD(3) [OF assms(1)]
    by (simp add: request_fits_def job_request_def fits_def)
qed

section \<open>Submitting results\<close>

text \<open>The call that a listed key leads to, if its value decodes.\<close>

definition result_call ::
  "payload_codecs \<Rightarrow> block_number \<Rightarrow> offchain_db \<Rightarrow> bytes \<Rightarrow> ws_call option" where
  "result_call C block db k =
     (case db_get db k of None \<Rightarrow> None
      | Some raw \<Rightarrow> map_option (\<lambda>res. Submit_result_unsiged block (rs_job_id res)
          (rs_job_result res) (rs_address res) (rs_exe_time res)) (dec_response C raw))"

lemma submit_results_all:
  assumes "codec_laws C" "\<And>p c. accept p c"
  shows "submit_results C accept block ks w =
     (Returned, w\<lparr>wk_pool := wk_pool w @ List.map_filter (result_call C block (wk_db w)) ks,
        wk_events := wk_events w @ map (\<lambda>_. UnsignedTx block)
          (List.map_filter (result_call C block (wk_db w)) ks)\<rparr>)"
proof (induction ks arbitrary: w)
  case Nil
  then show ?case by simp
next
  case (Cons k ks)
  then show ?case
    using codec_lawsD(6) [OF assms(1)]
    by (simp add: assms(2) result_call_def ocw_do_submit_result_def
        submit_and_report_def submit_unsigned_transaction_def split: option.splits)
qed

lemma submit_results_calls:
  assumes "submit_results C accept block ks w = (e, w')"
  shows "wk_db w' = wk_db w \<and>
     (\<exists>cs. wk_pool w' = wk_pool w @ cs \<and>
        (\<forall>c \<in> set cs. \<exists>k v p t. c = Submit_result_unsiged block k v p t))"
  using assms
proof (induction ks arbitrary: w)
  case (Cons k ks)
  then show ?case
    by (force simp: ocw_do_submit_result_def submit_and_report_def
        submit_unsigned_transaction_def split: option.splits if_splits)
qed simp

lemma handle_results_calls:
  assumes "handle_results C accept block rk w = (e, w')"
  shows "wk_db w' = wk_db w \<and>
     (\<exists>cs. wk_pool w' = wk_pool w @ cs \<and>
        (\<forall>c \<in> set cs. \<exists>k v p t. c = Submit_result_unsiged block k v p t))"
  using assms submit_results_calls
  by (fastforce simp: handle_results_def split: outcome.splits)

section \<open>Properties of the hook\<close>

lemma db_keys [simp]:
  "length master_key = 23" "length master_result_key = 21" "length init_mark = 4"
  by (simp_all add: master_key_def master_result_key_def init_mark_def ascii_def)

lemma master_keys_distinct [simp]:
  "master_key \<noteq> master_result_key" "master_result_key \<noteq> master_key"
  by (rule neq_by_length, rule db_keys, rule db_keys, simp)+

lemma enc_hash_keys:
  assumes "codec_laws C"
  shows "enc_hash C h \<noteq> master_key" "enc_hash C h \<noteq> master_result_key"
    "enc_hash C h \<noteq> init_mark" "enc_hash C h \<noteq> []"
  using codec_lawsD(3) [OF assms, of h] by auto

definition sample_worker :: "bytes \<Rightarrow> bytes \<Rightarrow> worker" where
  "sample_worker key_list result_list =
     \<lparr>wk_db = [master_key \<mapsto> key_list, master_result_key \<mapsto> result_list],
      wk_pool = [], wk_events = []\<rparr>"

lemma sample_worker_get [simp]:
  "db_get (wk_db (sample_worker kl rl)) master_key = Some kl"
  "db_get (wk_db (sample_worker kl rl)) master_result_key = Some rl"
  "wk_pool (sample_worker kl rl) = []"
  by (simp_all add: sample_worker_def db_get_def)

lemma sample_active [simp]:
  "active (h, sample_job st) \<longleftrightarrow> st = Pending \<or> st = Finish"
  "job_status (sample_job st) = st"
  by (simp_all add: active_def sample_job_def)

lemma sample_request_fits [simp]:
  "codec_laws C \<Longrightarrow> request_fits (job_request C h (sample_job st))"
  by (simp add: request_fits_def job_request_def fits_def sample_job_def codec_lawsD(3))

text \<open>
  A worker run with nothing pending and nothing finished in the queue changes neither
  the database nor the pool. In particular results that the
  executor has delivered are not submitted while every queued job is being processed.
\<close>

lemma idle_worker_changes_nothing:
  assumes "\<forall>e \<in> set jl. job_status (snd e) = Processing \<or> job_status (snd e) = Idling"
  shows "snd (offchain_worker C accept block jl w) = w"
proof -
  from assms have "find active jl = None"
    by (auto simp: find_active_None active_def)
  then show ?thesis
    by (simp add: offchain_worker_def handling_job_find split: option.split)
qed
lemma offchain_worker_finish:
  assumes "find active jl = Some (h, j)" "job_status j = Finish"
  shows "offchain_worker C accept block jl w =
     (case db_get (wk_db w) master_key of
        None \<Rightarrow> (Panicked, w)
      | Some kl \<Rightarrow>
     (case db_get (wk_db w) master_result_key of
        None \<Rightarrow> (Panicked, w)
      | Some rk \<Rightarrow> handle_results C accept block rk w))"
  using assms by (simp add: offchain_worker_def handling_job_find split: option.split)

lemma offchain_worker_accepted:
  assumes "find active jl = Some (h, j)" "job_status j = Pending"
    and "accept (wk_pool w) (Change_job_state block h)"
    and "db_get (wk_db w) master_key = Some kl" "db_get (wk_db w) master_result_key = Some rk"
  shows "offchain_worker C accept block jl w = handle_results C accept block rk
     (w\<lparr>wk_pool := wk_pool w @ [Change_job_state block h],
        wk_events := wk_events w @ [UnsignedTx block],
        wk_db := store_request C kl (kl @ enc_hash C h)
          (enc_request C (job_request C h j)) (wk_db w)\<rparr>)"
  using assms by (simp add: offchain_worker_def handling_job_find)

lemma offchain_worker_refused:
  assumes "find active jl = Some (h, j)" "job_status j = Pending"
    and "\<not> accept (wk_pool w) (Change_job_state block h)"
    and "db_get (wk_db w) master_key = Some kl" "db_get (wk_db w) master_result_key = Some rk"
  shows "offchain_worker C accept block jl w = handle_results C accept block rk
     (w\<lparr>wk_db := store_request C kl (kl @ enc_hash C h) (enc_request C default_request) (wk_db w)\<rparr>)"
  using assms by (simp add: offchain_worker_def handling_job_find)

lemma handle_results_init [simp]: "handle_results C accept block init_mark w = (Returned, w)"
  by (simp add: handle_results_def ocw_do_handling_result_def)

lemma store_request_get:
  assumes "codec_laws C" "request_fits (job_request C h j)"
  shows "store_request C jv kl (enc_request C (job_request C h j)) db =
     db_set (enc_hash C h) (enc_request C (job_request C h j))
       (snd (db_compare_and_set master_key (Some jv) kl db))"
  using codec_lawsD(1) [OF assms] by (simp add: store_request_def job_request_def)

text \<open>
  Any pool: the calls submitted are an initial part of those that the listed keys lead to,
  and the run returns exactly when the pool took them all.
\<close>

lemma submit_results_prefix:
  assumes "codec_laws C" "submit_results C accept block ks w = (e, w')"
  shows "wk_db w' = wk_db w \<and> (\<exists>cs rest. wk_pool w' = wk_pool w @ cs
     \<and> List.map_filter (result_call C block (wk_db w)) ks = cs @ rest \<and> (e = Returned \<longleftrightarrow> rest = []))"
  using assms(2)
proof (induction ks arbitrary: w)
  case Nil
  then show ?case by (simp add: map_filter_simps)
next
  case (Cons k ks)
  show ?case
  proof (cases "result_call C block (wk_db w) k")
    case None
    with Cons.prems have "submit_results C accept block ks w = (e, w')"
      by (auto simp: result_call_def split: option.splits)
    from Cons.IH [OF this] None show ?thesis by (simp add: map_filter_simps)
  next
    case (Some call)
    then obtain raw res where raw: "db_get (wk_db w) k = Some raw" "dec_response C raw = Some res"
        "call = Submit_result_unsiged block (rs_job_id res) (rs_job_result res) (rs_address res) (rs_exe_time res)"
      by (auto simp: result_call_def split: option.splits)
    show ?thesis
    proof (cases "accept (wk_pool w) call")
      case True
      let ?w = "w\<lparr>wk_pool := wk_pool w @ [call], wk_events := wk_events w @ [UnsignedTx block]\<rparr>"
      from True Cons.prems raw have "submit_results C accept block ks ?w = (e, w')"
        using codec_lawsD(6) [OF assms(1)]
        by (simp add: ocw_do_submit_result_def submit_and_report_def submit_unsigned_transaction_def)
      from Cons.IH [OF this] Some show ?thesis by (auto simp: map_filter_simps)
    next
      case False
      with Cons.prems raw have "e = Panicked" "w' = w"
        using codec_lawsD(6) [OF assms(1)]
        by (simp_all add: ocw_do_submit_result_def submit_and_report_def submit_unsigned_transaction_def)
      with Some show ?thesis
        by (intro conjI exI [of _ "[]"] exI [of _ "call # List.map_filter (result_call C block (wk_db w)) ks"])
          (simp_all add: map_filter_simps)
    qed
  qed
qed

lemma handle_results_prefix:
  assumes "codec_laws C" "handle_results C accept block rk w = (e, w')"
  shows "wk_db w' = wk_db w \<and> (\<exists>cs rest. wk_pool w' = wk_pool w @ cs
     \<and> List.map_filter (result_call C block (wk_db w)) (chunks 32 (drop 4 rk)) = cs @ rest
     \<and> (e = Returned \<longleftrightarrow> 4 \<le> length rk \<and> rest = []))"
proof -
  consider "rk = init_mark" | "length rk < 4" | "rk \<noteq> init_mark" "4 \<le> length rk"
    by linarith
  then show ?thesis
  proof cases
    case 1
    with assms(2) show ?thesis
      by (simp add: handle_results_def ocw_do_handling_result_def map_filter_simps)
  next
    case 2
    then have "rk \<noteq> init_mark" by auto
    with 2 assms(2) show ?thesis
      by (auto simp: handle_results_def ocw_do_handling_result_def map_filter_simps)
  next
    case 3
    then have "submit_results C accept block (chunks 32 (drop 4 rk)) w = (e, w')"
      using assms(2) by (simp add: handle_results_def ocw_do_handling_result_def)
    from submit_results_prefix [OF assms(1) this] 3(2) show ?thesis by simp
  qed
qed



text \<open>
  C29: A finished job that comes before the pending ones in the iteration order starves
  them: the run submits no state change and hands nothing to the executor (the database is
  untouched), whatever the rest of the queue holds.
\<close>

theorem finished_job_starves_queue:
  assumes "find active jl = Some (h, j)" and "job_status j = Finish"
  shows "wk_db (snd (offchain_worker C accept block jl w)) = wk_db w
     \<and> (\<exists>cs. wk_pool (snd (offchain_worker C accept block jl w)) = wk_pool w @ cs
          \<and> (\<forall>c \<in> set cs. \<exists>k v p t. c = Submit_result_unsiged block k v p t))"
proof -
  consider "offchain_worker C accept block jl w = (Panicked, w)"
    | rk where "offchain_worker C accept block jl w = handle_results C accept block rk w"
    using offchain_worker_finish [OF assms, of C accept block w]
    by (auto split: option.splits)
  then show ?thesis
  proof cases
    case (2 rk)
    then show ?thesis
      using handle_results_calls [of C accept block rk w] by (metis prod.collapse)
  qed auto
qed

theorem finished_job_starves_queue_witness:
  "wk_db (snd (offchain_worker scale_codecs (\<lambda>_ _. True) 1
      ((8, sample_job Finish) # replicate 3 (9, sample_job Pending))
      (sample_worker init_mark init_mark))) = wk_db (sample_worker init_mark init_mark)"
  using finished_job_starves_queue [where h = 8 and j = "sample_job Finish"
      and jl = "(8, sample_job Finish) # replicate 3 (9, sample_job Pending)"]
  by (simp add: active_def)

text \<open>
  C30: When the pool refuses the state change, the worker still adds the job to the
  executor's key list but stores no request for it: it writes the default request under
  the empty key instead, and what the database holds under the job's key is unchanged.
\<close>

theorem refused_request_lists_job_without_payload:
  assumes "codec_laws C"
    and "find active jl = Some (h, j)" and "job_status j = Pending"
    and "\<not> accept (wk_pool w) (Change_job_state block h)"
    and "db_get (wk_db w) master_key = Some kl"
    and "db_get (wk_db w) master_result_key = Some init_mark"
  shows "\<exists>w'. offchain_worker C accept block jl w = (Returned, w')
     \<and> wk_pool w' = wk_pool w
     \<and> db_get (wk_db w') master_key = Some (kl @ enc_hash C h)
     \<and> db_get (wk_db w') (enc_hash C h) = db_get (wk_db w) (enc_hash C h)
     \<and> db_get (wk_db w') [] = Some (enc_request C default_request)"
proof -
  have "dec_request C (enc_request C default_request) = Some default_request"
    by (rule codec_lawsD(1) [OF assms(1)]) simp
  moreover have "[] \<noteq> master_key"
    by (metis db_keys(1) list.size(3) zero_neq_numeral)
  ultimately show ?thesis
    using offchain_worker_refused [where accept = accept and C = C, OF assms(2-6)]
      enc_hash_keys [OF assms(1), of h] assms(5)
    by (simp add: store_request_def odb.get_put odb.cas_get default_request_def)
qed

theorem refused_request_lists_job_without_payload_witness:
  "\<exists>w'. offchain_worker scale_codecs (\<lambda>_ _. False) 1 [(9, sample_job Pending)]
        (sample_worker init_mark init_mark) = (Returned, w')
     \<and> db_get (wk_db w') master_key = Some (init_mark @ enc_hash scale_codecs 9)
     \<and> db_get (wk_db w') [] = Some (enc_request scale_codecs default_request)"
  using refused_request_lists_job_without_payload [where accept = "\<lambda>_ _. False" and block = 1
      and h = 9 and j = "sample_job Pending" and kl = init_mark
      and jl = "[(9, sample_job Pending)]" and w = "sample_worker init_mark init_mark",
      OF scale_codec_laws]
  by auto


text \<open>One listed result, delivered by processor 7 for job 9.\<close>

definition sample_response :: response_payload where
  "sample_response = \<lparr>rs_job_id = enc_hash scale_codecs 9, rs_job_result = [1],
     rs_job_state = Finish, rs_address = 7, rs_exe_time = 12\<rparr>"

definition delivered_worker :: worker where
  "delivered_worker =
     (sample_worker init_mark (init_mark @ enc_hash scale_codecs 9))
       \<lparr>wk_db := db_set (enc_hash scale_codecs 9) (enc_response scale_codecs sample_response)
          (wk_db (sample_worker init_mark (init_mark @ enc_hash scale_codecs 9)))\<rparr>"

lemma sample_response_fits [simp]: "response_fits sample_response"
  using codec_lawsD(3) [OF scale_codec_laws]
  by (simp add: response_fits_def fits_def sample_response_def)

lemma delivered_worker_get [simp]:
  "db_get (wk_db delivered_worker) master_key = Some init_mark"
  "db_get (wk_db delivered_worker) master_result_key = Some (init_mark @ enc_hash scale_codecs 9)"
  "db_get (wk_db delivered_worker) (enc_hash scale_codecs 9)
     = Some (enc_response scale_codecs sample_response)"
  "wk_pool delivered_worker = []"
  using enc_hash_keys [OF scale_codec_laws, of 9]
  by (simp_all add: delivered_worker_def odb.get_put)

lemma chunks_one: "length xs = n \<Longrightarrow> 0 < n \<Longrightarrow> chunks n xs = [xs]"
  using chunks_append [of xs n "[]"] by simp


text \<open>
  A result the pool refuses stops the worker: the run panics at that result, so the
  results listed after it are not submitted in this run, nor in any later run in which the
  pool still refuses it.
\<close>

lemma refused_result_panics:
  assumes "codec_laws C"
    and "submit_results C accept block before w = (Returned, v)"
    and "result_call C block (wk_db w) k = Some call" and "\<not> accept (wk_pool v) call"
  shows "submit_results C accept block (before @ k # after) w = (Panicked, v)"
proof -
  have app: "submit_results C accept block (xs @ ys) u =
      (case submit_results C accept block xs u of
         (Returned, u') \<Rightarrow> submit_results C accept block ys u' | r \<Rightarrow> r)" for xs ys u
    by (induction xs arbitrary: u) (auto split: option.splits outcome.splits prod.splits worker_exit.splits)
  have "wk_db v = wk_db w"
    using submit_results_calls [OF assms(2)] by simp
  with assms(3) obtain raw res where "db_get (wk_db v) k = Some raw"
      "dec_response C raw = Some res"
      "call = Submit_result_unsiged block (rs_job_id res) (rs_job_result res) (rs_address res) (rs_exe_time res)"
    by (auto simp: result_call_def split: option.splits)
  then show ?thesis
    using assms(2,4) codec_lawsD(6) [OF assms(1)]
    by (simp add: app ocw_do_submit_result_def submit_and_report_def submit_unsigned_transaction_def)
qed
end
