(* ===== verification/Exec_Manager.thy ===== *)
theory Exec_Manager
  imports Payload_Model Offchain_Db
begin

text \<open>
  The node side of the job pipeline, \<open>node/src/scripts_exec_manager.rs\<close>: the start-up of
  the executor, the accesses to the off-chain database, the monitor that turns the key
  list into tasks, the task that runs one script, and the listener that stores results.
  The database keys are those under the prefix \<open>storage\<close>, which is also the prefix of
  the runtime's local storage, so both sides address the same map. The script runtime is
  an argument \<open>run\<close>; theory \<open>Script_Runtime\<close> models it.
\<close>

section \<open>Keys and errors\<close>

definition WASMSTORE_KEY_LIST :: bytes where
  "WASMSTORE_KEY_LIST = ascii ''wasmstore_jobs_executor''"

definition WASMSTORE_RESULT_LIST :: bytes where
  "WASMSTORE_RESULT_LIST = ascii ''wasmstore_jobs_result''"

definition ID_KEY :: bytes where
  "ID_KEY = ascii ''identity''"

definition list_init :: bytes where
  "list_init = ascii ''init''"

datatype storage_error =
  FailToWrite | ParsingError | NoPendingPayloadFound | WasmProcessingError | JobExist

record job_result =
  jr_job_id :: bytes
  jr_result :: bytes
  jr_ext_time :: u32

lemma manager_keys [simp]:
  "length WASMSTORE_KEY_LIST = 23" "length WASMSTORE_RESULT_LIST = 21"
  "length ID_KEY = 8" "length list_init = 4"
  by (simp_all add: WASMSTORE_KEY_LIST_def WASMSTORE_RESULT_LIST_def ID_KEY_def list_init_def
      ascii_def)

lemma manager_keys_distinct [simp]:
  "WASMSTORE_KEY_LIST \<noteq> WASMSTORE_RESULT_LIST" "WASMSTORE_RESULT_LIST \<noteq> WASMSTORE_KEY_LIST"
  "WASMSTORE_KEY_LIST \<noteq> ID_KEY" "WASMSTORE_RESULT_LIST \<noteq> ID_KEY"
  by (rule neq_by_length, rule manager_keys, rule manager_keys, simp)+

section \<open>Database access\<close>

definition read_from_offchain_db :: "offchain_db \<Rightarrow> bytes \<Rightarrow> bytes option" where
  "read_from_offchain_db db key = db_get db key"

text \<open>
  A write is two accesses: it reads the key, then compares and sets against what it read.
  \<open>write_after_read\<close> is the second access; another thread may run between the two.
\<close>

definition write_after_read ::
  "bytes option \<Rightarrow> bytes \<Rightarrow> bytes \<Rightarrow> offchain_db \<Rightarrow> (storage_error, unit) outcome \<times> offchain_db" where
  "write_after_read seen key new_value db =
     (case seen of
        Some val \<Rightarrow>
          (case db_compare_and_set key (Some val) new_value db of
             (True, db') \<Rightarrow> (Ok (), db')
           | (False, db') \<Rightarrow> (Err FailToWrite, db'))
      | None \<Rightarrow> (Ok (), db_set key new_value db))"

definition write_to_offchain_db ::
  "bytes \<Rightarrow> bytes \<Rightarrow> offchain_db \<Rightarrow> (storage_error, unit) outcome \<times> offchain_db" where
  "write_to_offchain_db key new_value db = write_after_read (db_get db key) key new_value db"

lemma write_uninterrupted [simp]:
  "write_to_offchain_db key v db = (Ok (), db_set key v db)"
  by (auto simp: write_to_offchain_db_def write_after_read_def odb.cas_success split: option.split)

lemma write_after_read_get:
  "db_get (snd (write_after_read seen key v db)) k =
     (if k = key \<and> (seen = None \<or> db_get db key = seen) then Some v else db_get db k)"
  by (auto simp: write_after_read_def odb.cas_eq odb.get_put split: option.splits)

section \<open>The key list\<close>

definition key_list_parser :: "bytes \<Rightarrow> (storage_error, bytes list) outcome" where
  "key_list_parser key_list_raw =
     (if length key_list_raw < 4 then Panic else Ok (chunks 32 (drop 4 key_list_raw)))"

text \<open>The value that lists the given keys: the mark followed by the keys.\<close>

definition key_list_of :: "bytes list \<Rightarrow> bytes" where
  "key_list_of ks = list_init @ concat ks"

definition hash_keys :: "bytes list \<Rightarrow> bool" where
  "hash_keys ks \<longleftrightarrow> (\<forall>k \<in> set ks. length k = 32)"

lemma hash_keys_simps [simp]:
  "hash_keys []" "hash_keys (k # ks) \<longleftrightarrow> length k = 32 \<and> hash_keys ks"
  "hash_keys (ks @ ks') \<longleftrightarrow> hash_keys ks \<and> hash_keys ks'"
  by (auto simp: hash_keys_def)

lemma key_list_of_Nil [simp]: "key_list_of [] = list_init"
  by (simp add: key_list_of_def)

lemma key_list_of_append: "key_list_of ks @ k = key_list_of (ks @ [k])"
  by (simp add: key_list_of_def)

lemma parse_key_list_of: "hash_keys ks \<Longrightarrow> key_list_parser (key_list_of ks) = Ok ks"
  by (simp add: key_list_parser_def key_list_of_def hash_keys_def chunks_concat)

lemma key_list_of_inject:
  assumes "hash_keys ks" "hash_keys ks'"
  shows "key_list_of ks = key_list_of ks' \<longleftrightarrow> ks = ks'"
proof
  assume "key_list_of ks = key_list_of ks'"
  then have "key_list_parser (key_list_of ks) = key_list_parser (key_list_of ks')"
    by simp
  then show "ks = ks'"
    using assms by (simp add: parse_key_list_of)
qed simp

text \<open>
  The key list is a faithful queue in bytes: appending a 32-byte job key to the value
  that lists \<open>ks\<close> (which is how the runtime's worker adds a job) and parsing it gives
  exactly \<open>ks\<close> and then that key; parsing never panics on such a value.
\<close>

lemma key_list_roundtrip:
  assumes "\<forall>k \<in> set ks. length k = 32" and "length key = 32"
  shows "key_list_parser (list_init @ concat ks @ key) = Ok (ks @ [key])"
  using parse_key_list_of [of "ks @ [key]"] assms by (simp add: key_list_of_def hash_keys_def)

section \<open>Start-up\<close>

definition get_processor_keypair :: "pubkey list \<Rightarrow> pubkey option" where
  "get_processor_keypair public_keys = (if 0 < length public_keys then Some (public_keys ! 0) else None)"

text \<open>
  \<open>run_executor\<close>: the database after initialisation and the key the listener signs its
  responses with (\<open>Public::default\<close> is the zero key). A node without off-chain storage
  panics. \<open>raw\<close> is the byte view of a public key.
\<close>

definition run_executor ::
  "(pubkey \<Rightarrow> bytes) \<Rightarrow> pubkey list \<Rightarrow> offchain_db option \<Rightarrow> (storage_error, offchain_db \<times> pubkey) outcome" where
  "run_executor raw public_keys storage =
     and_then (expect storage) (\<lambda>db0.
     let db1 = db_set WASMSTORE_KEY_LIST list_init db0;
         db2 = db_set WASMSTORE_RESULT_LIST list_init db1
     in case get_processor_keypair public_keys of
          None \<Rightarrow> Ok (db2, 0)
        | Some val \<Rightarrow> Ok (db_set ID_KEY (raw val) db2, val))"

section \<open>The monitor\<close>

text \<open>
  One round of \<open>OffChainMonitor\<close>: the list is parsed and cleared, then the payload of
  every listed key is read; each key becomes a task with what was read for it.
\<close>

definition monitor_round ::
  "offchain_db \<Rightarrow> (storage_error, (bytes \<times> bytes option) list \<times> offchain_db) outcome" where
  "monitor_round db =
     (case read_from_offchain_db db WASMSTORE_KEY_LIST of
        None \<Rightarrow> Ok ([], db)
      | Some key_lists \<Rightarrow>
          and_then (key_list_parser key_lists) (\<lambda>key_list.
            let db' = snd (write_to_offchain_db WASMSTORE_KEY_LIST list_init db)
            in Ok (map (\<lambda>i. (i, read_from_offchain_db db' i)) key_list, db')))"

section \<open>The task\<close>

text \<open>
  \<open>end.subsec_millis()\<close> of the elapsed time in nanoseconds: the milliseconds within the
  last started second.
\<close>

definition subsec_millis :: "nat \<Rightarrow> u32" where
  "subsec_millis ns = of_nat (ns mod 1000000000 div 1000000)"

definition process_wasm ::
  "(rust_string \<Rightarrow> bytes \<Rightarrow> (string, bytes) outcome) \<Rightarrow> nat \<Rightarrow> bytes \<Rightarrow> rust_string \<Rightarrow> bytes
     \<Rightarrow> (storage_error, job_result) outcome" where
  "process_wasm run elapsed wasm_code wasm_abi job_id =
     (case run wasm_abi wasm_code of
        Ok res \<Rightarrow> Ok \<lparr>jr_job_id = job_id, jr_result = res, jr_ext_time = subsec_millis elapsed\<rparr>
      | _ \<Rightarrow> Panic)"

text \<open>What a task sends to the listener, if anything; its panic ends only the task.\<close>

definition executor_task ::
  "payload_codecs \<Rightarrow> (rust_string \<Rightarrow> bytes \<Rightarrow> (string, bytes) outcome) \<Rightarrow> nat \<Rightarrow> bytes option
     \<Rightarrow> (storage_error, job_result option) outcome" where
  "executor_task C run elapsed encoded_payload =
     (case encoded_payload of
        None \<Rightarrow> Ok None
      | Some res \<Rightarrow>
          (case dec_request C res of
             None \<Rightarrow> Ok None
           | Some payload \<Rightarrow>
               and_then (expect (from_utf8 (rq_content_abi payload))) (\<lambda>abi.
               case process_wasm run elapsed (rq_job_content payload) abi (rq_job_id payload) of
                 Ok r \<Rightarrow> Ok (Some r)
               | Err e \<Rightarrow> Ok None
               | Panic \<Rightarrow> Panic)))"

section \<open>The listener\<close>

definition response_of :: "pubkey \<Rightarrow> job_result \<Rightarrow> response_payload" where
  "response_of processor_key r =
     \<lparr>rs_job_id = jr_job_id r, rs_job_result = jr_result r, rs_job_state = Finish,
      rs_address = processor_key, rs_exe_time = jr_ext_time r\<rparr>"

text \<open>One round of \<open>result_listener\<close> for a received result.\<close>

definition result_listener_round ::
  "payload_codecs \<Rightarrow> pubkey \<Rightarrow> job_result \<Rightarrow> offchain_db \<Rightarrow> offchain_db" where
  "result_listener_round C processor_key r db =
     (let db1 = snd (write_to_offchain_db (jr_job_id r)
                  (enc_response C (response_of processor_key r)) db)
      in case read_from_offchain_db db1 WASMSTORE_RESULT_LIST of
           Some v \<Rightarrow> snd (write_to_offchain_db WASMSTORE_RESULT_LIST (v @ jr_job_id r) db1)
         | None \<Rightarrow> db1)"

section \<open>Properties\<close>

lemma run_executor_lists:
  assumes "run_executor raw pks storage = Ok (db, pk)"
  shows "db_get db WASMSTORE_KEY_LIST = Some list_init"
    and "db_get db WASMSTORE_RESULT_LIST = Some list_init"
  using assms
  by (auto simp: run_executor_def Let_def outcome_simps odb.get_put split: option.splits)

lemma monitor_round_tasks:
  assumes "db_get db WASMSTORE_KEY_LIST = Some (key_list_of ks)" "hash_keys ks"
  shows "monitor_round db =
     Ok (map (\<lambda>k. (k, db_get db k)) ks, db_set WASMSTORE_KEY_LIST list_init db)"
proof -
  have "k \<noteq> WASMSTORE_KEY_LIST" if "k \<in> set ks" for k
    using assms(2) that manager_keys(1) by (force simp: hash_keys_def)
  then show ?thesis
    using assms
    by (simp add: monitor_round_def read_from_offchain_db_def parse_key_list_of odb.get_put)
qed

text \<open>
  One uninterrupted round of the monitor empties the key list and starts exactly one
  task per listed key, in list order, each with what the database holds under its key;
  nothing else in the database changes.
\<close>

lemma monitor_round_complete:
  assumes "db_get db WASMSTORE_KEY_LIST = Some (list_init @ concat ks)"
    and "\<forall>k \<in> set ks. length k = 32"
  shows "\<exists>db'. monitor_round db = Ok (map (\<lambda>k. (k, db_get db k)) ks, db')
     \<and> db_get db' WASMSTORE_KEY_LIST = Some list_init
     \<and> (\<forall>k. k \<noteq> WASMSTORE_KEY_LIST \<longrightarrow> db_get db' k = db_get db k)"
  using monitor_round_tasks [of db ks] assms
  by (simp add: key_list_of_def hash_keys_def odb.get_put)

text \<open>
  The executor's answer to a request: for a request that fits, whose interface
  description is UTF-8 and whose script runs to \<open>out\<close>, the task sends exactly one result,
  which names the requested job and carries \<open>out\<close>.
\<close>

lemma executor_task_answers:
  assumes "codec_laws C" and "request_fits p" and "valid_utf8 (rq_content_abi p)"
    and "run (rq_content_abi p) (rq_job_content p) = Ok out"
  shows "executor_task C run elapsed (Some (enc_request C p)) =
     Ok (Some \<lparr>jr_job_id = rq_job_id p, jr_result = out, jr_ext_time = subsec_millis elapsed\<rparr>)"
  using assms codec_lawsD(1) [OF assms(1,2)] by (simp add: executor_task_def process_wasm_def)

text \<open>
  The reported execution time drops whole seconds: it is always below 1000, and two
  runs of a script whose durations differ by full seconds are reported alike.
\<close>

lemma ext_time_drops_seconds:
  "unat (subsec_millis ns) < 1000 \<and> subsec_millis (ns + k * 1000000000) = subsec_millis ns"
proof -
  have "ns mod 1000000000 div 1000000 < 1000"
    by (simp add: div_less_iff_less_mult)
  then show ?thesis
    by (simp add: subsec_millis_def unat_of_nat)
qed

text \<open>
  Storing a result replaces the request: a round of the listener writes the encoded
  response under the job's own key, where the request payload was, and appends that key
  to the result list; other keys are unchanged.
\<close>

lemma result_replaces_request:
  assumes "jr_job_id r \<noteq> WASMSTORE_RESULT_LIST"
    and "db_get db WASMSTORE_RESULT_LIST = Some rl"
  shows "db_get (result_listener_round C pk r db) (jr_job_id r) = Some (enc_response C (response_of pk r))
     \<and> db_get (result_listener_round C pk r db) WASMSTORE_RESULT_LIST = Some (rl @ jr_job_id r)
     \<and> (\<forall>k. k \<noteq> jr_job_id r \<and> k \<noteq> WASMSTORE_RESULT_LIST \<longrightarrow>
          db_get (result_listener_round C pk r db) k = db_get db k)"
  using assms
  by (auto simp: result_listener_round_def read_from_offchain_db_def Let_def odb.get_put)

end
