(* ===== verification/Job_Handover.thy ===== *)
theory Job_Handover
  imports Wasmstore_Worker Exec_Manager
begin

text \<open>
  The hand-over of jobs between the runtime's worker and the node's monitor. Both run
  concurrently and share only the off-chain database, so the hand-over is a step relation
  whose atomic steps are the single database accesses of \<open>offchain_worker\<close>
  (\<open>pallets/wasmstore-pallet/src/lib.rs\<close>) and of \<open>OffChainMonitor\<close>
  (\<open>node/src/scripts_exec_manager.rs\<close>), in the order each side makes them.
\<close>

section \<open>The two sides agree on the keys\<close>

lemma shared_keys [simp]:
  "WASMSTORE_KEY_LIST = master_key" "WASMSTORE_RESULT_LIST = master_result_key"
  "list_init = init_mark"
  by (simp_all add: WASMSTORE_KEY_LIST_def WASMSTORE_RESULT_LIST_def list_init_def
      master_key_def master_result_key_def init_mark_def)

section \<open>State and steps\<close>

datatype worker_pc =
    W_read bytes
  | W_listed bytes bytes

datatype monitor_pc =
    M_idle
  | M_parsed "bytes list"
  | M_clearing "bytes list" "bytes option"
  | M_fetching "bytes list"

record handover =
  ho_db :: offchain_db
  ho_workers :: "worker_pc list"
  ho_monitor :: monitor_pc
  ho_tasks :: "(bytes \<times> bytes option) list"

text \<open>
  \<open>R k v\<close>: the worker may hand over a job with key \<open>k\<close> and encoded request \<open>v\<close>. When the
  pool refuses the state change the worker lists the key and writes under \<open>[]\<close> instead
  (theory \<open>Wasmstore_Worker\<close>). A run that has no job to hand over, because nothing is
  active or a finished job comes first, makes no further access (\<open>w_skip\<close>): the results it
  may submit are no part of the hand-over. Every block starts a run of its own, and the runs
  of several blocks may overlap: \<open>ho_workers\<close> are those under way, in any number and each at
  its own access.
\<close>

inductive handover_step :: "(bytes \<Rightarrow> bytes \<Rightarrow> bool) \<Rightarrow> handover \<Rightarrow> handover \<Rightarrow> bool" where
  w_read: "db_get (ho_db s) master_key = Some jv \<Longrightarrow>
     handover_step R s (s\<lparr>ho_workers := ho_workers s @ [W_read jv]\<rparr>)"
| w_list: "ho_workers s = us @ W_read jv # vs \<Longrightarrow> R k v \<Longrightarrow> length k = 32 \<Longrightarrow>
     handover_step R s (s\<lparr>ho_workers := us @ W_listed k v # vs,
       ho_db := snd (db_compare_and_set master_key (Some jv) (jv @ k) (ho_db s))\<rparr>)"
| w_list_refused: "ho_workers s = us @ W_read jv # vs \<Longrightarrow> length k = 32 \<Longrightarrow>
     handover_step R s (s\<lparr>ho_workers := us @ W_listed [] v # vs,
       ho_db := snd (db_compare_and_set master_key (Some jv) (jv @ k) (ho_db s))\<rparr>)"
| w_skip: "ho_workers s = us @ W_read jv # vs \<Longrightarrow> handover_step R s (s\<lparr>ho_workers := us @ vs\<rparr>)"
| w_store: "ho_workers s = us @ W_listed k v # vs \<Longrightarrow>
     handover_step R s (s\<lparr>ho_workers := us @ vs, ho_db := db_set k v (ho_db s)\<rparr>)"
| m_parse: "ho_monitor s = M_idle \<Longrightarrow> read_from_offchain_db (ho_db s) WASMSTORE_KEY_LIST = Some kl \<Longrightarrow>
     key_list_parser kl = Ok ks \<Longrightarrow>
     handover_step R s (s\<lparr>ho_monitor := M_parsed ks\<rparr>)"
| m_look: "ho_monitor s = M_parsed ks \<Longrightarrow>
     handover_step R s (s\<lparr>ho_monitor := M_clearing ks (db_get (ho_db s) WASMSTORE_KEY_LIST)\<rparr>)"
| m_clear: "ho_monitor s = M_clearing ks seen \<Longrightarrow>
     handover_step R s (s\<lparr>ho_monitor := M_fetching ks,
       ho_db := snd (write_after_read seen WASMSTORE_KEY_LIST list_init (ho_db s))\<rparr>)"
| m_fetch: "ho_monitor s = M_fetching (k # ks) \<Longrightarrow>
     handover_step R s (s\<lparr>ho_monitor := M_fetching ks,
       ho_tasks := ho_tasks s @ [(k, read_from_offchain_db (ho_db s) k)]\<rparr>)"
| m_sleep: "ho_monitor s = M_fetching [] \<Longrightarrow> handover_step R s (s\<lparr>ho_monitor := M_idle\<rparr>)"

definition handover_start :: handover where
  "handover_start =
     \<lparr>ho_db = [master_key \<mapsto> init_mark, master_result_key \<mapsto> init_mark],
      ho_workers = [], ho_monitor = M_idle, ho_tasks = []\<rparr>"

inductive handover_reach :: "(bytes \<Rightarrow> bytes \<Rightarrow> bool) \<Rightarrow> handover \<Rightarrow> bool" for R where
  start: "handover_reach R handover_start"
| step: "handover_reach R s \<Longrightarrow> handover_step R s t \<Longrightarrow> handover_reach R t"

inductive_cases handover_stepE: "handover_step R s t"

text \<open>The start state is what \<open>run_executor\<close> leaves on a node with a fresh database.\<close>

lemma handover_start_run_executor:
  "run_executor raw [] (Some Map.empty) = Ok (ho_db handover_start, 0)"
  by (auto simp: run_executor_def handover_start_def get_processor_keypair_def db_set_def)

section \<open>The key list stays well formed\<close>

definition listed :: "bytes \<Rightarrow> bool" where
  "listed v \<longleftrightarrow> (\<exists>ks. hash_keys ks \<and> v = key_list_of ks)"

lemma listed_init [simp]: "listed init_mark"
  unfolding listed_def by (rule exI [of _ "[]"]) simp

lemma listed_append: "listed v \<Longrightarrow> length k = 32 \<Longrightarrow> listed (v @ k)"
  unfolding listed_def
  by (elim exE conjE, rule_tac x = "ks @ [k]" in exI) (simp add: key_list_of_def)

lemma listed_parse: "listed v \<Longrightarrow> key_list_parser v = Ok ks \<Longrightarrow> hash_keys ks"
  by (auto simp: listed_def parse_key_list_of)

definition handover_inv :: "(bytes \<Rightarrow> bytes \<Rightarrow> bool) \<Rightarrow> handover \<Rightarrow> bool" where
  "handover_inv R s \<longleftrightarrow>
     (\<exists>v. db_get (ho_db s) master_key = Some v \<and> listed v) \<and>
     (\<forall>k v. length k = 32 \<longrightarrow> db_get (ho_db s) k = Some v \<longrightarrow> R k v) \<and>
     (\<forall>w \<in> set (ho_workers s). case w of W_read jv \<Rightarrow> listed jv
      | W_listed k v \<Rightarrow> k = [] \<or> length k = 32 \<and> R k v) \<and>
     (case ho_monitor s of
        M_idle \<Rightarrow> True | M_parsed ks \<Rightarrow> hash_keys ks
      | M_clearing ks seen \<Rightarrow> hash_keys ks | M_fetching ks \<Rightarrow> hash_keys ks) \<and>
     (\<forall>(k, p) \<in> set (ho_tasks s). length k = 32 \<and> (\<forall>v. p = Some v \<longrightarrow> R k v))"

lemma start_inv: "handover_inv R handover_start"
proof -
  have "k \<noteq> master_key \<and> k \<noteq> master_result_key" if "length k = 32" for k :: bytes
    using neq_by_length [OF that db_keys(1)] neq_by_length [OF that db_keys(2)] by simp
  then show ?thesis
    by (auto simp: handover_inv_def handover_start_def db_get_def)
qed

lemma key_neq [simp]:
  "length k = 32 \<Longrightarrow> k \<noteq> master_key" "length k = 32 \<Longrightarrow> master_key \<noteq> k" "[] \<noteq> master_key" "master_key \<noteq> []"
  by (rule neq_by_length, assumption, rule db_keys, simp,
      rule neq_by_length, rule db_keys, assumption, simp,
      metis db_keys(1) list.size(3) zero_neq_numeral,
      metis db_keys(1) list.size(3) zero_neq_numeral)

lemma handover_step_inv:
  assumes "handover_step R s t" "handover_inv R s"
  shows "handover_inv R t"
  using assms
proof (cases rule: handover_step.cases)
  case (w_list us jv vs k v)
  with assms(2) show ?thesis
    by (auto simp: handover_inv_def odb.cas_get listed_append)
next
  case (w_list_refused us jv vs k v)
  with assms(2) show ?thesis
    by (auto simp: handover_inv_def odb.cas_get listed_append)
next
  case (w_store us k v vs)
  with assms(2) show ?thesis
    by (auto simp: handover_inv_def odb.get_put)
next
  case (m_parse kl ks)
  with assms(2) show ?thesis
    by (auto simp: handover_inv_def read_from_offchain_db_def intro: listed_parse)
next
  case (m_clear ks seen)
  with assms(2) show ?thesis
    by (auto simp: handover_inv_def write_after_read_get)
next
  case (m_fetch k ks)
  with assms(2) show ?thesis
    by (auto simp: handover_inv_def read_from_offchain_db_def)
qed (auto simp: handover_inv_def)

lemma reach_inv: "handover_reach R s \<Longrightarrow> handover_inv R s"
  by (induction rule: handover_reach.induct) (auto intro: start_inv handover_step_inv)

text \<open>
  C8: However the runs of the worker, any number of which may overlap, and the monitor
  interleave, the key list in the database is the mark followed by 32-byte keys, so the
  monitor parses it without a panic into exactly those keys, and every task it has started
  is for a whole job key with the request that a worker stored for that very job, or with
  none.
\<close>

theorem handover_safe:
  assumes "handover_reach R s"
  shows "\<exists>ks. db_get (ho_db s) WASMSTORE_KEY_LIST = Some (list_init @ concat ks)
     \<and> key_list_parser (list_init @ concat ks) = Ok ks
     \<and> (\<forall>k \<in> set ks. length k = 32)
     \<and> (\<forall>(k, p) \<in> set (ho_tasks s). length k = 32 \<and> (\<forall>v. p = Some v \<longrightarrow> R k v))"
proof -
  from reach_inv [OF assms] obtain ks where ks: "hash_keys ks"
      "db_get (ho_db s) master_key = Some (key_list_of ks)"
    and tasks: "\<forall>(k, p) \<in> set (ho_tasks s). length k = 32 \<and> (\<forall>v. p = Some v \<longrightarrow> R k v)"
    by (auto simp: handover_inv_def listed_def)
  from ks(1) have "key_list_parser (key_list_of ks) = Ok ks"
    by (rule parse_key_list_of)
  with ks tasks show ?thesis
    by (intro exI [of _ ks]) (simp add: key_list_of_def hash_keys_def)
qed

section \<open>What the interleaving can lose or repeat\<close>

lemmas handover_intros = handover_step.intros

lemma reach_via:
  "handover_reach R s \<Longrightarrow> handover_step R s t \<Longrightarrow> t = u \<Longrightarrow> handover_reach R u"
  by (auto intro: handover_reach.step)

text \<open>The database after start-up with another value in the key list.\<close>

definition db_listing :: "bytes list \<Rightarrow> offchain_db" where
  "db_listing ks = [master_key \<mapsto> key_list_of ks, master_result_key \<mapsto> init_mark]"

lemma db_listing_get [simp]: "db_get (db_listing ks) master_key = Some (key_list_of ks)"
  by (simp add: db_listing_def db_get_def)

lemma db_listing_set:
  "v = key_list_of ks' \<Longrightarrow> db_set master_key v (db_listing ks) = db_listing ks'"
  by (auto simp: db_listing_def db_set_def)

lemma db_listing_clear [simp]: "db_set master_key init_mark (db_listing ks) = db_listing []"
  by (rule db_listing_set) simp

lemma db_listing_cas:
  "snd (db_compare_and_set master_key (Some v) w (db_listing ks)) =
     (if v = key_list_of ks then db_set master_key w (db_listing ks) else db_listing ks)"
  by (auto simp: odb.cas_eq)

lemma db_listing_key [simp]: "length k = 32 \<Longrightarrow> db_get (db_listing ks) k = None"
proof -
  assume k: "length k = 32"
  have "k \<noteq> master_key" "k \<noteq> master_result_key"
    by (rule neq_by_length [OF k db_keys(1)], simp, rule neq_by_length [OF k db_keys(2)], simp)
  then show "db_get (db_listing ks) k = None"
    by (simp add: db_listing_def db_get_def)
qed

lemma start_listing: "handover_start =
    \<lparr>ho_db = db_listing [], ho_workers = [], ho_monitor = M_idle, ho_tasks = []\<rparr>"
  by (simp add: handover_start_def db_listing_def)

lemma key_list_one: "init_mark @ k = key_list_of [k]"
  by (simp add: key_list_of_def)

text \<open>The worker has listed the job and has not stored its request yet.\<close>

lemma reach_listed:
  assumes "length k = 32" "R k v"
  shows "handover_reach R
     \<lparr>ho_db = db_listing [k], ho_workers = [W_listed k v], ho_monitor = M_idle, ho_tasks = []\<rparr>"
proof -
  have r1: "handover_reach R
      \<lparr>ho_db = db_listing [], ho_workers = [W_read init_mark], ho_monitor = M_idle, ho_tasks = []\<rparr>"
    by (rule reach_via [OF handover_reach.start w_read [where jv = init_mark]])
      (simp_all add: start_listing)
  show ?thesis
    by (rule reach_via [OF r1 w_list [where us = "[]" and vs = "[]" and jv = init_mark and k = k and v = v]])
      (simp_all add: assms db_listing_cas db_listing_set key_list_one)
qed

text \<open>One round of the monitor that no step of the worker interrupts.\<close>

lemma reach_round:
  assumes "handover_reach R s" "ho_monitor s = M_idle"
    and "db_get (ho_db s) master_key = Some (key_list_of ks)" "hash_keys ks"
  shows "handover_reach R (s\<lparr>ho_db := db_set master_key init_mark (ho_db s),
     ho_tasks := ho_tasks s @ map (\<lambda>k. (k, db_get (ho_db s) k)) ks\<rparr>)"
proof -
  let ?db = "db_set master_key init_mark (ho_db s)"
  have r1: "handover_reach R (s\<lparr>ho_monitor := M_parsed ks\<rparr>)"
    by (rule reach_via [OF assms(1) m_parse [where kl = "key_list_of ks"]])
      (use assms in \<open>simp_all add: read_from_offchain_db_def parse_key_list_of\<close>)
  have r2: "handover_reach R (s\<lparr>ho_monitor := M_clearing ks (Some (key_list_of ks))\<rparr>)"
    by (rule reach_via [OF r1 m_look]) (simp_all add: assms)
  have r3: "handover_reach R (s\<lparr>ho_monitor := M_fetching ks, ho_db := ?db\<rparr>)"
    by (rule reach_via [OF r2 m_clear [where ks = ks and seen = "Some (key_list_of ks)"]]) (simp_all add: assms write_after_read_def odb.cas_eq)
  have r4: "handover_reach R (s\<lparr>ho_monitor := M_fetching qs, ho_db := ?db,
      ho_tasks := ho_tasks s @ map (\<lambda>k. (k, db_get (ho_db s) k)) ps\<rparr>)"
    if "ks = ps @ qs" for ps qs
    using that
  proof (induction ps arbitrary: qs rule: rev_induct)
    case (snoc p ps)
    then have p: "length p = 32" using assms(4) by simp
    have r: "handover_reach R (s\<lparr>ho_monitor := M_fetching (p # qs), ho_db := ?db,
        ho_tasks := ho_tasks s @ map (\<lambda>k. (k, db_get (ho_db s) k)) ps\<rparr>)"
      using snoc by simp
    show ?case
      by (rule reach_via [OF r m_fetch [where k = p and ks = qs]])
        (use p in \<open>cases s; simp add: read_from_offchain_db_def odb.get_put\<close>)+
  qed (use r3 in simp)
  from r4 [of ks "[]"] have "handover_reach R (s\<lparr>ho_monitor := M_fetching [], ho_db := ?db,
      ho_tasks := ho_tasks s @ map (\<lambda>k. (k, db_get (ho_db s) k)) ks\<rparr>)" by simp
  then show ?thesis
    by (rule reach_via [OF _ m_sleep]) (use assms(2) in \<open>simp_all\<close>)
qed

text \<open>
  C20: A job can be lost because its key is listed before its request is stored: for any job
  there is an interleaving after which both sides are idle, the key list is empty and the
  request is in the database, while the only task that was started for the job found no
  request; the listed key is gone, so no later round starts another.
\<close>

theorem handover_can_lose_job:
  assumes "length k = 32" and "R k v"
  shows "\<exists>s. handover_reach R s \<and> ho_workers s = [] \<and> ho_monitor s = M_idle
     \<and> db_get (ho_db s) WASMSTORE_KEY_LIST = Some list_init
     \<and> db_get (ho_db s) k = Some v \<and> ho_tasks s = [(k, None)]"
proof -
  have r1: "handover_reach R \<lparr>ho_db = db_listing [], ho_workers = [W_listed k v],
      ho_monitor = M_idle, ho_tasks = [(k, None)]\<rparr>"
    using reach_round [OF reach_listed [where R = R, OF assms], of "[k]"] assms(1)
    by (simp add: db_listing_set)
  have "handover_reach R \<lparr>ho_db = db_set k v (db_listing []), ho_workers = [],
      ho_monitor = M_idle, ho_tasks = [(k, None)]\<rparr>"
    by (rule reach_via [OF r1 w_store [where us = "[]" and vs = "[]"]]) simp_all
  then show ?thesis
    using assms(1) by (intro exI conjI) (assumption, simp_all add: odb.get_put)
qed

theorem handover_can_lose_job_witness:
  "\<exists>s. handover_reach (\<lambda>k v. k = h256_bytes 9 \<and> v = [1]) s
     \<and> db_get (ho_db s) (h256_bytes 9) = Some [1] \<and> ho_tasks s = [(h256_bytes 9, None)]"
  using handover_can_lose_job [where R = "\<lambda>k v. k = h256_bytes 9 \<and> v = [1]" and k = "h256_bytes 9"
      and v = "[1]"] by auto

text \<open>
  C21: A job can be lost because the monitor's clearing write reads the list again: a key
  that the worker adds after the monitor has parsed the list and before that read is wiped
  without a task, with both sides idle again and the request still stored.
\<close>

theorem clearing_can_wipe_job:
  assumes "length k = 32" and "R k v"
  shows "\<exists>s. handover_reach R s \<and> ho_workers s = [] \<and> ho_monitor s = M_idle
     \<and> db_get (ho_db s) WASMSTORE_KEY_LIST = Some list_init
     \<and> db_get (ho_db s) k = Some v \<and> ho_tasks s = []"
proof -
  have r1: "handover_reach R \<lparr>ho_db = db_listing [], ho_workers = [],
      ho_monitor = M_parsed [], ho_tasks = []\<rparr>"
    by (rule reach_via [OF handover_reach.start m_parse [where kl = init_mark and ks = "[]"]])
      (simp_all add: start_listing read_from_offchain_db_def key_list_parser_def)
  have r2: "handover_reach R \<lparr>ho_db = db_listing [], ho_workers = [W_read init_mark],
      ho_monitor = M_parsed [], ho_tasks = []\<rparr>"
    by (rule reach_via [OF r1 w_read]) simp_all
  have r3: "handover_reach R \<lparr>ho_db = db_listing [k], ho_workers = [W_listed k v],
      ho_monitor = M_parsed [], ho_tasks = []\<rparr>"
    by (rule reach_via [OF r2 w_list [where us = "[]" and vs = "[]" and jv = init_mark and k = k and v = v]])
      (simp_all add: assms db_listing_cas db_listing_set key_list_one)
  have r4: "handover_reach R \<lparr>ho_db = db_listing [k], ho_workers = [W_listed k v],
      ho_monitor = M_clearing [] (Some (key_list_of [k])), ho_tasks = []\<rparr>"
    by (rule reach_via [OF r3 m_look]) simp_all
  have r5: "handover_reach R \<lparr>ho_db = db_listing [], ho_workers = [W_listed k v],
      ho_monitor = M_fetching [], ho_tasks = []\<rparr>"
    by (rule reach_via [OF r4 m_clear [where ks = "[]" and seen = "Some (key_list_of [k])"]])
      (simp_all add: write_after_read_def odb.cas_eq db_listing_set)
  have r6: "handover_reach R \<lparr>ho_db = db_listing [], ho_workers = [W_listed k v],
      ho_monitor = M_idle, ho_tasks = []\<rparr>"
    by (rule reach_via [OF r5 m_sleep]) simp_all
  have "handover_reach R \<lparr>ho_db = db_set k v (db_listing []), ho_workers = [],
      ho_monitor = M_idle, ho_tasks = []\<rparr>"
    by (rule reach_via [OF r6 w_store [where us = "[]" and vs = "[]"]]) simp_all
  then show ?thesis
    using assms(1) by (intro exI conjI) (assumption, simp_all add: odb.get_put)
qed

theorem clearing_can_wipe_job_witness:
  "\<exists>s. handover_reach (\<lambda>k v. k = h256_bytes 9 \<and> v = [1]) s
     \<and> db_get (ho_db s) (h256_bytes 9) = Some [1] \<and> ho_tasks s = []"
  using clearing_can_wipe_job [where R = "\<lambda>k v. k = h256_bytes 9 \<and> v = [1]" and k = "h256_bytes 9"
      and v = "[1]"] by auto

text \<open>The worker hands one job over while the monitor sleeps.\<close>

lemma reach_stored:
  assumes "length k = 32" "R k v"
  shows "handover_reach R
     \<lparr>ho_db = db_set k v (db_listing [k]), ho_workers = [], ho_monitor = M_idle, ho_tasks = []\<rparr>"
  by (rule reach_via [OF reach_listed [where R = R, OF assms] w_store [where us = "[]" and vs = "[]" and k = k and v = v]]) simp_all

text \<open>
  C22: A job can run twice because the monitor ignores that its clearing write failed: when
  the worker lists a second job between the two accesses of that write, the list keeps the
  first key, and the next round starts the first job again beside the second.
\<close>

theorem failed_clearing_repeats_job:
  assumes "length k = 32" "R k v" and "length k' = 32" "R k' v'" and "k \<noteq> k'"
  shows "\<exists>s. handover_reach R s \<and> ho_tasks s = [(k, Some v), (k, Some v), (k', Some v')]"
proof -
  let ?db = "db_set k v (db_listing [k])"
  let ?db2 = "db_set master_key (key_list_of [k] @ k') ?db"
  let ?two = "key_list_of [k] @ k'"
  have two: "?two \<noteq> key_list_of [k]" "?two = key_list_of [k, k']"
    using assms(3) by (auto simp: key_list_of_def)
  have r1: "handover_reach R \<lparr>ho_db = ?db, ho_workers = [], ho_monitor = M_parsed [k], ho_tasks = []\<rparr>"
    by (rule reach_via [OF reach_stored [where R = R, OF assms(1,2)]
          m_parse [where kl = "key_list_of [k]" and ks = "[k]"]])
      (use assms(1) in \<open>simp_all add: read_from_offchain_db_def odb.get_put parse_key_list_of\<close>)
  have r2: "handover_reach R \<lparr>ho_db = ?db, ho_workers = [],
      ho_monitor = M_clearing [k] (Some (key_list_of [k])), ho_tasks = []\<rparr>"
    by (rule reach_via [OF r1 m_look [where ks = "[k]"]])
      (use assms(1) in \<open>simp_all add: odb.get_put\<close>)
  have r3: "handover_reach R \<lparr>ho_db = ?db, ho_workers = [W_read (key_list_of [k])],
      ho_monitor = M_clearing [k] (Some (key_list_of [k])), ho_tasks = []\<rparr>"
    by (rule reach_via [OF r2 w_read [where jv = "key_list_of [k]"]])
      (use assms(1) in \<open>simp_all add: odb.get_put\<close>)
  have r4: "handover_reach R \<lparr>ho_db = ?db2, ho_workers = [W_listed k' v'],
      ho_monitor = M_clearing [k] (Some (key_list_of [k])), ho_tasks = []\<rparr>"
    by (rule reach_via [OF r3 w_list [where us = "[]" and vs = "[]" and jv = "key_list_of [k]" and k = k' and v = v']])
      (use assms in \<open>simp_all add: odb.cas_eq odb.get_put\<close>)
  have r5: "handover_reach R \<lparr>ho_db = ?db2, ho_workers = [W_listed k' v'],
      ho_monitor = M_fetching [k], ho_tasks = []\<rparr>"
    by (rule reach_via [OF r4 m_clear [where ks = "[k]" and seen = "Some (key_list_of [k])"]])
      (use two in \<open>simp_all add: write_after_read_def odb.cas_eq odb.get_put\<close>)
  have r6: "handover_reach R \<lparr>ho_db = ?db2, ho_workers = [W_listed k' v'],
      ho_monitor = M_fetching [], ho_tasks = [(k, Some v)]\<rparr>"
    by (rule reach_via [OF r5 m_fetch [where k = k and ks = "[]"]])
      (use assms(1) in \<open>simp_all add: read_from_offchain_db_def odb.get_put\<close>)
  have r7: "handover_reach R \<lparr>ho_db = ?db2, ho_workers = [W_listed k' v'],
      ho_monitor = M_idle, ho_tasks = [(k, Some v)]\<rparr>"
    by (rule reach_via [OF r6 m_sleep]) simp_all
  have r8: "handover_reach R \<lparr>ho_db = db_set k' v' ?db2, ho_workers = [],
      ho_monitor = M_idle, ho_tasks = [(k, Some v)]\<rparr>"
    by (rule reach_via [OF r7 w_store [where us = "[]" and vs = "[]" and k = k' and v = v']]) simp_all
  show ?thesis
    using reach_round [OF r8, of "[k, k']"] assms two(2)
    by (auto simp: odb.get_put)
qed

theorem failed_clearing_repeats_job_witness:
  "\<exists>s. handover_reach (\<lambda>k v. v = [1]) s \<and>
     ho_tasks s = [(h256_bytes 8, Some [1]), (h256_bytes 8, Some [1]), (h256_bytes 9, Some [1])]"
  by (rule failed_clearing_repeats_job) simp_all

text \<open>
  Two runs of the worker that overlap lose a job as well: both read the same list, the
  second compare-and-set fails, and its result is ignored. The second request is stored
  under a key that is on no list.
\<close>

lemma overlapping_workers_lose_key:
  assumes "length k = 32" "R k v" and "length k' = 32" "R k' v'" and "k \<noteq> k'"
  shows "\<exists>s. handover_reach R s \<and> ho_workers s = [] \<and> ho_monitor s = M_idle \<and> ho_tasks s = []
     \<and> db_get (ho_db s) WASMSTORE_KEY_LIST = Some (key_list_of [k]) \<and> db_get (ho_db s) k' = Some v'"
proof -
  let ?at = "\<lambda>db ws. \<lparr>ho_db = db, ho_workers = ws, ho_monitor = M_idle, ho_tasks = []\<rparr>"
  have k: "k \<noteq> []" using assms(1) by auto
  have r1: "handover_reach R (?at (db_listing []) [W_read init_mark])"
    by (rule reach_via [OF handover_reach.start w_read [where jv = init_mark]]) (simp_all add: start_listing)
  have r2: "handover_reach R (?at (db_listing []) [W_read init_mark, W_read init_mark])"
    by (rule reach_via [OF r1 w_read [where jv = init_mark]]) simp_all
  have r3: "handover_reach R (?at (db_listing [k]) [W_listed k v, W_read init_mark])"
    by (rule reach_via [OF r2 w_list [where us = "[]" and vs = "[W_read init_mark]" and jv = init_mark
            and k = k and v = v]])
      (simp_all add: assms db_listing_cas db_listing_set key_list_one)
  have r4: "handover_reach R (?at (db_listing [k]) [W_listed k v, W_listed k' v'])"
    by (rule reach_via [OF r3 w_list [where us = "[W_listed k v]" and vs = "[]" and jv = init_mark
            and k = k' and v = v']])
      (simp_all add: assms k db_listing_cas key_list_of_def)
  have r5: "handover_reach R (?at (db_set k v (db_listing [k])) [W_listed k' v'])"
    by (rule reach_via [OF r4 w_store [where us = "[]" and vs = "[W_listed k' v']"]]) simp_all
  have "handover_reach R (?at (db_set k' v' (db_set k v (db_listing [k]))) [])"
    by (rule reach_via [OF r5 w_store [where us = "[]" and vs = "[]"]]) simp_all
  then show ?thesis
    using assms(1,3) by (intro exI conjI) (assumption, simp_all add: odb.get_put)
qed

theorem handover_safe_witness:
  "\<exists>ks. db_get (db_set (h256_bytes 9) [1] (db_listing [h256_bytes 9])) WASMSTORE_KEY_LIST
       = Some (list_init @ concat ks)
     \<and> key_list_parser (list_init @ concat ks) = Ok ks"
  using handover_safe [OF reach_stored [where R = "\<lambda>k v. v = [1]" and k = "h256_bytes 9" and v = "[1]"]]
  by auto

end
