(* ===== verification/Text_Encoding.thy ===== *)
theory Text_Encoding
  imports Byte_Views
begin

text \<open>
  \<open>char\<close>, \<open>String\<close> and \<open>String::from_utf16\<close> of the standard library: Unicode scalar
  values, their UTF-8 form (what a Rust \<open>String\<close> holds) and the decoding of UTF-16 units,
  with the facts that every decoded string is valid UTF-8 and that decoding inverts the
  standard encoding; and the \<open>Debug\<close> forms of integers and byte slices.
\<close>

section \<open>Scalar values and UTF-8\<close>

definition scalar :: "nat \<Rightarrow> bool" where
  "scalar n \<longleftrightarrow> n < 0xD800 \<or> 0xDFFF < n \<and> n < 0x110000"

definition byte_of :: "nat \<Rightarrow> byte" where
  "byte_of n = of_nat n"

definition utf8_char :: "nat \<Rightarrow> bytes" where
  "utf8_char n =
     (if n < 0x80 then [byte_of n]
      else if n < 0x800 then [byte_of (0xC0 + n div 64), byte_of (0x80 + n mod 64)]
      else if n < 0x10000 then
        [byte_of (0xE0 + n div 4096), byte_of (0x80 + n div 64 mod 64), byte_of (0x80 + n mod 64)]
      else
        [byte_of (0xF0 + n div 262144), byte_of (0x80 + n div 4096 mod 64),
         byte_of (0x80 + n div 64 mod 64), byte_of (0x80 + n mod 64)])"

definition utf8_string :: "nat list \<Rightarrow> rust_string" where
  "utf8_string cs = concat (map utf8_char cs)"

lemma unat_byte_of [simp]: "n < 256 \<Longrightarrow> unat (byte_of n) = n"
  by (simp add: byte_of_def unat_of_nat_small)

lemma byte_of_less: "n < 256 \<Longrightarrow> byte_of n < w \<longleftrightarrow> n < unat w"
  by (simp add: word_less_nat_alt)

lemma byte_of_le: "n < 256 \<Longrightarrow> byte_of n \<le> w \<longleftrightarrow> n \<le> unat w"
  by (simp add: word_le_nat_alt)

lemma le_byte_of: "n < 256 \<Longrightarrow> w \<le> byte_of n \<longleftrightarrow> unat w \<le> n"
  by (simp add: word_le_nat_alt)

lemma byte_of_eq: "n < 256 \<Longrightarrow> byte_of n = w \<longleftrightarrow> n = unat w"
  by (auto simp: byte_of_def unat_of_nat_small)

lemmas byte_of_simps = byte_of_less byte_of_le le_byte_of byte_of_eq

lemma utf8_two:
  "2 \<le> a \<Longrightarrow> a < 32 \<Longrightarrow> b < 64 \<Longrightarrow>
     valid_utf8 (byte_of (0xC0 + a) # byte_of (0x80 + b) # r) = valid_utf8 r"
  by (simp add: byte_of_simps)

lemma utf8_three:
  assumes "a < 16" "b < 64" "c < 64" "a = 0 \<longrightarrow> 32 \<le> b" "a = 13 \<longrightarrow> b < 32"
  shows "valid_utf8 (byte_of (0xE0 + a) # byte_of (0x80 + b) # byte_of (0x80 + c) # r) = valid_utf8 r"
  using assms by (auto simp: byte_of_simps)

lemma utf8_four:
  assumes "a < 5" "b < 64" "c < 64" "d < 64" "a = 0 \<longrightarrow> 16 \<le> b" "a = 4 \<longrightarrow> b < 16"
  shows "valid_utf8 (byte_of (0xF0 + a) # byte_of (0x80 + b) # byte_of (0x80 + c)
           # byte_of (0x80 + d) # r) = valid_utf8 r"
  using assms by (auto simp: byte_of_simps)

lemma valid_utf8_char:
  assumes "scalar n"
  shows "valid_utf8 (utf8_char n @ r) = valid_utf8 r"
proof -
  consider "n < 0x80" | "0x80 \<le> n" "n < 0x800" | "0x800 \<le> n" "n < 0x10000"
    | "0x10000 \<le> n" "n < 0x110000"
    using assms by (fastforce simp: scalar_def)
  then show ?thesis
  proof cases
    case 1
    then show ?thesis by (simp add: utf8_char_def byte_of_less)
  next
    case 2
    then show ?thesis
      using utf8_two [of "n div 64" "n mod 64" r] by (simp add: utf8_char_def)
  next
    case 3
    define q where "q = n div 64"
    have q: "n div 4096 = q div 64" "q = 64 * (q div 64) + q mod 64"
      by (simp add: q_def flip: div_mult2_eq) (rule mult_div_mod_eq [symmetric])
    have "32 \<le> q" "q < 864 \<or> 896 \<le> q"
      using 3 assms by (auto simp: q_def scalar_def)
    with q have "n div 4096 = 0 \<longrightarrow> 32 \<le> n div 64 mod 64" "n div 4096 = 13 \<longrightarrow> n div 64 mod 64 < 32"
      unfolding q_def [symmetric] by linarith+
    then show ?thesis
      using 3 utf8_three [of "n div 4096" "n div 64 mod 64" "n mod 64" r]
      by (simp add: utf8_char_def)
  next
    case 4
    define q where "q = n div 4096"
    have q: "n div 262144 = q div 64" "q = 64 * (q div 64) + q mod 64"
      by (simp add: q_def flip: div_mult2_eq) (rule mult_div_mod_eq [symmetric])
    have "16 \<le> q" "q < 272"
      using 4 by (auto simp: q_def)
    with q have "n div 262144 = 0 \<longrightarrow> 16 \<le> n div 4096 mod 64" "n div 262144 = 4 \<longrightarrow> n div 4096 mod 64 < 16"
      unfolding q_def [symmetric] by linarith+
    then show ?thesis
      using 4 utf8_four [of "n div 262144" "n div 4096 mod 64" "n div 64 mod 64" "n mod 64" r]
      by (simp add: utf8_char_def)
  qed
qed

lemma valid_utf8_string: "\<forall>c \<in> set cs. scalar c \<Longrightarrow> valid_utf8 (utf8_string cs)"
  by (induction cs) (auto simp: utf8_string_def valid_utf8_char)

section \<open>UTF-16\<close>

fun utf16_decode :: "u16 list \<Rightarrow> nat list option" where
  "utf16_decode [] = Some []"
| "utf16_decode (u # us) =
     (if unat u < 0xD800 \<or> 0xDFFF < unat u then map_option (Cons (unat u)) (utf16_decode us)
      else if unat u < 0xDC00 then
        (case us of
           l # r \<Rightarrow>
             if 0xDC00 \<le> unat l \<and> unat l \<le> 0xDFFF
             then map_option (Cons (0x10000 + (unat u - 0xD800) * 0x400 + (unat l - 0xDC00)))
                    (utf16_decode r)
             else None
         | [] \<Rightarrow> None)
      else None)"

definition from_utf16 :: "u16 list \<Rightarrow> rust_string option" where
  "from_utf16 us = map_option utf8_string (utf16_decode us)"

definition utf16_char :: "nat \<Rightarrow> u16 list" where
  "utf16_char n =
     (if n < 0x10000 then [of_nat n]
      else [of_nat (0xD800 + (n - 0x10000) div 0x400), of_nat (0xDC00 + (n - 0x10000) mod 0x400)])"

lemma unat_u16: "n < 0x10000 \<Longrightarrow> unat (of_nat n :: u16) = n"
  by (rule unat_of_nat_small) simp

lemma utf16_decode_char:
  assumes "scalar n"
  shows "utf16_decode (utf16_char n @ us) = map_option (Cons n) (utf16_decode us)"
proof (cases "n < 0x10000")
  case True
  with assms show ?thesis
    by (auto simp: utf16_char_def unat_u16 scalar_def)
next
  case False
  define m where "m = n - 0x10000"
  have m: "m < 0x100000" "n = 0x10000 + m"
    using False assms by (auto simp: scalar_def m_def)
  have "m div 0x400 < 0x400" "m mod 0x400 \<le> 0x3FF"
    using m(1) by auto
  then show ?thesis
    using False m
    by (simp add: utf16_char_def unat_u16 less_Suc_eq_le add.commute del: of_nat_add)
qed

lemma utf16_decode_encode:
  "\<forall>c \<in> set cs. scalar c \<Longrightarrow> utf16_decode (concat (map utf16_char cs)) = Some cs"
  by (induction cs) (auto simp: utf16_decode_char)

lemma utf16_decode_scalar:
  "utf16_decode us = Some cs \<Longrightarrow> c \<in> set cs \<Longrightarrow> scalar c"
proof (induction us arbitrary: cs rule: utf16_decode.induct)
  case 1
  then show ?case by simp
next
  case (2 u us)
  have u: "unat u < 0x10000"
    using unsigned_less [of u, where 'a = nat] by simp
  show ?case
    using 2 u
    by (auto simp: scalar_def split: if_splits list.splits)
qed

lemma from_utf16_valid: "from_utf16 us = Some s \<Longrightarrow> valid_utf8 s"
  by (auto simp: from_utf16_def intro!: valid_utf8_string utf16_decode_scalar)

lemma from_utf16_encode:
  "\<forall>c \<in> set cs. scalar c \<Longrightarrow> from_utf16 (concat (map utf16_char cs)) = Some (utf8_string cs)"
  by (simp add: from_utf16_def utf16_decode_encode)

section \<open>Formatting\<close>

text \<open>Decimal \<open>Debug\<close> form of an unsigned integer.\<close>

fun dec_digits :: "nat \<Rightarrow> bytes" where
  "dec_digits n =
     (if n < 10 then [of_nat (48 + n)] else dec_digits (n div 10) @ [of_nat (48 + n mod 10)])"

declare dec_digits.simps [simp del]

lemma dec_digits_length: "n < 10 ^ Suc k \<Longrightarrow> length (dec_digits n) \<le> Suc k"
proof (induction k arbitrary: n)
  case 0
  then show ?case by (subst dec_digits.simps) simp
next
  case (Suc k)
  show ?case
  proof (cases "n < 10")
    case False
    from Suc.prems have "n div 10 < 10 ^ Suc k"
      by (simp add: less_mult_imp_div_less mult.commute)
    from Suc.IH [OF this] False show ?thesis
      by (subst dec_digits.simps) simp
  qed (subst dec_digits.simps, simp)
qed

text \<open>\<open>Debug\<close> form of a byte slice: the elements in brackets, separated by a comma and a space.\<close>

fun debug_elems :: "bytes \<Rightarrow> bytes" where
  "debug_elems [] = []"
| "debug_elems [b] = dec_digits (unat b)"
| "debug_elems (b # bs) = dec_digits (unat b) @ ascii '', '' @ debug_elems bs"

definition debug_bytes :: "bytes \<Rightarrow> bytes" where
  "debug_bytes bs = ascii ''['' @ debug_elems bs @ ascii '']''"

end
