(* ===== verification/Wasmstore_Local.thy ===== *)
theory Wasmstore_Local
  imports Wasmstore_Worker Text_Encoding
begin

text \<open>
  The helpers of \<open>pallets/wasmstore-pallet/src/lib.rs\<close> that work on the off-chain database
  only: the simulated heavy computation under a lock, the store of a script under a
  formatted key, and the formatted key list. No call or hook uses them at this commit. The
  SCALE form of \<open>OCWState\<close>, the \<open>Debug\<close> form of a string and the hash of the parent
  block are arguments.
\<close>

record ocw_local_state =
  is_active :: bool
  start_at_block :: block_number
  parent_hash :: h256
  start_at_time :: u64
  ocw_script :: bytes

record local_env =
  le_now :: u64
  le_block_hash :: "block_number \<Rightarrow> h256"
  le_enc_state :: "ocw_local_state \<Rightarrow> bytes"
  le_debug_string :: "rust_string \<Rightarrow> bytes"

section \<open>The heavy computation\<close>

definition local_lock :: bytes where
  "local_lock = ascii ''wasmstore::ocw::do_heavy_computation_lock''"

text \<open>
  The loop adds up every counter that is a multiple of 100000 in an \<open>i32\<close>; the hash it also
  computes is dropped. The block number before the first wraps in a release build.
\<close>

definition heavy_step :: "nat \<Rightarrow> nat \<Rightarrow> 32 word \<Rightarrow> 32 word" where
  "heavy_step period i v = (if i mod period = 0 then v + of_nat i else v)"

definition heavy_value :: "nat \<Rightarrow> 32 word" where
  "heavy_value iterations = fold (heavy_step 100000) [0..<iterations] 0"

definition simulate_heavy_computation ::
  "local_env \<Rightarrow> nat \<Rightarrow> block_number \<Rightarrow> offchain_db \<Rightarrow> (wasm_store_err, 32 word) outcome \<times> offchain_db" where
  "simulate_heavy_computation E iterations block_number db =
     (let payload = le_enc_state E
        \<lparr>is_active = True, start_at_block = block_number,
         parent_hash = le_block_hash E (block_number - 1), start_at_time = le_now E, ocw_script = []\<rparr>
      in case db_get db local_lock of
           None \<Rightarrow> (Ok (heavy_value iterations), db_clear local_lock (db_set local_lock payload db))
         | Some _ \<Rightarrow> (Err IsStillRunning, db))"

lemma heavy_skip:
  "\<forall>i \<in> set is. i mod m \<noteq> 0 \<Longrightarrow> fold (heavy_step m) is v = v"
  by (induction "is") (simp_all add: heavy_step_def)

lemma heavy_block:
  assumes "0 < m"
  shows "fold (heavy_step m) [m * n..<m * n + m] v = v + of_nat (m * n)"
proof -
  have "[m * n..<m * n + m] = m * n # [Suc (m * n)..<m * n + m]"
    using assms by (intro upt_conv_Cons) simp
  moreover have "fold (heavy_step m) [Suc (m * n)..<m * n + m] w = w" for w
  proof (rule heavy_skip, rule ballI)
    fix i assume "i \<in> set [Suc (m * n)..<m * n + m]"
    then have "i = m * n + (i - m * n)" "0 < i - m * n" "i - m * n < m" by auto
    then show "i mod m \<noteq> 0"
      by (metis mod_less mod_mult_self4 neq0_conv)
  qed
  ultimately show ?thesis
    by (simp add: heavy_step_def)
qed

lemma heavy_blocks:
  "0 < m \<Longrightarrow> fold (heavy_step m) [0..<m * n] 0 = of_nat (m * \<Sum>{0..<n})"
proof (induction n)
  case (Suc n)
  have "[0..<m * Suc n] = [0..<m * n] @ [m * n..<m * n + m]"
    using upt_add_eq_append [of 0 "m * n" m] by (simp add: add.commute)
  then have "fold (heavy_step m) [0..<m * Suc n] 0 = of_nat (m * \<Sum>{0..<n}) + of_nat (m * n)"
    by (simp only: fold_append comp_apply Suc.IH [OF Suc.prems] heavy_block [OF Suc.prems])
  also have "\<dots> = of_nat (m * \<Sum>{0..<Suc n})"
    by (simp add: distrib_left)
  finally show ?case .
qed simp

text \<open>
  The heavy computation excludes itself by its lock and releases it: while the lock is
  set a run is refused and changes nothing; otherwise the run of 20000000 iterations ends
  with the sum 1990000000, which fits the signed 32-bit accumulator, the lock is free
  again, and no other key has changed.
\<close>

lemma heavy_computation_spec:
  "simulate_heavy_computation E 20000000 n db =
     (if db_get db local_lock \<noteq> None then (Err IsStillRunning, db)
      else (Ok 1990000000, db)) \<and> sint (1990000000 :: 32 word) = 1990000000"
proof -
  have "\<Sum>{0..<200::nat} = 19900"
    by (simp add: Sum_Ico_nat)
  with heavy_blocks [of 100000 200] have "heavy_value 20000000 = 1990000000"
    by (simp add: heavy_value_def del: upt_rec_numeral)
  moreover have "db_clear local_lock (db_set local_lock v db) = db" if "db_get db local_lock = None" for v
    using that by (auto simp: db_clear_def db_set_def db_get_def)
  ultimately show ?thesis
    by (auto simp: simulate_heavy_computation_def Let_def split: option.split)
qed

section \<open>Scripts under a formatted key\<close>

definition add_wasm_script_to_storage ::
  "local_env \<Rightarrow> rust_string \<Rightarrow> bytes \<Rightarrow> block_number \<Rightarrow> offchain_db
     \<Rightarrow> (wasm_store_err, unit) outcome \<times> offchain_db" where
  "add_wasm_script_to_storage E name script block_number db =
     (let lock = le_debug_string E name @ dec_digits (unat block_number) @ dec_digits (unat (le_now E));
          payload = le_enc_state E
            \<lparr>is_active = False, start_at_block = block_number,
             parent_hash = le_block_hash E (block_number - 1), start_at_time = le_now E,
             ocw_script = script\<rparr>
      in case db_get db lock of
           None \<Rightarrow> (Ok (), db_set lock payload db)
         | Some _ \<Rightarrow> (Err ValueAlreadyExist, db))"

text \<open>
  A script is stored at most once per formatted key: after a store succeeded, every
  later store of any script under the same name, block and time is refused and leaves the
  database as it is.
\<close>

lemma script_stored_once:
  assumes "add_wasm_script_to_storage E name script n db = (Ok (), db')"
  shows "add_wasm_script_to_storage E name script' n db' = (Err ValueAlreadyExist, db')"
  using assms
  by (auto simp: add_wasm_script_to_storage_def Let_def odb.get_put split: option.splits)

section \<open>The formatted key list\<close>

definition key_list_key :: bytes where
  "key_list_key = ascii ''wasmstore::keylist''"

definition add_to_key_list :: "bytes \<Rightarrow> nat \<Rightarrow> u32 \<Rightarrow> offchain_db \<Rightarrow> offchain_db" where
  "add_to_key_list key index key_len db =
     (case db_get db key_list_key of
        None \<Rightarrow> db
      | Some val \<Rightarrow>
          let new_val = val @ dec_digits (unat key_len) @ debug_bytes key
          in snd (db_compare_and_set key_list_key (Some val) new_val db))"

end
