(* ===== verification/Script_Runtime.thy ===== *)
theory Script_Runtime
  imports Scale_Format Text_Encoding
begin

text \<open>
  The script runtime, \<open>script-executor/src/runtime.rs\<close>: the interface description of a
  script and its registry, the run of the script in the WebAssembly engine, and the
  decoding of its output object from linear memory. The engine, the HTTP client and the
  JSON parser are third-party: they are the record \<open>wasm_engine\<close> and the arguments
  \<open>net\<close> and \<open>parse_abi\<close>. A float is its bit pattern, since the program only copies it.
\<close>

section \<open>Interface descriptions\<close>

record param =
  pm_name :: rust_string
  pm_type :: rust_string

record abi_function =
  fn_name :: rust_string
  fn_params :: "param list"
  fn_result :: rust_string
  fn_selector :: rust_string

record abi_class =
  cls_selector :: rust_string
  cls_name :: rust_string
  cls_fields :: "param list"
  cls_methods :: "abi_function list"

record abi_variable =
  var_name :: rust_string
  var_type :: rust_string
  var_selector :: rust_string

record abi_header =
  hd_name :: "rust_string option"
  hd_header :: rust_string

record abi_root =
  rt_headers :: abi_header
  rt_functions :: "abi_function list"
  rt_classes :: "abi_class list"
  rt_variables :: "abi_variable list"

record selector_registry =
  reg_origin :: rust_string
  reg_functions :: "rust_string \<rightharpoonup> abi_function"
  reg_variables :: "rust_string \<rightharpoonup> abi_variable"
  classes_schema :: "rust_string \<rightharpoonup> param list"

definition add_function :: "abi_function \<Rightarrow> selector_registry \<Rightarrow> selector_registry" where
  "add_function f reg = reg\<lparr>reg_functions := (reg_functions reg)(fn_selector f \<mapsto> f)\<rparr>"

definition add_class :: "abi_class \<Rightarrow> selector_registry \<Rightarrow> selector_registry" where
  "add_class c reg =
     fold add_function (cls_methods c)
       (reg\<lparr>classes_schema := (classes_schema reg)(cls_name c \<mapsto> cls_fields c)\<rparr>)"

definition add_variable :: "abi_variable \<Rightarrow> selector_registry \<Rightarrow> selector_registry" where
  "add_variable v reg = reg\<lparr>reg_variables := (reg_variables reg)(var_selector v \<mapsto> v)\<rparr>"

definition build_registry :: "abi_root \<Rightarrow> selector_registry" where
  "build_registry root =
     fold add_variable (rt_variables root)
       (fold add_class (rt_classes root)
         (fold add_function (rt_functions root)
           \<lparr>reg_origin = hd_header (rt_headers root), reg_functions = Map.empty,
            reg_variables = Map.empty, classes_schema = Map.empty\<rparr>))"

section \<open>Sizes of the output object\<close>

definition starts_with :: "bytes \<Rightarrow> bytes \<Rightarrow> bool" where
  "starts_with s p \<longleftrightarrow> take (length p) s = p"

definition strip_prefix :: "bytes \<Rightarrow> bytes \<Rightarrow> bytes option" where
  "strip_prefix s p = (if starts_with s p then Some (drop (length p) s) else None)"

definition strip_suffix :: "bytes \<Rightarrow> bytes \<Rightarrow> bytes option" where
  "strip_suffix s p = map_option rev (strip_prefix (rev s) (rev p))"

definition field_size :: "rust_string \<Rightarrow> u32" where
  "field_size t =
     (if t = ascii ''i32'' then 4
      else if t = ascii ''i64'' then 4
      else if t = ascii ''f32'' then 8
      else if t = ascii ''f64'' then 8
      else if starts_with t (ascii ''Array<'') then 4
      else if t = ascii ''string'' then 4
      else 4)"

definition cal_output_size :: "selector_registry \<Rightarrow> u32 list \<times> u32" where
  "cal_output_size reg =
     (case classes_schema reg (ascii ''Output'') of
        None \<Rightarrow> ([], 0)
      | Some fs \<Rightarrow>
          foldl (\<lambda>(sizes, total) f. (sizes @ [field_size (pm_type f)], total + field_size (pm_type f)))
            ([], 0) fs)"

section \<open>Linear memory\<close>

definition mem_read :: "bytes \<Rightarrow> u64 \<Rightarrow> nat \<Rightarrow> bytes option" where
  "mem_read mem ptr n =
     (if unat ptr + n \<le> length mem then Some (take n (drop (unat ptr) mem)) else None)"

definition mem_write :: "bytes \<Rightarrow> u64 \<Rightarrow> bytes \<Rightarrow> bytes option" where
  "mem_write mem ptr bs =
     (if unat ptr + length bs \<le> length mem
      then Some (take (unat ptr) mem @ bs @ drop (unat ptr + length bs) mem) else None)"

lemma mem_write_length: "mem_write mem ptr bs = Some mem' \<Longrightarrow> length mem' = length mem"
  by (auto simp: mem_write_def split: if_splits)

lemma mem_read_length: "mem_read mem ptr n = Some bs \<Longrightarrow> length bs = n"
  by (auto simp: mem_read_def split: if_splits)

definition read_utf16_string :: "bytes \<Rightarrow> u64 \<Rightarrow> nat \<Rightarrow> (string, rust_string) outcome" where
  "read_utf16_string mem ptr max_len =
     and_then (ok_or ''out of bounds memory access'' (mem_read mem ptr (max_len * 2))) (\<lambda>raw_bytes.
     ok_or ''invalid utf-16''
       (from_utf16 (takeWhile (\<lambda>u. u \<noteq> 0) (map of_le_bytes (chunks 2 raw_bytes)))))"

section \<open>Decoding the output object\<close>

definition read_u32 :: "bytes \<Rightarrow> u64 \<Rightarrow> (string, u32) outcome" where
  "read_u32 mem ptr =
     and_then (ok_or ''out of bounds memory access'' (mem_read mem ptr 4)) (\<lambda>b. Ok (of_le_bytes b))"

fun array_values :: "bytes \<Rightarrow> u64 \<Rightarrow> nat list \<Rightarrow> (string, u32 list) outcome" where
  "array_values mem data_ptr [] = Ok []"
| "array_values mem data_ptr (i # is) =
     and_then (read_u32 mem (data_ptr + of_nat (i * 4))) (\<lambda>ptr.
     if ptr = 0 then array_values mem data_ptr is
     else and_then (read_u32 mem (ucast ptr)) (\<lambda>value.
          and_then (array_values mem data_ptr is) (\<lambda>vs. Ok (value # vs))))"

definition read_array :: "bytes \<Rightarrow> u64 \<Rightarrow> (string, u32 list) outcome" where
  "read_array mem custom_arr_ptr =
     and_then (ok_or ''out of bounds memory access'' (mem_read mem custom_arr_ptr 16)) (\<lambda>header.
     let data_ptr = of_le_bytes (take 4 (drop 4 header)) :: u32;
         cap = of_le_bytes (take 4 (drop 12 header)) :: u32
     in if data_ptr = 0 then Panic
        else array_values mem (ucast data_ptr) [0..<unat cap])"

definition enc_f32_vec :: "u32 list \<Rightarrow> bytes" where
  "enc_f32_vec vs = enc_compact (length vs) @ concat (map (le_bytes 4) vs)"

definition enc_string :: "rust_string \<Rightarrow> bytes" where
  "enc_string s = enc_compact (length s) @ s"

text \<open>
  One field: the new offset and the bytes appended to the result. \<open>is_class\<close> says which
  names the registry has a class for.
\<close>

definition decode_field ::
  "(rust_string \<Rightarrow> bool) \<Rightarrow> bytes \<Rightarrow> u64 \<Rightarrow> u64 \<Rightarrow> rust_string \<Rightarrow> (string, u64 \<times> bytes) outcome" where
  "decode_field is_class mem output_offset offset_val t =
     (let oob = ''out of bounds memory access''; addr = output_offset + offset_val in
      if t = ascii ''i32'' \<or> t = ascii ''f32'' then
        and_then (ok_or oob (mem_read mem addr 4))
          (\<lambda>result. Ok (offset_val + 4, le_bytes 4 (of_le_bytes result :: u32)))
      else if t = ascii ''i64'' \<or> t = ascii ''f64'' then
        and_then (ok_or oob (mem_read mem addr 8))
          (\<lambda>result. Ok (offset_val + 8, le_bytes 8 (of_le_bytes result :: u64)))
      else if starts_with t (ascii ''Array<'') then
        (case Option.bind (strip_prefix t (ascii ''Array<'')) (\<lambda>s. strip_suffix s (ascii ''>'')) of
           None \<Rightarrow> Ok (offset_val, [])
         | Some inner \<Rightarrow>
             if is_class inner then
               and_then (read_u32 mem addr) (\<lambda>ptr.
               and_then (read_array mem (ucast ptr)) (\<lambda>vs. Ok (offset_val + 4, enc_f32_vec vs)))
             else Ok (offset_val, []))
      else if t = ascii ''string'' then
        and_then (read_u32 mem addr) (\<lambda>ptr.
        Ok (offset_val + 4,
            enc_string (case read_utf16_string mem (ucast ptr) 1024 of Ok s \<Rightarrow> s | _ \<Rightarrow> [])))
      else and_then (read_u32 mem addr) (\<lambda>ptr. Ok (offset_val + 4, [])))"

fun decode_fields ::
  "(rust_string \<Rightarrow> bool) \<Rightarrow> bytes \<Rightarrow> u64 \<Rightarrow> u64 \<Rightarrow> param list \<Rightarrow> bytes \<Rightarrow> (string, bytes) outcome" where
  "decode_fields is_class mem output_offset offset_val [] bytes_result = Ok bytes_result"
| "decode_fields is_class mem output_offset offset_val (p # ps) bytes_result =
     and_then (decode_field is_class mem output_offset offset_val (pm_type p)) (\<lambda>(off, bs).
       decode_fields is_class mem output_offset off ps (bytes_result @ bs))"

definition decode_output :: "selector_registry \<Rightarrow> bytes \<Rightarrow> u64 \<Rightarrow> (string, bytes) outcome" where
  "decode_output reg mem output_offset =
     (case classes_schema reg (ascii ''Output'') of
        None \<Rightarrow> Ok []
      | Some fs \<Rightarrow>
          decode_fields (\<lambda>c. classes_schema reg c \<noteq> None) mem output_offset 0 fs [])"

section \<open>The engine and the run\<close>

datatype val_type = T_i32 | T_i64 | T_f32 | T_f64 | T_other

text \<open>An import of the module; for a table, whether the engine can create it.\<close>

datatype import_type = Imp_func | Imp_global val_type | Imp_table bool | Imp_other

datatype wasm_extern = Ext_func | Ext_table

datatype wasm_val = Val_i32 u32 | Val_other

record wasm_instance =
  wi_memory :: "bytes option"
  wi_process :: "(bytes \<Rightarrow> u32 \<Rightarrow> u32 \<Rightarrow> (bytes \<times> u32) option) option"
  wi_url :: "wasm_val option"

record wasm_engine =
  we_imports :: "bytes \<Rightarrow> import_type list option"
  we_instantiate :: "bytes \<Rightarrow> wasm_extern list \<Rightarrow> wasm_instance option"

fun build_externs :: "import_type list \<Rightarrow> (string, wasm_extern list) outcome" where
  "build_externs [] = Ok []"
| "build_externs (Imp_func # is) = and_then (build_externs is) (\<lambda>es. Ok (Ext_func # es))"
| "build_externs (Imp_global t # is) = (if t = T_other then Panic else build_externs is)"
| "build_externs (Imp_table ok # is) =
     (if ok then and_then (build_externs is) (\<lambda>es. Ok (Ext_table # es))
      else Err ''failed to create table'')"
| "build_externs (Imp_other # is) = Panic"

fun url_units :: "bytes \<Rightarrow> u16 list" where
  "url_units (low_byte # high_byte # r) =
     (if low_byte = 0 \<and> high_byte = 0 then []
      else of_le_bytes [low_byte, high_byte] # url_units r)"
| "url_units _ = []"

definition scan_url :: "bytes \<Rightarrow> u64 \<Rightarrow> (string, rust_string) outcome" where
  "scan_url mem i =
     (if i + 1 = 0 \<and> mem \<noteq> [] then Panic
      else Ok (utf8_string (map (\<lambda>u. if scalar (unat u) then unat u else 0x3F)
             (url_units (drop (unat i) mem)))))"

definition query_params :: "(rust_string \<times> rust_string) list" where
  "query_params = [(ascii ''category'', ascii ''finance''), (ascii ''https'', ascii ''true'')]"

definition wasmtime_runner ::
  "wasm_engine \<Rightarrow> (rust_string \<Rightarrow> (rust_string \<times> rust_string) list \<Rightarrow> rust_string option)
     \<Rightarrow> bytes \<Rightarrow> selector_registry \<Rightarrow> (string, bytes) outcome" where
  "wasmtime_runner E net bin reg =
     and_then (ok_or ''invalid module'' (we_imports E bin)) (\<lambda>imports.
     and_then (build_externs imports) (\<lambda>externlts.
     and_then (ok_or ''instantiation failed'' (we_instantiate E bin externlts)) (\<lambda>inst.
     and_then (expect (wi_memory inst)) (\<lambda>memory.
     and_then (ok_or ''no function process'' (wi_process inst)) (\<lambda>process.
     and_then (expect (wi_url inst)) (\<lambda>url_global.
     and_then (case url_global of Val_i32 v \<Rightarrow> Ok v | Val_other \<Rightarrow> Panic) (\<lambda>url_value.
     and_then (scan_url memory (scast url_value)) (\<lambda>api_url.
     and_then (ok_or ''http error'' (net api_url query_params)) (\<lambda>json.
     and_then (ok_or ''out of bounds memory access'' (mem_write memory 0 json)) (\<lambda>memory1.
     and_then (ok_or ''out of bounds memory access'' (mem_read memory1 0 10240)) (\<lambda>confirm.
     and_then (ok_or ''trap'' (process memory1 0 (of_nat (length json)))) (\<lambda>(memory2, ret_ptr).
     decode_output reg memory2 (scast ret_ptr)))))))))))))"

definition abi_reader ::
  "(rust_string \<Rightarrow> abi_root option) \<Rightarrow> wasm_engine
     \<Rightarrow> (rust_string \<Rightarrow> (rust_string \<times> rust_string) list \<Rightarrow> rust_string option)
     \<Rightarrow> rust_string \<Rightarrow> bytes \<Rightarrow> (string, bytes) outcome" where
  "abi_reader parse_abi E net file_content wasm_bytecode =
     and_then (ok_or ''invalid interface description'' (parse_abi file_content)) (\<lambda>root.
     case wasmtime_runner E net wasm_bytecode (build_registry root) of
       Ok res \<Rightarrow> Ok res
     | _ \<Rightarrow> Panic)"

end
