(* ===== verification/Script_Output.thy ===== *)
theory Script_Output
  imports Script_Runtime
begin

text \<open>
  What the script runtime returns for an output object: the specification of an object laid
  out in linear memory, the proof that the decoder of \<open>Script_Runtime\<close> implements it,
  the size computation compared with what the decoder reads, and the runs that fail.
\<close>

section \<open>Specification of an output object\<close>

datatype out_value = Fixed bytes | Text "nat list"

definition fixed_size :: "rust_string \<Rightarrow> nat option" where
  "fixed_size t =
     (if t = ascii ''i32'' \<or> t = ascii ''f32'' then Some 4
      else if t = ascii ''i64'' \<or> t = ascii ''f64'' then Some 8 else None)"

text \<open>A null-terminated UTF-16 text of fewer than 1024 units in memory.\<close>

definition text_at :: "bytes \<Rightarrow> u64 \<Rightarrow> nat list \<Rightarrow> bool" where
  "text_at mem ptr cs \<longleftrightarrow>
     (\<forall>c \<in> set cs. scalar c \<and> c \<noteq> 0) \<and>
     (\<exists>raw rest. mem_read mem ptr 2048 = Some raw \<and>
        raw = concat (map (le_bytes 2) (concat (map utf16_char cs) @ [0])) @ rest)"

fun holds :: "bytes \<Rightarrow> u64 \<Rightarrow> rust_string \<Rightarrow> out_value \<Rightarrow> bool" where
  "holds mem addr t (Fixed bs) \<longleftrightarrow>
     fixed_size t = Some (length bs) \<and> mem_read mem addr (length bs) = Some bs"
| "holds mem addr t (Text cs) \<longleftrightarrow>
     t = ascii ''string'' \<and>
     (\<exists>p :: u32. mem_read mem addr 4 = Some (le_bytes 4 p) \<and> text_at mem (ucast p) cs)"

fun out_size :: "out_value \<Rightarrow> nat" where
  "out_size (Fixed bs) = length bs"
| "out_size (Text cs) = 4"

fun out_bytes :: "out_value \<Rightarrow> bytes" where
  "out_bytes (Fixed bs) = bs"
| "out_bytes (Text cs) = enc_string (utf8_string cs)"

fun object_at :: "bytes \<Rightarrow> u64 \<Rightarrow> param list \<Rightarrow> out_value list \<Rightarrow> bool" where
  "object_at mem addr [] [] \<longleftrightarrow> True"
| "object_at mem addr (p # ps) (v # vs) \<longleftrightarrow>
     holds mem addr (pm_type p) v \<and> object_at mem (addr + of_nat (out_size v)) ps vs"
| "object_at mem addr _ _ \<longleftrightarrow> False"

section \<open>The decoder implements it\<close>

lemma ascii_types [simp]:
  "ascii ''i32'' = [105, 51, 50]" "ascii ''f32'' = [102, 51, 50]"
  "ascii ''i64'' = [105, 54, 52]" "ascii ''f64'' = [102, 54, 52]"
  "ascii ''string'' = [115, 116, 114, 105, 110, 103]"
  "ascii ''Array<'' = [65, 114, 114, 97, 121, 60]" "ascii ''>'' = [62]"
  by (simp_all add: ascii_def of_char_def)

lemma fixed_size_cases:
  "fixed_size t = Some n \<longleftrightarrow>
     (t = ascii ''i32'' \<or> t = ascii ''f32'') \<and> n = 4 \<or> (t = ascii ''i64'' \<or> t = ascii ''f64'') \<and> n = 8"
  by (auto simp: fixed_size_def)

lemma le_bytes_same:
  "length bs = 4 \<Longrightarrow> le_bytes 4 (of_le_bytes bs :: u32) = bs"
  "length bs = 8 \<Longrightarrow> le_bytes 8 (of_le_bytes bs :: u64) = bs"
  using le_bytes_of_le_bytes [of bs, where 'a = 32] le_bytes_of_le_bytes [of bs, where 'a = 64]
  by simp_all

lemma decode_field_four:
  assumes "t = ascii ''i32'' \<or> t = ascii ''f32''" "mem_read mem (base + off) 4 = Some bs"
  shows "decode_field is_class mem base off t = Ok (off + 4, bs)"
  using assms le_bytes_same(1) [OF mem_read_length [OF assms(2)]]
  by (simp add: decode_field_def Let_def del: ascii_types)

lemma decode_field_eight:
  assumes "t = ascii ''i64'' \<or> t = ascii ''f64''" "mem_read mem (base + off) 8 = Some bs"
  shows "decode_field is_class mem base off t = Ok (off + 8, bs)"
proof -
  have "t \<noteq> ascii ''i32''" "t \<noteq> ascii ''f32''"
    using assms(1) by auto
  then show ?thesis
    using assms le_bytes_same(2) [OF mem_read_length [OF assms(2)]]
    by (simp add: decode_field_def Let_def del: ascii_types)
qed

lemma decode_field_fixed:
  assumes "fixed_size t = Some (length bs)" "mem_read mem (base + off) (length bs) = Some bs"
  shows "decode_field is_class mem base off t = Ok (off + of_nat (length bs), bs)"
  using assms(1) unfolding fixed_size_cases
proof (elim disjE conjE)
qed (use assms(2) decode_field_four [of t] decode_field_eight [of t] in simp_all)

lemma chunks_two_units:
  "map of_le_bytes (chunks 2 (concat (map (le_bytes 2) us) @ rest))
     = (us :: u16 list) @ map of_le_bytes (chunks 2 rest)"
  by (induction us) (simp_all add: chunks_append of_le_bytes_full)

lemma utf16_char_nonzero: "scalar c \<Longrightarrow> c \<noteq> 0 \<Longrightarrow> u \<in> set (utf16_char c) \<Longrightarrow> u \<noteq> 0"
proof -
  assume c: "scalar c" "c \<noteq> 0" "u \<in> set (utf16_char c)"
  then have "0 < unat u"
  proof (cases "c < 0x10000")
    case True
    then have "u = of_nat c" using c(3) by (simp add: utf16_char_def del: of_nat_eq_iff)
    then have "unat u = c" using True by (simp only: unat_u16)
    with c(2) show ?thesis by simp
  next
    case False
    define m where "m = c - 0x10000"
    have "m div 0x400 < 0x400" "m mod 0x400 < 0x400"
      using c(1) by (auto simp: m_def scalar_def)
    then have "unat (of_nat (0xD800 + m div 0x400) :: u16) = 0xD800 + m div 0x400"
        "unat (of_nat (0xDC00 + m mod 0x400) :: u16) = 0xDC00 + m mod 0x400"
      by (intro unat_u16, simp)+
    with c(3) False show ?thesis
      by (auto simp: utf16_char_def m_def [symmetric] simp del: of_nat_add)
  qed
  then show "u \<noteq> 0" by auto
qed

lemma read_utf16_text:
  assumes "text_at mem ptr cs"
  shows "read_utf16_string mem ptr 1024 = Ok (utf8_string cs)"
proof -
  let ?us = "concat (map utf16_char cs)"
  from assms obtain rest where raw: "mem_read mem ptr 2048
      = Some (concat (map (le_bytes 2) (?us @ [0])) @ rest)"
    and cs: "\<forall>c \<in> set cs. scalar c \<and> c \<noteq> 0"
    by (auto simp: text_at_def)
  have nz: "\<forall>u \<in> set ?us. u \<noteq> 0"
    using cs utf16_char_nonzero by auto
  have "takeWhile (\<lambda>u. u \<noteq> 0) (?us @ 0 # vs) = ?us" for vs
    using nz by (simp add: takeWhile_append)
  then show ?thesis
    using cs raw chunks_two_units [of "?us @ [0]" rest]
    by (simp add: read_utf16_string_def from_utf16_encode)
qed

lemma decode_field_text:
  assumes "mem_read mem (base + off) 4 = Some (le_bytes 4 (p :: u32))" "text_at mem (ucast p) cs"
  shows "decode_field is_class mem base off (ascii ''string'')
    = Ok (off + 4, enc_string (utf8_string cs))"
  using assms read_utf16_text [OF assms(2)]
  by (simp add: decode_field_def read_u32_def starts_with_def of_le_bytes_full)

lemma decode_field_holds:
  "holds mem (base + off) t v \<Longrightarrow>
     decode_field is_class mem base off t = Ok (off + of_nat (out_size v), out_bytes v)"
  by (cases v) (auto simp del: ascii_types simp: decode_field_fixed decode_field_text)

lemma decode_fields_object:
  "object_at mem (base + off) ps vs \<Longrightarrow>
     decode_fields is_class mem base off ps acc = Ok (acc @ concat (map out_bytes vs))"
proof (induction ps arbitrary: vs off acc)
  case Nil
  then show ?case by (cases vs) auto
next
  case (Cons p ps)
  then obtain v ws where "vs = v # ws" by (cases vs) auto
  with Cons.prems decode_field_holds [of mem base off "pm_type p" v is_class]
    Cons.IH [of "off + of_nat (out_size v)" ws "acc @ out_bytes v"] show ?case
    by (simp add: add.assoc)
qed

text \<open>
  C17: The runtime's output decoder implements the object layout: when the object at the
  returned address holds the values of the declared fields (numbers in place, texts as
  pointers to null-terminated UTF-16), the result is exactly the values in order, numbers
  as their bytes and texts as length-prefixed UTF-8.
\<close>

theorem output_decoding:
  assumes "classes_schema reg (ascii ''Output'') = Some ps"
    and "object_at mem base ps vs"
  shows "decode_output reg mem base = Ok (concat (map out_bytes vs))"
  using assms decode_fields_object [of mem base 0 ps vs _ "[]"] by (simp add: decode_output_def)

definition sample_registry :: selector_registry where
  "sample_registry = \<lparr>reg_origin = [], reg_functions = Map.empty, reg_variables = Map.empty,
     classes_schema = [ascii ''Output'' \<mapsto>
       [\<lparr>pm_name = [], pm_type = ascii ''i32''\<rparr>, \<lparr>pm_name = [], pm_type = ascii ''f64''\<rparr>]]\<rparr>"

theorem output_decoding_witness:
  "decode_output sample_registry [9, 1, 2, 3, 4, 11, 12, 13, 14, 15, 16, 17, 18] 1
     = Ok [1, 2, 3, 4, 11, 12, 13, 14, 15, 16, 17, 18]"
  using output_decoding [of sample_registry
      "[\<lparr>pm_name = [], pm_type = ascii ''i32''\<rparr>, \<lparr>pm_name = [], pm_type = ascii ''f64''\<rparr>]"
      "[9, 1, 2, 3, 4, 11, 12, 13, 14, 15, 16, 17, 18]" 1
      "[Fixed [1, 2, 3, 4], Fixed [11, 12, 13, 14, 15, 16, 17, 18]]"]
  by (simp add: sample_registry_def fixed_size_def mem_read_def)

section \<open>The size computation\<close>

lemma cal_output_size_fold:
  "foldl (\<lambda>(sizes, total) f. (sizes @ [field_size (pm_type f)], total + field_size (pm_type f)))
     (xs, n) fs = (xs @ map (field_size \<circ> pm_type) fs, n + (\<Sum>f\<leftarrow>fs. field_size (pm_type f)))"
  by (induction fs arbitrary: xs n) (simp_all add: add.assoc)

definition has_type :: "string \<Rightarrow> param \<Rightarrow> bool" where
  "has_type t p \<longleftrightarrow> pm_type p = ascii t"

text \<open>An array whose elements are of no declared class: the decoder skips it.\<close>

definition skipped_array :: "(rust_string \<Rightarrow> bool) \<Rightarrow> param \<Rightarrow> bool" where
  "skipped_array is_class p \<longleftrightarrow> starts_with (pm_type p) (ascii ''Array<'') \<and>
     (case Option.bind (strip_prefix (pm_type p) (ascii ''Array<'')) (\<lambda>s. strip_suffix s (ascii ''>'')) of
        None \<Rightarrow> True | Some inner \<Rightarrow> \<not> is_class inner)"

lemma filter_Cons_count:
  "length (filter P (p # ps)) = (if P p then 1 else 0) + length (filter P ps)"
  by simp

lemma ucast_offset: "(ucast (off + n :: u64) :: u32) = ucast off + ucast n"
  by transfer (auto simp: take_bit_eq_mod mod_mod_cancel intro!: mod_add_cong)

lemma add_up:
  fixes a :: "'a::comm_ring_1"
  assumes "a + x + f = f1 + y + z" "b + u + f1 = f2 + v + w"
  shows "(a + b) + (x + u) + f = f2 + (y + v) + (z + w)"
proof -
  have "(a + b) + (x + u) + f = (a + x + f) + (b + u)" by (simp add: ac_simps)
  also have "\<dots> = (b + u + f1) + (y + z)" by (simp only: assms(1)) (simp add: ac_simps)
  also have "\<dots> = f2 + (y + v) + (z + w)" by (simp only: assms(2)) (simp add: ac_simps)
  finally show ?thesis .
qed

lemma decode_field_size:
  assumes "decode_field is_class mem base off (pm_type p) = Ok (off', bs)"
  shows "field_size (pm_type p) + 4 * of_nat (if has_type ''i64'' p then 1 else 0) + ucast off
    = (ucast off' :: u32) + 4 * of_nat (if has_type ''f32'' p then 1 else 0)
        + 4 * of_nat (if skipped_array is_class p then 1 else 0)"
proof -
  have four: "(ucast (off + 4) :: u32) = ucast off + 4" "(ucast (off + 8) :: u32) = ucast off + 8"
    by (simp_all add: ucast_offset)
  consider (num) "pm_type p \<in> {ascii ''i32'', ascii ''f32'', ascii ''i64'', ascii ''f64''}"
    | (arr) "pm_type p \<notin> {ascii ''i32'', ascii ''f32'', ascii ''i64'', ascii ''f64''}"
        "starts_with (pm_type p) (ascii ''Array<'')"
    | (other) "pm_type p \<notin> {ascii ''i32'', ascii ''f32'', ascii ''i64'', ascii ''f64''}"
        "\<not> starts_with (pm_type p) (ascii ''Array<'')"
    by blast
  then show ?thesis
  proof cases
    case num
    then have "\<not> skipped_array is_class p"
      by (auto simp: skipped_array_def starts_with_def)
    with num assms show ?thesis
      by (auto simp: decode_field_def field_size_def has_type_def four and_then_Ok Let_def)
  next
    case arr
    then have "field_size (pm_type p) = 4"
      by (simp add: field_size_def del: ascii_types)
    with arr assms show ?thesis
      by (auto simp: decode_field_def skipped_array_def has_type_def four and_then_Ok Let_def
          simp del: ascii_types split: option.splits if_splits)
  next
    case other
    then have "field_size (pm_type p) = 4"
      by (simp add: field_size_def del: ascii_types)
    with other assms show ?thesis
      by (auto simp: decode_field_def skipped_array_def has_type_def four and_then_Ok Let_def
          simp del: ascii_types split: if_splits)
  qed
qed

lemma decode_fields_size:
  assumes "decode_fields is_class mem base off ps acc = Ok out"
  shows "\<exists>off'. (\<forall>qs. decode_fields is_class mem base off (ps @ qs) acc = decode_fields is_class mem base off' qs out)
     \<and> (\<Sum>f\<leftarrow>ps. field_size (pm_type f)) + 4 * of_nat (length (filter (has_type ''i64'') ps)) + ucast off
       = (ucast off' :: u32) + 4 * of_nat (length (filter (has_type ''f32'') ps))
           + 4 * of_nat (length (filter (skipped_array is_class) ps))"
  using assms
proof (induction ps arbitrary: off acc)
  case (Cons p ps)
  then obtain off1 bs where head: "decode_field is_class mem base off (pm_type p) = Ok (off1, bs)"
    and rest: "decode_fields is_class mem base off1 ps (acc @ bs) = Ok out"
    by (auto simp: and_then_Ok)
  from Cons.IH [OF rest] obtain off' where
    tail: "\<forall>qs. decode_fields is_class mem base off1 (ps @ qs) (acc @ bs) = decode_fields is_class mem base off' qs out"
    and size: "(\<Sum>f\<leftarrow>ps. field_size (pm_type f)) + 4 * of_nat (length (filter (has_type ''i64'') ps)) + ucast off1
       = (ucast off' :: u32) + 4 * of_nat (length (filter (has_type ''f32'') ps))
           + 4 * of_nat (length (filter (skipped_array is_class) ps))"
    by blast
  have "(\<Sum>f\<leftarrow>p # ps. field_size (pm_type f)) + 4 * of_nat (length (filter (has_type ''i64'') (p # ps))) + ucast off
      = (ucast off' :: u32) + 4 * of_nat (length (filter (has_type ''f32'') (p # ps)))
          + 4 * of_nat (length (filter (skipped_array is_class) (p # ps)))"
    unfolding filter_Cons_count list.map sum_list.Cons of_nat_add distrib_left
    by (rule add_up [OF decode_field_size [OF head] size])
  with tail head show ?case by (intro exI [of _ off']) simp
qed (auto intro: exI [of _ off])

text \<open>
  C34: The computed size of an output object, whatever the types of its fields, is wrong by
  four bytes for every \<open>f32\<close> (too large), for every \<open>i64\<close> (too small), and for every array of
  no declared class (too large). The bytes consumed by a decoding that succeeds are where the
  decoder would read a further field: \<open>total + 4 * #i64 = consumed + 4 * #f32 + 4 * #skipped\<close>.
\<close>

theorem cal_output_size_error:
  assumes "classes_schema reg (ascii ''Output'') = Some ps"
    and "decode_output reg mem base = Ok out"
  shows "\<exists>consumed. (\<forall>qs. decode_fields (\<lambda>c. classes_schema reg c \<noteq> None) mem base 0 (ps @ qs) []
          = decode_fields (\<lambda>c. classes_schema reg c \<noteq> None) mem base consumed qs out)
     \<and> snd (cal_output_size reg) + 4 * of_nat (length (filter (has_type ''i64'') ps))
       = ucast consumed + 4 * of_nat (length (filter (has_type ''f32'') ps))
           + 4 * of_nat (length (filter (skipped_array (\<lambda>c. classes_schema reg c \<noteq> None)) ps))"
  using decode_fields_size [of "\<lambda>c. classes_schema reg c \<noteq> None" mem base 0 ps "[]" out] assms
  by (simp add: decode_output_def cal_output_size_def cal_output_size_fold)

theorem cal_output_size_error_witness:
  "let fs = [\<lparr>pm_name = [], pm_type = ascii ''i64''\<rparr>, \<lparr>pm_name = [], pm_type = ascii ''bool''\<rparr>];
       reg = sample_registry\<lparr>classes_schema := [ascii ''Output'' \<mapsto> fs]\<rparr>
   in \<exists>consumed. snd (cal_output_size reg) + 4 = ucast consumed
     \<and> (\<forall>qs. decode_fields (\<lambda>c. classes_schema reg c \<noteq> None) (replicate 12 5) 0 0 (fs @ qs) []
          = decode_fields (\<lambda>c. classes_schema reg c \<noteq> None) (replicate 12 5) 0 consumed qs
              (replicate 8 5))"
proof -
  let ?fs = "[\<lparr>pm_name = [], pm_type = ascii ''i64''\<rparr>, \<lparr>pm_name = [], pm_type = ascii ''bool''\<rparr>]"
  let ?reg = "sample_registry\<lparr>classes_schema := [ascii ''Output'' \<mapsto> ?fs]\<rparr>"
  have schema: "classes_schema ?reg (ascii ''Output'') = Some ?fs" by simp
  have "mem_read (replicate 12 5) 0 8 = Some (replicate 8 5)"
    by (simp add: mem_read_def)
  then have long: "decode_field c (replicate 12 5) 0 0 (ascii ''i64'') = Ok (8, replicate 8 5)" for c
    by (simp add: decode_field_eight del: replicate.simps)
  have "decode_field c (replicate 12 5) 0 8 (ascii ''bool'') = Ok (12, [])" for c
    by (simp add: decode_field_def read_u32_def starts_with_def ascii_def mem_read_def)
  with long have "decode_output ?reg (replicate 12 5) 0 = Ok (replicate 8 5)"
    by (simp add: decode_output_def del: replicate.simps ascii_types)
  note error = cal_output_size_error [OF schema this]
  have counts: "length (filter (has_type ''i64'') ?fs) = 1" "length (filter (has_type ''f32'') ?fs) = 0"
      "length (filter (skipped_array c) ?fs) = 0" for c
    by (simp_all add: has_type_def skipped_array_def starts_with_def ascii_def)
  have "(4 :: u32) * of_nat (length (filter (has_type ''i64'') ?fs)) = 4"
      "(4 :: u32) * of_nat (length (filter (has_type ''f32'') ?fs)) = 0"
      "(4 :: u32) * of_nat (length (filter (skipped_array c) ?fs)) = 0" for c
    by (subst counts, simp)+
  from error [unfolded this add_0_right] show ?thesis
    unfolding Let_def by blast
qed

section \<open>Silent losses and failing runs\<close>

text \<open>
  A text that lies in the last two kilobytes of linear memory is lost: the decoder reads
  2048 bytes from its start, and when they are not all there it returns the encoding of
  the empty string, without an error, whatever the text is.
\<close>

lemma text_near_end_lost:
  assumes "mem_read mem (base + off) 4 = Some (le_bytes 4 (p :: u32))"
    and "length mem < unat p + 2048"
  shows "decode_field is_class mem base off (ascii ''string'') = Ok (off + 4, enc_string [])"
proof -
  have "unat (ucast p :: u64) = unat p"
    by (simp add: unsigned_ucast_eq take_bit_nat_eq_self unsigned_less [THEN less_le_trans])
  then show ?thesis
    using assms
    by (simp add: decode_field_def read_u32_def starts_with_def of_le_bytes_full
        read_utf16_string_def mem_read_def [of mem "ucast p"])
qed

text \<open>
  A declared array of something other than a declared class is skipped without
  consuming its pointer, so the next field is decoded from the array's place.
\<close>

lemma unknown_array_shifts_fields:
  assumes "pm_type p = ascii ''Array<'' @ inner @ ascii ''>''" and "\<not> is_class inner"
  shows "decode_fields is_class mem base off (p # ps) acc = decode_fields is_class mem base off ps acc"
proof -
  have "Option.bind (strip_prefix (pm_type p) (ascii ''Array<'')) (\<lambda>s. strip_suffix s (ascii ''>''))
      = Some inner"
    by (simp add: assms(1) strip_prefix_def strip_suffix_def starts_with_def)
  then show ?thesis
    using assms by (simp add: decode_field_def starts_with_def)
qed
lemma build_externs_length:
  "build_externs is = Ok es \<Longrightarrow>
     length es + length (filter (\<lambda>i. \<exists>t. i = Imp_global t) is) = length is"
  by (induction "is" arbitrary: es rule: build_externs.induct)
    (auto simp: and_then_Ok split: if_splits)

text \<open>
  A script that imports a global cannot run: the runner collects no extern for it, and
  an engine that wants one extern per import refuses to instantiate the module, so the
  result is always an error or a panic.
\<close>

lemma global_import_never_runs:
  assumes "\<And>bin is es. we_imports E bin = Some is \<Longrightarrow> length es \<noteq> length is
      \<Longrightarrow> we_instantiate E bin es = None"
    and "we_imports E bin = Some is" and "Imp_global t \<in> set is"
  shows "\<forall>out. wasmtime_runner E net bin reg \<noteq> Ok out"
proof -
  have "we_instantiate E bin es = None" if "build_externs is = Ok es" for es
  proof (rule assms(1) [OF assms(2)])
    have "Imp_global t \<in> set (filter (\<lambda>i. \<exists>t. i = Imp_global t) is)"
      using assms(3) by simp
    then have "0 < length (filter (\<lambda>i. \<exists>t. i = Imp_global t) is)"
      by (rule length_pos_if_in_set)
    with build_externs_length [OF that] show "length es \<noteq> length is" by linarith
  qed
  then show ?thesis
    by (auto simp: wasmtime_runner_def assms(2) and_then_Ok)
qed

text \<open>An engine with one function and one global to import and two pages of memory.\<close>

definition sample_engine :: "nat \<Rightarrow> wasm_engine" where
  "sample_engine pages = \<lparr>we_imports = (\<lambda>bin. Some [Imp_func, Imp_global T_i32]),
     we_instantiate = (\<lambda>bin es. if length es = 2 then Some \<lparr>wi_memory = Some (replicate pages 0),
        wi_process = Some (\<lambda>mem a b. Some (mem, 0)), wi_url = Some (Val_i32 0)\<rparr> else None)\<rparr>"

text \<open>
  A script whose linear memory has fewer than 10240 bytes never succeeds, however small
  the fetched data is, because the runner reads a copy of that size back after writing it.
\<close>

lemma small_memory_never_runs:
  assumes "\<And>es inst. we_instantiate E bin es = Some inst \<Longrightarrow>
      (\<forall>mem. wi_memory inst = Some mem \<longrightarrow> length mem < 10240)"
  shows "\<forall>out. wasmtime_runner E net bin reg \<noteq> Ok out"
proof (intro allI notI)
  fix out
  assume "wasmtime_runner E net bin reg = Ok out"
  then obtain es inst mem json mem1 confirm where run: "we_instantiate E bin es = Some inst"
      "wi_memory inst = Some mem" "mem_write mem 0 json = Some mem1"
      "mem_read mem1 0 10240 = Some confirm"
    unfolding wasmtime_runner_def and_then_Ok ok_or_iffs expect_iffs by blast
  from run(4) have "10240 \<le> length mem1"
    by (simp add: mem_read_def split: if_splits)
  with mem_write_length [OF run(3)] have "10240 \<le> length mem" by simp
  with assms [OF run(1)] run(2) show False by simp
qed
text \<open>
  Reading a script's interface returns an error only for a description that does not
  parse; every failure of the run itself is a panic.
\<close>

lemma abi_reader_errors:
  "(\<exists>e. abi_reader parse_abi E net content bin = Err e) \<longleftrightarrow> parse_abi content = None"
proof (cases "parse_abi content")
  case (Some root)
  then show ?thesis
    by (cases "wasmtime_runner E net bin (build_registry root)") (simp_all add: abi_reader_def)
qed (simp add: abi_reader_def)

end
