(* ===== verification/Job_Pipeline.thy ===== *)
theory Job_Pipeline
  imports Job_Handover Wasmstore_Local Script_Output
begin

text \<open>
  The job pipeline end to end: the runtime's worker, the transactions it submits, the node's
  monitor, the script task and the listener composed into a round of a node, and the
  properties that span them: what a round sequence delivers, what the system can never do
  on its own, and what a transaction pool that wants tags makes of it.
\<close>

section \<open>A round of the node\<close>

text \<open>The block author applies what the worker submitted, in submission order.\<close>

definition include_pool ::
  "ws_config \<Rightarrow> ws_externals \<Rightarrow> ws_call list \<Rightarrow> ws_state \<Rightarrow> ws_state" where
  "include_pool cfg X calls s = run_calls (ws_dispatch cfg X []) (map (\<lambda>c. (Unsigned, c)) calls) s"

definition task_results ::
  "payload_codecs \<Rightarrow> (rust_string \<Rightarrow> bytes \<Rightarrow> (string, bytes) outcome) \<Rightarrow> nat
     \<Rightarrow> (bytes \<times> bytes option) list \<Rightarrow> job_result list" where
  "task_results C run elapsed tasks =
     List.map_filter (\<lambda>(k, p). case executor_task C run elapsed p of Ok r \<Rightarrow> r | _ \<Rightarrow> None) tasks"

text \<open>
  One sequential round: the worker runs, its transactions are included, the monitor makes one
  pass, every task finishes and the listener stores the results in order.
\<close>

definition node_round ::
  "ws_config \<Rightarrow> ws_externals \<Rightarrow> pool \<Rightarrow> (rust_string \<Rightarrow> bytes \<Rightarrow> (string, bytes) outcome) \<Rightarrow> nat \<Rightarrow> pubkey
     \<Rightarrow> (h256 \<times> ocw_job) list \<Rightarrow> ws_state \<times> worker \<Rightarrow> ws_state \<times> worker" where
  "node_round cfg X accept run elapsed pk jl sw =
     (let (s, w) = sw; C = ws_codecs X;
          w1 = snd (offchain_worker C accept (ws_block s) jl (w\<lparr>wk_pool := []\<rparr>));
          s1 = include_pool cfg X (wk_pool w1) s
      in case monitor_round (wk_db w1) of
           Ok (tasks, db2) \<Rightarrow>
             (s1, w1\<lparr>wk_db := fold (result_listener_round C pk) (task_results C run elapsed tasks) db2\<rparr>)
         | _ \<Rightarrow> (s1, w1))"

section \<open>Lemmas about the rounds\<close>

lemma worker_request_run:
  assumes "codec_laws C" "find active jl = Some (h, j)" "job_status j = Pending"
    and "accept (wk_pool w) (Change_job_state block h)" "request_fits (job_request C h j)"
    and "db_get (wk_db w) master_key = Some init_mark"
    and "db_get (wk_db w) master_result_key = Some init_mark"
  shows "offchain_worker C accept block jl w = (Returned,
     w\<lparr>wk_pool := wk_pool w @ [Change_job_state block h], wk_events := wk_events w @ [UnsignedTx block],
       wk_db := db_set (enc_hash C h) (enc_request C (job_request C h j))
         (db_set master_key (key_list_of [enc_hash C h]) (wk_db w))\<rparr>)"
  using offchain_worker_accepted [where accept = accept and C = C, OF assms(2-4,6,7)] assms(6)
  by (simp add: store_request_get [OF assms(1,5)] odb.cas_eq key_list_of_def)

lemma executor_task_Ok:
  assumes "codec_laws C" "request_fits p" "valid_utf8 (rq_content_abi p)"
    and "run (rq_content_abi p) (rq_job_content p) = Ok out"
  shows "executor_task C run elapsed (Some (enc_request C p)) =
     Ok (Some \<lparr>jr_job_id = rq_job_id p, jr_result = out, jr_ext_time = subsec_millis elapsed\<rparr>)"
  using assms codec_lawsD(1) [OF assms(1,2)] by (simp add: executor_task_def process_wasm_def)

lemma listener_db:
  assumes "jr_job_id r \<noteq> master_result_key" "db_get db master_result_key = Some rl"
  shows "result_listener_round C pk r db =
     db_set master_result_key (rl @ jr_job_id r)
       (db_set (jr_job_id r) (enc_response C (response_of pk r)) db)"
  using assms by (simp add: result_listener_round_def read_from_offchain_db_def odb.get_put)

text \<open>A round that takes a pending job: what it does to the chain and to the database.\<close>

lemma round_takes_job:
  assumes laws: "codec_laws (ws_codecs X)" and inv: "ws_inv cfg X s"
    and pool: "\<And>p c. accept p c"
    and head: "iterates jl s" "find active jl = Some (h, j)" "job_status j = Pending"
    and script: "valid_utf8 (job_wasm_abi j)" "run (job_wasm_abi j) (job_wasm_code j) = Ok out"
    and lists: "db_get (wk_db w) master_key = Some init_mark"
      "db_get (wk_db w) master_result_key = Some init_mark"
  shows "\<exists>w1. node_round cfg X accept run elapsed pk jl (s, w)
        = (include_pool cfg X [Change_job_state (ws_block s) h] s, w1)
     \<and> db_get (wk_db w1) master_key = Some init_mark
     \<and> db_get (wk_db w1) master_result_key = Some (init_mark @ enc_hash (ws_codecs X) h)
     \<and> db_get (wk_db w1) (enc_hash (ws_codecs X) h) = Some (enc_response (ws_codecs X)
          (response_of pk \<lparr>jr_job_id = enc_hash (ws_codecs X) h, jr_result = out,
             jr_ext_time = subsec_millis elapsed\<rparr>))"
proof -
  let ?C = "ws_codecs X"
  let ?k = "enc_hash ?C h"
  let ?p = "job_request ?C h j"
  let ?r = "\<lparr>jr_job_id = ?k, jr_result = out, jr_ext_time = subsec_millis elapsed\<rparr>"
  let ?db1 = "db_set ?k (enc_request ?C ?p) (db_set master_key (key_list_of [?k]) (wk_db w))"
  let ?db2 = "db_set master_key init_mark ?db1"
  note keys = enc_hash_keys [OF laws, of h]
  have fits: "request_fits ?p"
    by (rule job_request_fits [OF laws inv find_iterates [OF head(1,2)]])
  have worker1: "offchain_worker ?C accept (ws_block s) jl (w\<lparr>wk_pool := []\<rparr>) = (Returned,
      w\<lparr>wk_pool := [Change_job_state (ws_block s) h],
        wk_events := wk_events w @ [UnsignedTx (ws_block s)], wk_db := ?db1\<rparr>)"
    using worker_request_run [of ?C jl h j accept "w\<lparr>wk_pool := []\<rparr>" "ws_block s"]
      laws head pool fits lists by simp
  have monitor1: "monitor_round ?db1 = Ok ([(?k, Some (enc_request ?C ?p))], ?db2)"
    using monitor_round_tasks [of ?db1 "[?k]"] codec_lawsD(3) [OF laws, of h] keys
    by (simp add: odb.get_put)
  have task1: "executor_task ?C run elapsed (Some (enc_request ?C ?p)) = Ok (Some ?r)"
    using executor_task_Ok [OF laws fits, of run out elapsed] script by (simp add: job_request_def)
  have "result_listener_round ?C pk ?r ?db2 = db_set master_result_key (init_mark @ ?k)
      (db_set ?k (enc_response ?C (response_of pk ?r)) ?db2)"
    using listener_db [of ?r ?db2 init_mark ?C pk] keys lists by (simp add: odb.get_put)
  then show ?thesis
    using worker1 monitor1 task1 keys
    by (simp add: node_round_def task_results_def map_filter_simps odb.get_put Let_def)
qed

text \<open>A round in which a finished job heads the queue submits a single listed result.\<close>

lemma round_submits_result:
  assumes laws: "codec_laws (ws_codecs X)" and pool: "\<And>p c. accept p c"
    and head: "find active jl = Some (h, j)" "job_status j = Finish"
    and db: "db_get (wk_db w) master_key = Some kl"
      "db_get (wk_db w) master_result_key = Some (init_mark @ enc_hash (ws_codecs X) h)"
      "db_get (wk_db w) (enc_hash (ws_codecs X) h) = Some (enc_response (ws_codecs X) (response_of pk r))"
    and r: "response_fits (response_of pk r)" "jr_job_id r = enc_hash (ws_codecs X) h"
  shows "fst (node_round cfg X accept run elapsed pk' jl (s, w)) = include_pool cfg X
     [Submit_result_unsiged (ws_block s) (enc_hash (ws_codecs X) h) (jr_result r) pk (jr_ext_time r)] s"
proof -
  let ?C = "ws_codecs X"
  let ?k = "enc_hash ?C h"
  note keys = enc_hash_keys [OF laws, of h]
  have call: "result_call ?C (ws_block s) (wk_db w) ?k =
      Some (Submit_result_unsiged (ws_block s) ?k (jr_result r) pk (jr_ext_time r))"
    using db(3) codec_lawsD(2) [OF laws r(1)] r(2) by (simp add: result_call_def response_of_def)
  have chunk: "chunks 32 ?k = [?k]"
    by (rule chunks_one [OF codec_lawsD(3) [OF laws]]) simp
  have "wk_pool (snd (offchain_worker ?C accept (ws_block s) jl (w\<lparr>wk_pool := []\<rparr>)))
      = [Submit_result_unsiged (ws_block s) ?k (jr_result r) pk (jr_ext_time r)]"
    using offchain_worker_finish [OF head, of ?C accept "ws_block s" "w\<lparr>wk_pool := []\<rparr>"] keys db(1,2)
      chunk call
    by (simp add: handle_results_def ocw_do_handling_result_def submit_results_all [OF laws pool]
        map_filter_simps del: submit_results.simps)
  then show ?thesis
    by (simp add: node_round_def Let_def split: outcome.split prod.split)
qed

section \<open>Delivery\<close>

text \<open>
  C1: End-to-end delivery: a pending job that heads the queue, on a node with empty lists and
  an accepting pool, is taken by one round: the chain shows it as processing and the script
  has run. If someone then moves it to finished and it heads the queue, the next round puts
  exactly the script's output on chain, under the job and the node's key.
\<close>

theorem pipeline_delivers_result:
  assumes laws: "codec_laws (ws_codecs X)" and inv: "ws_inv cfg X s"
    and pool: "\<And>p c. accept p c"
    and head: "iterates jl s" "find active jl = Some (h, j)" "job_status j = Pending"
    and script: "valid_utf8 (job_wasm_abi j)" "run (job_wasm_abi j) (job_wasm_code j) = Ok out"
    and size: "length out \<le> unat (max_result_size cfg)"
    and lists: "db_get (wk_db w) master_key = Some init_mark"
      "db_get (wk_db w) master_result_key = Some init_mark"
    and round1: "node_round cfg X accept run elapsed pk jl (s, w) = (s1, w1)"
    and finished: "change_job_state Unsigned b h s1 = Ok s2"
    and head2: "find active jl2 = Some (h, j2)" "job_status j2 = Finish"
    and round2: "node_round cfg X accept run elapsed pk jl2 (s2, w1) = (s3, w3)"
  shows "map_option job_status (jobs s1 h) = Some Processing
     \<and> results s3 (h, pk) = Some \<lparr>result_data = out, ext_time = subsec_millis elapsed\<rparr>"
proof -
  let ?k = "enc_hash (ws_codecs X) h"
  let ?r = "\<lparr>jr_job_id = ?k, jr_result = out, jr_ext_time = subsec_millis elapsed\<rparr>"
  from round_takes_job [of X cfg s accept jl h j run out w elapsed pk, OF laws inv pool head script lists]
    round1 have s1: "s1 = include_pool cfg X [Change_job_state (ws_block s) h] s"
    and db: "db_get (wk_db w1) master_key = Some init_mark"
      "db_get (wk_db w1) master_result_key = Some (init_mark @ ?k)"
      "db_get (wk_db w1) ?k = Some (enc_response (ws_codecs X) (response_of pk ?r))"
    by auto
  have jobs1: "jobs s1 h = Some (advance_job j)"
    using find_iterates [OF head(1,2)] by (simp add: s1 include_pool_def change_job_state_def)
  then have jobs2: "jobs s2 h = Some (advance_job (advance_job j))"
    using finished by (auto simp: change_Ok_iff)
  have fin: "job_status (advance_job (advance_job j)) = Finish"
    using head(3) by (simp add: advance_job_def)
  have "unat (max_result_size cfg) < 2 ^ 32"
    using unsigned_less [of "max_result_size cfg", where 'a = nat] by simp
  then have "response_fits (response_of pk ?r)"
    using size codec_lawsD(3) [OF laws, of h] by (simp add: response_fits_def response_of_def fits_def)
  from round_submits_result [of X accept jl2 h j2 w1 init_mark pk ?r cfg run elapsed pk s2,
      OF laws pool head2 db this] round2
  have s3: "s3 = include_pool cfg X
      [Submit_result_unsiged (ws_block s2) ?k out pk (subsec_millis elapsed)] s2"
    by simp
  have "submit_result_unsiged cfg X Unsigned (ws_block s2) ?k out pk (subsec_millis elapsed) s2
      = Ok (s2\<lparr>results := (results s2)((h, pk) \<mapsto>
          \<lparr>result_data = out, ext_time = subsec_millis elapsed\<rparr>)\<rparr>)"
    using jobs2 fin size codec_lawsD(4) [OF laws, of h] by (simp add: submit_Ok_iff)
  then show ?thesis
    using jobs1 head(3) by (simp add: s3 include_pool_def advance_job_def)
qed

definition pipeline_job :: h256 where
  "pipeline_job = job_key sample_externals (sample_job Pending)"

definition pipeline_state :: ws_state where
  "pipeline_state = ws_genesis\<lparr>jobs := [pipeline_job \<mapsto> sample_job Pending]\<rparr>"

lemma pipeline_state_inv: "ws_inv runtime_ws_config sample_externals pipeline_state"
  by (simp add: ws_inv_def pipeline_state_def ws_genesis_def job_ok_def pipeline_job_def sample_job_def
      runtime_ws_config_def ascii_def)

theorem pipeline_delivers_result_witness:
  "\<exists>s1 w1 s2 s3 w3.
     node_round runtime_ws_config sample_externals (\<lambda>_ _. True) (\<lambda>_ _. Ok [1, 2]) 5000000 7
       [(pipeline_job, sample_job Pending)] (pipeline_state, sample_worker init_mark init_mark) = (s1, w1)
     \<and> change_job_state Unsigned 0 pipeline_job s1 = Ok s2
     \<and> node_round runtime_ws_config sample_externals (\<lambda>_ _. True) (\<lambda>_ _. Ok [1, 2]) 5000000 7
       [(pipeline_job, sample_job Finish)] (s2, w1) = (s3, w3)
     \<and> results s3 (pipeline_job, 7) = Some \<lparr>result_data = [1, 2], ext_time = subsec_millis 5000000\<rparr>"
proof -
  let ?X = sample_externals
  let ?acc = "\<lambda>(_ :: ws_call list) (_ :: ws_call). True"
  let ?run = "\<lambda>(_ :: rust_string) (_ :: bytes). (Ok [1, 2] :: (string, bytes) outcome)"
  let ?round = "\<lambda>st. node_round runtime_ws_config ?X ?acc ?run 5000000 7 [(pipeline_job, sample_job st)]"
  let ?w = "sample_worker init_mark init_mark"
  obtain s1 w1 where r1: "?round Pending (pipeline_state, ?w) = (s1, w1)" by fastforce
  obtain s2 where fin: "change_job_state Unsigned 0 pipeline_job s1 = Ok s2"
    by (simp add: change_job_state_def)
  obtain s3 w3 where r2: "?round Finish (s2, w1) = (s3, w3)" by fastforce
  have it: "iterates [(pipeline_job, sample_job Pending)] pipeline_state"
    by (simp add: iterates_def pipeline_state_def ws_genesis_def fun_eq_iff)
  have laws: "codec_laws (ws_codecs ?X)"
    using scale_codec_laws by (simp add: sample_externals_def)
  have utf: "valid_utf8 (job_wasm_abi (sample_job Pending))" by (simp add: sample_job_def)
  have "results s3 (pipeline_job, 7) = Some \<lparr>result_data = [1, 2], ext_time = subsec_millis 5000000\<rparr>"
    using pipeline_delivers_result [of ?X runtime_ws_config pipeline_state ?acc
        "[(pipeline_job, sample_job Pending)]" pipeline_job "sample_job Pending" ?run "[1, 2]" ?w
        5000000 7 s1 w1 0 s2 "[(pipeline_job, sample_job Finish)]" "sample_job Finish" s3 w3,
        OF laws pipeline_state_inv _ it _ _ utf _ _ _ _ r1 fin _ _ r2]
    by (simp add: runtime_ws_config_def)
  with r1 fin r2 show ?thesis by blast
qed

section \<open>What the system cannot do on its own\<close>

text \<open>
  The chain with the transactions that wait for inclusion, and nobody but users and workers
  acting: blocks start, users sign calls, a worker of any node runs in the current state
  and its transactions start to wait, a waiting transaction is included at any later time
  and in any order, or dropped. What the worker finds in its database, what the pool takes
  and what users ask for is arbitrary. The one condition is that no worker submits a state
  change for a job while another one for the same job still waits; transactions that are
  included before the next worker runs satisfy it.
\<close>

inductive closed_system ::
  "ws_config \<Rightarrow> ws_externals \<Rightarrow> ws_state \<times> ws_call list \<Rightarrow> bool" for cfg X where
  closed_start: "closed_system cfg X (ws_genesis, [])"
| closed_block: "closed_system cfg X (s, waiting) \<Longrightarrow> closed_system cfg X (s\<lparr>ws_block := n\<rparr>, waiting)"
| closed_user: "closed_system cfg X (s, waiting) \<Longrightarrow>
     ws_dispatch cfg X collators (Signed who, c) s = Ok s' \<Longrightarrow> closed_system cfg X (s', waiting)"
| closed_worker: "closed_system cfg X (s, waiting) \<Longrightarrow> iterates jl s \<Longrightarrow>
     offchain_worker (ws_codecs X) accept (ws_block s) jl (w\<lparr>wk_pool := []\<rparr>) = (e, w') \<Longrightarrow>
     (\<And>b b' h. Change_job_state b h \<in> set (wk_pool w') \<Longrightarrow> Change_job_state b' h \<notin> set waiting) \<Longrightarrow>
     closed_system cfg X (s, waiting @ wk_pool w')"
| closed_include: "closed_system cfg X (s, waiting @ c # later) \<Longrightarrow>
     ws_dispatch cfg X collators (Unsigned, c) s = Ok s' \<Longrightarrow> closed_system cfg X (s', waiting @ later)"
| closed_drop: "closed_system cfg X (s, waiting @ c # later) \<Longrightarrow> closed_system cfg X (s, waiting @ later)"

text \<open>The state changes for a job that wait.\<close>

definition changes_waiting :: "h256 \<Rightarrow> ws_call list \<Rightarrow> nat" where
  "changes_waiting h cs = length (filter (\<lambda>c. \<exists>b. c = Change_job_state b h) cs)"

lemma changes_waiting_simps [simp]:
  "changes_waiting h [] = 0"
  "changes_waiting h (c # cs) = (if \<exists>b. c = Change_job_state b h then 1 else 0) + changes_waiting h cs"
  "changes_waiting h (cs @ ds) = changes_waiting h cs + changes_waiting h ds"
  by (simp_all add: changes_waiting_def)

lemma no_changes_waiting: "changes_waiting h cs = 0 \<longleftrightarrow> (\<forall>b. Change_job_state b h \<notin> set cs)"
  by (auto simp: changes_waiting_def filter_empty_conv)

text \<open>Each job has at most one step ahead of it, which leads to processing.\<close>

definition unfinished :: "ws_state \<Rightarrow> bool" where
  "unfinished s \<longleftrightarrow> results s = Map.empty \<and>
     (\<forall>h j. jobs s h = Some j \<longrightarrow> job_status j = Pending \<or> job_status j = Processing)"

definition one_step :: "ws_state \<times> ws_call list \<Rightarrow> bool" where
  "one_step sw \<longleftrightarrow> unfinished (fst sw) \<and> (\<forall>h. changes_waiting h (snd sw) \<le>
     (case jobs (fst sw) h of Some j \<Rightarrow> if job_status j = Processing then 0 else 1 | None \<Rightarrow> 0))"

lemma unfinished_job: "unfinished s \<Longrightarrow> jobs s h = Some j \<Longrightarrow> job_status j \<noteq> Finish"
  by (fastforce simp: unfinished_def)

lemma drop_one_step: "one_step (s, cs @ c # ds) \<Longrightarrow> one_step (s, cs @ ds)"
  unfolding one_step_def changes_waiting_simps fst_conv snd_conv
  by (elim conjE, intro conjI allI, assumption, erule allE, rule order_trans [rotated], assumption) simp

lemma user_one_step:
  assumes "ws_dispatch cfg X collators (Signed who, c) s = Ok s'" "one_step (s, waiting)"
  shows "one_step (s', waiting)"
  using assms(1)
proof (cases rule: ws_dispatch_cases)
  case (request who name params d)
  with assms(2) show ?thesis
    by (fastforce simp: one_step_def unfinished_def new_job_def split: option.splits if_splits)
qed (use assms(2) in \<open>auto simp: one_step_def unfinished_def\<close>)

text \<open>An included transaction advances a pending job, or does nothing.\<close>

lemma include_one_step:
  assumes "ws_dispatch cfg X collators (Unsigned, c) s = Ok s'" "one_step (s, cs @ c # ds)"
  shows "one_step (s', cs @ ds)"
  using assms(1)
proof (cases rule: ws_dispatch_cases)
  case (change b k)
  have bound: "changes_waiting h cs + changes_waiting h ds + (if h = k then 1 else 0) \<le>
      (case jobs s h of Some j \<Rightarrow> if job_status j = Processing then 0 else 1 | None \<Rightarrow> 0)" for h
    using assms(2) change(1) by (auto simp: one_step_def split: if_splits dest: spec [of _ h])
  from bound [of k] obtain j where j: "jobs s k = Some j" "job_status j \<noteq> Processing"
    by (auto split: option.splits if_splits)
  with assms(2) have "job_status j = Pending"
    by (auto simp: one_step_def unfinished_def)
  with j change(2) bound assms(2) show ?thesis
    by (fastforce simp: one_step_def unfinished_def advance_job_def split: if_splits)
next
  case (submit b k v p t h job)
  with assms(2) unfinished_job show ?thesis by (auto simp: one_step_def)
qed (use drop_one_step [OF assms(2)] in auto)

text \<open>What a worker submits: at most one state change, for a job that it sees as pending.\<close>

lemma worker_pool_changes:
  assumes "unfinished s" "iterates jl s" "wk_pool w = []"
    and "offchain_worker C accept block jl w = (e, w')"
  shows "(\<forall>h. changes_waiting h (wk_pool w') = 0) \<or>
     (\<exists>k j. jobs s k = Some j \<and> job_status j = Pending
        \<and> (\<forall>h. changes_waiting h (wk_pool w') = (if h = k then 1 else 0)))"
proof -
  have submits: "changes_waiting h cs = 0"
    if "\<forall>c \<in> set cs. \<exists>b k v p t. c = Submit_result_unsiged b k v p t" for h cs
    using that by (auto simp: no_changes_waiting)
  have shape: "\<exists>cs. (\<forall>h. changes_waiting h cs = 0) \<and> wk_pool w' = wk_pool v @ cs"
    if "handle_results C accept block rk v = (e, w')" for rk v
    using handle_results_calls [OF that] submits by metis
  show ?thesis
  proof (cases "db_get (wk_db w) master_key = None \<or> db_get (wk_db w) master_result_key = None \<or> find active jl = None")
    case True
    then have "wk_pool w' = []"
      using assms(3,4) by (auto simp: offchain_worker_def handling_job_find split: option.splits)
    then show ?thesis by simp
  next
    case False
    then obtain kl rk h j where some: "db_get (wk_db w) master_key = Some kl"
        "db_get (wk_db w) master_result_key = Some rk" "find active jl = Some (h, j)" by auto
    have job: "jobs s h = Some j" by (rule find_iterates [OF assms(2) some(3)])
    then have pending: "job_status j = Pending"
      using unfinished_job [OF assms(1) job] find_active_Some(2) [OF some(3)] by auto
    show ?thesis
    proof (cases "accept (wk_pool w) (Change_job_state block h)")
      case True
      from offchain_worker_accepted [where accept = accept and C = C, OF some(3) pending True some(1,2)] assms(3,4) shape
      obtain cs where "wk_pool w' = [Change_job_state block h] @ cs" "\<forall>h. changes_waiting h cs = 0"
        by fastforce
      with job pending show ?thesis by auto
    next
      case False
      from offchain_worker_refused [where accept = accept and C = C, OF some(3) pending False some(1,2)] assms(3,4) shape
      have "\<forall>h. changes_waiting h (wk_pool w') = 0" by fastforce
      then show ?thesis by simp
    qed
  qed
qed

lemma worker_one_step:
  assumes "one_step (s, waiting)" "iterates jl s"
    and "offchain_worker C accept block jl (w\<lparr>wk_pool := []\<rparr>) = (e, w')"
    and "\<And>b b' h. Change_job_state b h \<in> set (wk_pool w') \<Longrightarrow> Change_job_state b' h \<notin> set waiting"
  shows "one_step (s, waiting @ wk_pool w')"
proof -
  have "unfinished s" using assms(1) by (simp add: one_step_def)
  from worker_pool_changes [OF this assms(2) _ assms(3)] have
    "(\<forall>h. changes_waiting h (wk_pool w') = 0) \<or> (\<exists>k j. jobs s k = Some j \<and> job_status j = Pending
        \<and> (\<forall>h. changes_waiting h (wk_pool w') = (if h = k then 1 else 0)))"
    by simp
  then show ?thesis
  proof (elim disjE exE conjE)
    fix k j
    assume k: "jobs s k = Some j" "job_status j = Pending"
      "\<forall>h. changes_waiting h (wk_pool w') = (if h = k then 1 else 0)"
    then have "changes_waiting k (wk_pool w') \<noteq> 0" by simp
    then have "changes_waiting k waiting = 0"
      using assms(4) unfolding no_changes_waiting by blast
    with k assms(1) show ?thesis
      by (auto simp: one_step_def)
  qed (use assms(1) in \<open>simp_all add: one_step_def\<close>)
qed

text \<open>
  C2: Left to itself the system never delivers, as long as no state change is submitted for
  a job for which another one still waits: whatever users request, however often and on
  however many nodes workers run, whatever their databases hold and pools take, and however
  the waiting transactions are delayed, reordered or dropped, no job ever becomes finished
  and no result ever reaches the chain. A job is moved past processing only by a transaction
  from outside the program, or when a worker runs again before the change of the one before
  it is included (C6 and C7).
\<close>

theorem closed_system_never_delivers:
  assumes "closed_system cfg X (s, waiting)"
  shows "results s = Map.empty \<and> (\<forall>h. map_option job_status (jobs s h) \<noteq> Some Finish)"
proof -
  have "one_step sw" if "closed_system cfg X sw" for sw
    using that
  proof induction
    case closed_start
    then show ?case by (simp add: one_step_def unfinished_def ws_genesis_def)
  next
    case (closed_block s waiting n)
    then show ?case by (simp add: one_step_def unfinished_def)
  next
    case (closed_user s waiting collators who c s')
    then show ?case using user_one_step by blast
  next
    case (closed_worker s waiting jl accept w e w')
    then show ?case using worker_one_step by blast
  next
    case (closed_include s waiting c later collators s')
    then show ?case using include_one_step by blast
  next
    case (closed_drop s waiting c later)
    then show ?case using drop_one_step by blast
  qed
  from this [OF assms] show ?thesis
    using unfinished_job [of s] by (auto simp: one_step_def unfinished_def)
qed

text \<open>A script is uploaded and requested, a worker runs, and its change is included in the next block.\<close>

theorem closed_system_never_delivers_witness:
  "\<exists>s h. closed_system runtime_ws_config sample_externals (s, [])
     \<and> map_option job_status (jobs s h) = Some Processing \<and> results s = Map.empty"
proof -
  let ?cfg = runtime_ws_config and ?X = sample_externals
  let ?n = "prefixed_name Executable [97]"
  obtain s1 where up: "upload_wasm ?cfg ?X (Signed 1) [97] Executable [0, 1] [2] ws_genesis = Ok s1"
    by (auto simp: upload_wasm_Ok_iff ws_genesis_def sample_simps)
  then have s1: "jobs s1 = Map.empty" "scripts s1 (script_key ?X ?n) = Some (uploaded ?X 1 ?n Executable [0, 1] [2] ws_genesis)"
    by (auto simp: upload_wasm_Ok_iff ws_genesis_def)
  obtain s2 where req: "request_script_execution ?cfg ?X (Signed 2) ?n None s1 = Ok s2"
    using s1 by (auto simp: request_Ok_iff sample_simps)
  then obtain h j where s2: "jobs s2 = [h \<mapsto> j]" "job_status j = Pending"
    using s1(1) by (auto simp: request_Ok_iff new_job_def)
  let ?w = "(sample_worker init_mark init_mark)\<lparr>wk_pool := []\<rparr>" and ?acc = "\<lambda>(_ :: ws_call list) (_ :: ws_call). True"
  have jl: "iterates [(h, j)] s2" "find active [(h, j)] = Some (h, j)"
    using s2 by (auto simp: iterates_def active_def)
  obtain e w' where run: "offchain_worker (ws_codecs ?X) ?acc (ws_block s2) [(h, j)] ?w = (e, w')"
    by fastforce
  with offchain_worker_accepted [where accept = ?acc and C = "ws_codecs ?X" and w = ?w, OF jl(2) s2(2)]
  have pool: "wk_pool w' = [Change_job_state (ws_block s2) h]"
    by auto
  have "closed_system ?cfg ?X (s1, [])"
    using closed_user [OF closed_start, of ?cfg ?X "[]" 1 "Upload_wasm [97] Executable [0, 1] [2]"] up by simp
  then have "closed_system ?cfg ?X (s2, [])"
    by (rule closed_user [where collators = "[]" and who = 2 and c = "Request_script_execution ?n None"]) (simp add: req)
  then have "closed_system ?cfg ?X (s2, [] @ wk_pool w')"
    by (rule closed_worker [OF _ jl(1) run]) simp
  then have "closed_system ?cfg ?X (s2, [] @ Change_job_state (ws_block s2) h # [])"
    by (simp add: pool)
  then have "closed_system ?cfg ?X (s2\<lparr>ws_block := 1\<rparr>, [] @ Change_job_state (ws_block s2) h # [])"
    by (rule closed_block)
  then have "closed_system ?cfg ?X (s2\<lparr>ws_block := 1, jobs := [h \<mapsto> advance_job j]\<rparr>, [] @ [])"
    by (rule closed_include [where collators = "[]"]) (simp add: change_Ok_iff s2(1))
  then have closed: "closed_system ?cfg ?X (s2\<lparr>ws_block := 1, jobs := [h \<mapsto> advance_job j]\<rparr>, [])"
    by simp
  with closed_system_never_delivers [OF closed] s2(2) show ?thesis
    by (intro exI [of _ "s2\<lparr>ws_block := 1, jobs := [h \<mapsto> advance_job j]\<rparr>"] exI [of _ h])
      (simp add: advance_job_def)
qed

section \<open>A pool that wants tags\<close>

text \<open>
  A pool may refuse transactions that provide no tag (\<open>sc-transaction-pool\<close> has the error
  \<open>NoTagsProvided\<close> for it); whether it also asks this of what the node's own workers submit
  is for the pool to say.
\<close>

definition wants_tags :: "ws_config \<Rightarrow> ws_externals \<Rightarrow> ws_state \<Rightarrow> pool \<Rightarrow> bool" where
  "wants_tags cfg X s accept \<longleftrightarrow>
     (\<forall>p c. accept p c \<longrightarrow> (\<exists>v. ws_validate_unsigned cfg X c s = Ok v \<and> vt_provides v \<noteq> []))"

lemma validate_provides_nothing:
  "ws_validate_unsigned cfg X c s = Ok v \<Longrightarrow> vt_provides v = []"
  by (cases c) (auto simp: validate_unsiged_transaction_def and_then_Ok split: if_splits)

lemma submit_results_refused:
  assumes "\<And>p c. \<not> accept p c"
  shows "snd (submit_results C accept block ks w) = w"
  using assms
  by (induction ks) (auto simp: ocw_do_submit_result_def submit_and_report_def
      submit_unsigned_transaction_def split: option.split)

text \<open>
  The validation of the wasmstore pallet declares no tag for its unsigned transactions,
  so a pool that insists on tags refuses every transaction of the worker: a run submits
  nothing, whatever the queue, the database and the results hold.
\<close>

lemma tagged_pool_refuses_worker:
  assumes "wants_tags cfg X s accept"
  shows "wk_pool (snd (offchain_worker C accept block jl w)) = wk_pool w"
proof -
  have no: "\<not> accept p c" for p c
    using assms validate_provides_nothing unfolding wants_tags_def by blast
  have hr: "wk_pool (snd (handle_results C accept block rk v)) = wk_pool v" for rk v
    using submit_results_refused [of accept C block _ v] no
    by (simp add: handle_results_def split: outcome.split)
  show ?thesis
    using no by (auto simp: offchain_worker_def handling_job_find hr split: option.split)
qed

end
