(* ===== verification/Payload_Confusion.thy ===== *)
theory Payload_Confusion
  imports Scale_Format
begin

text \<open>
  Requests and responses share a key: the worker stores the request under the key of the
  job, the listener overwrites it with the response (\<open>model/src/lib.rs\<close>,
  \<open>scripts_exec_manager.rs\<close>), and nothing in the bytes says which of the two they are. This
  theory decides, for the SCALE format, when one is read as the other: a finished response is
  never read as a request, and a pending request is read as a response exactly when the
  length of its interface description is a positive multiple of 64 or at least \<open>2 ^ 30\<close>.
\<close>

section \<open>A response read as a request\<close>

lemma dec_pair_enc:
  assumes "codec ea da oka" "oka a"
  shows "dec_pair da db (ea a @ r) = (case db r of None \<Rightarrow> None | Some (b, r') \<Rightarrow> Some ((a, b), r'))"
  using codec.dec_enc [OF assms(1,2), of r] by (simp add: dec_pair_def)

lemmas dec_pair_vec = dec_pair_enc [OF vec.codec_axioms]

text \<open>
  The state \<open>Finish\<close> is the byte 3, which as a length announces a number of four bytes that
  is at least \<open>2 ^ 30\<close>: far more than the address and the time that follow.
\<close>

lemma dec_vec_big_mode:
  assumes "length r < 2 ^ 30"
  shows "dec_vec (3 # r) = None"
proof -
  have "dec_compact (3 # r) =
      (if 4 \<le> length r \<and> 2 ^ 30 \<le> unat (of_le_bytes (take 4 r) :: u32)
       then Some (unat (of_le_bytes (take 4 r) :: u32), drop 4 r) else None)"
    by (simp add: dec_compact_def Let_def)
  then show ?thesis
    using assms by (auto simp: dec_vec_def split: option.splits if_splits)
qed

lemma response_never_request:
  assumes "response_fits p" "rs_job_state p = Finish"
  shows "scale_dec_request (scale_enc_response p) = None"
proof -
  have "dec_pair dec_vec dec_job_state (3 # h256_bytes (rs_address p) @ enc_u32 (rs_exe_time p)) = None"
    using dec_vec_big_mode [of "h256_bytes (rs_address p) @ enc_u32 (rs_exe_time p)"]
    by (simp add: dec_pair_def enc_u32_def)
  then show ?thesis
    using assms
    by (simp add: scale_dec_request_def scale_enc_response_def response_fits_def dec_pair_vec)
qed

section \<open>A request read as a response\<close>

text \<open>
  The first byte of a length below \<open>2 ^ 30\<close> holds the mode in its low two bits, and the low
  six bits of the length above them; read as a state it is one of the four only if those six
  bits are zero.
\<close>

definition compact_mode :: "nat \<Rightarrow> nat" where
  "compact_mode n = (if n < 2 ^ 6 then 0 else if n < 2 ^ 14 then 1 else 2)"

lemma le_bytes_head:
  assumes "8 \<le> LENGTH('a)" "0 < k"
  shows "\<exists>b r. le_bytes k (w :: 'a::len word) = b # r \<and> unat b = unat w mod 256"
  using assms by (cases k) (simp_all add: unat_ucast_byte)

lemma enc_compact_head:
  assumes "n < 2 ^ 30"
  obtains b r where "enc_compact n = b # r" "unat b = (4 * n + compact_mode n) mod 256"
    "n = 0 \<longrightarrow> r = []"
proof -
  have small: "unat (of_nat (4 * n) :: byte) = 4 * n" if "n < 2 ^ 6"
    using that by (intro unat_of_nat_small) simp
  have two: "unat (of_nat (4 * n + 1) :: u16) = 4 * n + 1" if "n < 2 ^ 14"
    using that by (intro unat_of_nat_small) simp
  have four: "unat (of_nat (4 * n + 2) :: u32) = 4 * n + 2"
    using assms by (intro unat_of_nat_small) simp
  consider "n < 2 ^ 6" | "2 ^ 6 \<le> n" "n < 2 ^ 14" | "2 ^ 14 \<le> n"
    by linarith
  then have "\<exists>b r. enc_compact n = b # r \<and> unat b = (4 * n + compact_mode n) mod 256 \<and> (n = 0 \<longrightarrow> r = [])"
  proof cases
    case 1
    then show ?thesis
      using small by (simp add: enc_compact_def compact_mode_def)
  next
    case 2
    then show ?thesis
      using le_bytes_head [of 2 "of_nat (4 * n + 1) :: u16"] two
      by (auto simp: enc_compact_def compact_mode_def simp del: le_bytes.simps)
  next
    case 3
    then show ?thesis
      using le_bytes_head [of 4 "of_nat (4 * n + 2) :: u32"] four assms
      by (auto simp: enc_compact_def compact_mode_def simp del: le_bytes.simps)
  qed
  then show ?thesis using that by blast
qed

lemma dec_job_state_Some:
  "(\<exists>st r. dec_job_state (b # bs) = Some (st, r)) \<longleftrightarrow> unat b \<le> 3"
  "dec_job_state (b # bs) = Some (st, r) \<Longrightarrow> r = bs"
proof -
  have "unat b \<le> 3 \<longleftrightarrow> unat b = 0 \<or> unat b = 1 \<or> unat b = 2 \<or> unat b = 3"
    by auto
  then show "(\<exists>st r. dec_job_state (b # bs) = Some (st, r)) \<longleftrightarrow> unat b \<le> 3"
    by (simp add: dec_job_state_def word_unat_eq_iff)
qed (auto simp: dec_job_state_def split: if_splits)

lemma mode_low_byte: "(4 * n + compact_mode n) mod 256 \<le> 3 \<longleftrightarrow> 64 dvd n"
proof -
  have m: "compact_mode n \<le> 2" by (simp add: compact_mode_def)
  have "(4 * n + compact_mode n) mod 256 = 4 * (n mod 64) + compact_mode n"
  proof -
    have "4 * n + compact_mode n = 4 * (n mod 64) + compact_mode n + 256 * (n div 64)"
      by (subst (1) div_mult_mod_eq [of n 64, symmetric]) algebra
    then have "(4 * n + compact_mode n) mod 256 = (4 * (n mod 64) + compact_mode n) mod 256"
      by (simp only: mod_mult_self2)
    moreover have "4 * (n mod 64) + compact_mode n < 256"
      using m mod_less_divisor [of 64 n] by linarith
    ultimately show ?thesis by (simp only: mod_less)
  qed
  then show ?thesis
    using m by (auto simp: dvd_eq_mod_eq_0)
qed

text \<open>
  The state that a description of length \<open>n\<close> is read as, when it is read as one: the mode of
  its length field. What follows the mode byte is read as address and time.
\<close>

definition read_state :: "nat \<Rightarrow> job_state" where
  "read_state n = (if n < 2 ^ 14 then Pending else if n < 2 ^ 30 then Processing else Finish)"

definition confusable :: "bytes \<Rightarrow> bool" where
  "confusable abi \<longleftrightarrow> abi \<noteq> [] \<and> 64 dvd length abi \<or> 2 ^ 30 \<le> length abi"

lemma confusable_long: "confusable abi \<Longrightarrow> 64 \<le> length abi"
  by (auto simp: confusable_def dest: dvd_imp_le)

lemma length_field_state:
  assumes "enc_compact (length abi) = b # r" "abi \<noteq> []"
  shows "dec_job_state (b # bs) = (if confusable abi then Some (read_state (length abi), bs) else None)"
proof (cases "length abi < 2 ^ 30")
  case True
  from enc_compact_head [OF this] assms(1)
  have b: "unat b = (4 * length abi + compact_mode (length abi)) mod 256" by auto
  show ?thesis
  proof (cases "64 dvd length abi")
    case d: True
    then obtain k where "length abi = 64 * k" by auto
    then have "4 * length abi + compact_mode (length abi) = compact_mode (length abi) + k * 256" by simp
    then have "unat b = compact_mode (length abi)"
      unfolding b by (simp add: compact_mode_def)
    moreover have "64 \<le> length abi"
      using d assms(2) by (auto dest: dvd_imp_le)
    ultimately have "b = (if length abi < 2 ^ 14 then 1 else 2)"
      by (simp add: compact_mode_def word_unat_eq_iff)
    with True d assms(2) show ?thesis
      by (simp add: dec_job_state_def confusable_def read_state_def)
  next
    case False
    then have "\<not> unat b \<le> 3" unfolding b using mode_low_byte by blast
    with dec_job_state_Some(1) [of b bs] True False show ?thesis
      by (cases "dec_job_state (b # bs)") (auto simp: confusable_def)
  qed
next
  case False
  then have "b = 3" using assms(1) by (simp add: enc_compact_def)
  with False show ?thesis
    by (simp add: dec_job_state_def confusable_def read_state_def)
qed

lemma dec_address_time:
  assumes "36 \<le> length xs"
  shows "dec_pair dec_h256 dec_u32 (xs @ ys) =
     Some ((h256_of_bytes (take 32 xs), of_le_bytes (take 4 (drop 32 xs))), drop 36 xs @ ys)"
  using assms by (simp add: dec_pair_def dec_h256_def dec_u32_def del: of_le_bytes.simps)

lemma le_bytes_nonempty: "0 < k \<Longrightarrow> le_bytes k w \<noteq> []"
  by (cases k) auto

lemma enc_compact_Cons: "\<exists>b r. enc_compact n = b # r"
proof -
  have "enc_compact n \<noteq> []" by (simp add: enc_compact_def le_bytes_nonempty)
  then show ?thesis by (cases "enc_compact n") auto
qed

lemma confused_response:
  assumes "request_fits p" and head: "enc_compact (length (rq_content_abi p)) = b # r"
  shows "scale_dec_response (scale_enc_request p) =
     (if confusable (rq_content_abi p)
      then Some \<lparr>rs_job_id = rq_job_id p, rs_job_result = rq_job_content p,
        rs_job_state = read_state (length (rq_content_abi p)),
        rs_address = h256_of_bytes (take 32 (r @ rq_content_abi p)),
        rs_exe_time = of_le_bytes (take 4 (drop 32 (r @ rq_content_abi p)))\<rparr>
      else None)"
proof -
  let ?abi = "rq_content_abi p"
  let ?rest = "r @ ?abi @ enc_job_state (rq_job_state p)"
  have one: "length (enc_job_state st) = 1" for st by (cases st) auto
  have tail: "enc_vec ?abi @ enc_job_state (rq_job_state p) = b # ?rest"
    by (simp add: enc_vec_def head)
  have dec: "scale_dec_response (scale_enc_request p) =
      (case dec_pair dec_job_state (dec_pair dec_h256 dec_u32) (b # ?rest) of None \<Rightarrow> None
       | Some ((st, a, t), r') \<Rightarrow> Some \<lparr>rs_job_id = rq_job_id p, rs_job_result = rq_job_content p,
           rs_job_state = st, rs_address = a, rs_exe_time = t\<rparr>)"
    using assms(1) tail
    by (simp add: scale_dec_response_def scale_enc_request_def request_fits_def dec_pair_vec
        split: option.splits)
  consider "?abi = []" | "?abi \<noteq> []" "\<not> confusable ?abi" | "?abi \<noteq> []" "confusable ?abi"
    by blast
  then show ?thesis
  proof cases
    case 1
    then have "r = []" "b = 0" using head by (simp_all add: enc_compact_def)
    with 1 dec one show ?thesis
      by (simp add: dec_pair_def dec_job_state_def dec_h256_def confusable_def)
  next
    case 2
    with length_field_state [OF head 2(1), of ?rest] dec show ?thesis
      by (simp add: dec_pair_def [of dec_job_state])
  next
    case 3
    have "64 \<le> length ?abi" by (rule confusable_long [OF 3(2)])
    then have "36 \<le> length (r @ ?abi)" by simp
    from dec_address_time [OF this, of "enc_job_state (rq_job_state p)"]
    show ?thesis
      using 3 length_field_state [OF head 3(1), of ?rest] dec
      by (simp add: dec_pair_def [of dec_job_state] del: of_le_bytes.simps)
  qed
qed

text \<open>Within the bounds of the runtime only the multiples of 64 matter.\<close>

lemma request_read_as_response_cases:
  assumes "request_fits p" "length (rq_content_abi p) < 2 ^ 30"
  shows "(case scale_dec_response (scale_enc_request p) of
       None \<Rightarrow> rq_content_abi p = [] \<or> \<not> 64 dvd length (rq_content_abi p)
     | Some r \<Rightarrow> rq_content_abi p \<noteq> [] \<and> 64 dvd length (rq_content_abi p)
         \<and> rs_job_id r = rq_job_id p \<and> rs_job_result r = rq_job_content p)"
proof -
  obtain b r where "enc_compact (length (rq_content_abi p)) = b # r"
    using enc_compact_Cons by blast
  from confused_response [OF assms(1) this] assms(2) show ?thesis
    by (auto simp: confusable_def)
qed

text \<open>
  C15: A stored request can be taken for a response, and then its sender controls what it
  says. For every request that can be encoded, the decoder of responses accepts the bytes
  exactly when the length of the interface description is a positive multiple of 64, or at
  least \<open>2 ^ 30\<close> (which the runtime's bounds exclude). The response it reads names the
  requested job; its result is the script's own code, its state is given by the size of the
  length field, and its address and time are the rest of that field and the first bytes of
  the description.
\<close>

theorem request_read_as_response:
  assumes "request_fits p"
  shows "scale_dec_response (scale_enc_request p) =
     (let abi = rq_content_abi p; t = tl (enc_compact (length abi)) @ abi in
      if confusable abi
      then Some \<lparr>rs_job_id = rq_job_id p, rs_job_result = rq_job_content p,
        rs_job_state = read_state (length abi), rs_address = h256_of_bytes (take 32 t),
        rs_exe_time = of_le_bytes (take 4 (drop 32 t))\<rparr>
      else None)"
proof -
  obtain b r where head: "enc_compact (length (rq_content_abi p)) = b # r"
    using enc_compact_Cons by blast
  from confused_response [OF assms this] show ?thesis
    by (simp add: head Let_def del: of_le_bytes.simps)
qed

theorem request_read_as_response_witness:
  "map_option (\<lambda>r. (rs_job_result r, rs_job_state r, rs_address r = h256_of_bytes (replicate 32 1)))
     (scale_dec_response (scale_enc_request \<lparr>rq_job_id = [9], rq_job_content = [5, 6],
        rq_content_abi = replicate 64 1, rq_job_state = Processing\<rparr>))
   = Some ([5, 6], Pending, True)"
proof -
  let ?p = "\<lparr>rq_job_id = [9], rq_job_content = [5, 6], rq_content_abi = replicate 64 1, rq_job_state = Processing\<rparr>"
  have fits: "request_fits ?p"
    by (simp add: request_fits_def fits_def)
  have "confusable (replicate 64 (1 :: byte))"
    by (simp add: confusable_def)
  moreover have "tl (enc_compact 64) = [1]"
    by code_simp
  moreover have "(1 :: byte) # replicate 31 1 = replicate 32 1"
    by (simp add: numeral_eq_Suc)
  ultimately show ?thesis
    unfolding request_read_as_response [OF fits] Let_def
    by (simp add: read_state_def del: replicate_Suc replicate.simps of_le_bytes.simps)
qed

end
