(* ===== verification/Job_System.thy ===== *)
theory Job_System
  imports Job_Pipeline Payload_Confusion
begin

text \<open>
  The whole job system of one node as a single step relation: the chain with everybody's
  calls, the hand-over of theory \<open>Job_Handover\<close> at single database accesses, the running
  script tasks, the channel to the listener (\<open>mpsc::channel(20)\<close> in
  \<open>node/src/scripts_exec_manager.rs\<close>), the listener at single accesses, the workers that
  submit listed results, and restarts of the node. It is an over-approximation of the
  program: steps of different parts interleave freely.
\<close>

section \<open>State and steps\<close>

text \<open>
  The listener between its accesses: the two writes it makes read the key first, then
  compare and set.
\<close>

datatype listener_pc =
    L_idle
  | L_storing job_result "bytes option"
  | L_stored job_result
  | L_read job_result bytes
  | L_appending job_result bytes "bytes option"

record job_system =
  js_chain :: ws_state
  js_handover :: handover
  js_channel :: "job_result list"
  js_listener :: listener_pc
  js_key :: pubkey
  js_to_submit :: "bytes list"
  js_submitted :: "ws_call list"

abbreviation js_db :: "job_system \<Rightarrow> offchain_db" where
  "js_db s \<equiv> ho_db (js_handover s)"

abbreviation set_db :: "offchain_db \<Rightarrow> handover \<Rightarrow> handover" where
  "set_db db h \<equiv> h\<lparr>ho_db := db\<rparr>"

text \<open>
  What a worker hands over: a job of the chain, with its request. The job was pending in the
  block the worker looked at; by the time it writes, the chain may have moved on.
\<close>

definition handed_over :: "payload_codecs \<Rightarrow> ws_state \<Rightarrow> bytes \<Rightarrow> bytes \<Rightarrow> bool" where
  "handed_over C s k v \<longleftrightarrow>
     (\<exists>h j. jobs s h = Some j \<and> k = enc_hash C h \<and> v = enc_request C (job_request C h j))"

definition booted :: "ws_state \<Rightarrow> offchain_db \<Rightarrow> pubkey \<Rightarrow> ws_call list \<Rightarrow> job_system" where
  "booted s db pk cs =
     \<lparr>js_chain = s,
      js_handover = \<lparr>ho_db = db, ho_workers = [], ho_monitor = M_idle, ho_tasks = []\<rparr>,
      js_channel = [], js_listener = L_idle, js_key = pk, js_to_submit = [], js_submitted = cs\<rparr>"

text \<open>
  \<open>run n\<close> is the \<open>n\<close>-th run of a script: scripts read the network, so two runs of the same
  script may differ. \<open>js_to_submit\<close> is what the workers under way still have to submit, and
  \<open>js_submitted\<close> what the node has submitted.
\<close>

inductive system_reach ::
  "ws_config \<Rightarrow> ws_externals \<Rightarrow> (nat \<Rightarrow> rust_string \<Rightarrow> bytes \<Rightarrow> (string, bytes) outcome)
     \<Rightarrow> job_system \<Rightarrow> bool" for cfg X run where
  js_boot: "run_executor raw pks (Some Map.empty) = Ok (db, pk) \<Longrightarrow>
     system_reach cfg X run (booted ws_genesis db pk [])"
| js_restart: "system_reach cfg X run s \<Longrightarrow> run_executor raw pks (Some (js_db s)) = Ok (db, pk) \<Longrightarrow>
     system_reach cfg X run (booted (js_chain s) db pk (js_submitted s))"
| js_calls: "system_reach cfg X run s \<Longrightarrow>
     system_reach cfg X run (s\<lparr>js_chain := ws_run cfg X collators steps (js_chain s)\<rparr>)"
| js_hand: "system_reach cfg X run s \<Longrightarrow>
     handover_step (handed_over (ws_codecs X) (js_chain s)) (js_handover s) t \<Longrightarrow>
     system_reach cfg X run (s\<lparr>js_handover := t\<rparr>)"
| js_task: "system_reach cfg X run s \<Longrightarrow> (k, p) \<in> set (ho_tasks (js_handover s)) \<Longrightarrow>
     executor_task (ws_codecs X) (run n) elapsed p = Ok (Some r) \<Longrightarrow> length (js_channel s) < 20 \<Longrightarrow>
     system_reach cfg X run (s\<lparr>js_channel := js_channel s @ [r]\<rparr>)"
| js_receive: "system_reach cfg X run s \<Longrightarrow> js_listener s = L_idle \<Longrightarrow> js_channel s = r # rs \<Longrightarrow>
     system_reach cfg X run (s\<lparr>js_channel := rs, js_listener := L_storing r (db_get (js_db s) (jr_job_id r))\<rparr>)"
| js_store: "system_reach cfg X run s \<Longrightarrow> js_listener s = L_storing r seen \<Longrightarrow>
     system_reach cfg X run (s\<lparr>js_listener := L_stored r,
       js_handover := set_db (snd (write_after_read seen (jr_job_id r)
         (enc_response (ws_codecs X) (response_of (js_key s) r)) (js_db s))) (js_handover s)\<rparr>)"
| js_look: "system_reach cfg X run s \<Longrightarrow> js_listener s = L_stored r \<Longrightarrow>
     system_reach cfg X run (s\<lparr>js_listener :=
       (case read_from_offchain_db (js_db s) WASMSTORE_RESULT_LIST of None \<Rightarrow> L_idle | Some v \<Rightarrow> L_read r v)\<rparr>)"
| js_reread: "system_reach cfg X run s \<Longrightarrow> js_listener s = L_read r v \<Longrightarrow>
     system_reach cfg X run (s\<lparr>js_listener := L_appending r v (db_get (js_db s) WASMSTORE_RESULT_LIST)\<rparr>)"
| js_append: "system_reach cfg X run s \<Longrightarrow> js_listener s = L_appending r v seen \<Longrightarrow>
     system_reach cfg X run (s\<lparr>js_listener := L_idle,
       js_handover := set_db (snd (write_after_read seen WASMSTORE_RESULT_LIST (v @ jr_job_id r) (js_db s)))
         (js_handover s)\<rparr>)"
| js_results: "system_reach cfg X run s \<Longrightarrow> db_get (js_db s) master_result_key = Some rv \<Longrightarrow>
     ocw_do_handling_result rv = Ok ks \<Longrightarrow> system_reach cfg X run (s\<lparr>js_to_submit := js_to_submit s @ ks\<rparr>)"
| js_submit: "system_reach cfg X run s \<Longrightarrow> js_to_submit s = us @ k # vs \<Longrightarrow>
     result_call (ws_codecs X) b (js_db s) k = Some c \<Longrightarrow>
     system_reach cfg X run (s\<lparr>js_to_submit := us @ vs, js_submitted := js_submitted s @ [c]\<rparr>)"
| js_skip: "system_reach cfg X run s \<Longrightarrow> js_to_submit s = us @ k # vs \<Longrightarrow>
     system_reach cfg X run (s\<lparr>js_to_submit := us @ vs\<rparr>)"

text \<open>Workers that give up, or panic, leave what they have not submitted.\<close>

lemma js_stop: "system_reach cfg X run s \<Longrightarrow> system_reach cfg X run (s\<lparr>js_to_submit := []\<rparr>)"
proof (induction "js_to_submit s" arbitrary: s)
  case Nil
  then show ?case by (cases s) simp
next
  case (Cons k ks)
  from Cons.hyps(1) [of "s\<lparr>js_to_submit := ks\<rparr>"] js_skip [OF Cons.prems, of "[]" k ks] Cons.hyps(2)
  show ?case by simp
qed

lemma write_after_own_read: "write_after_read (db_get db k) k v db = (Ok (), db_set k v db)"
  using write_uninterrupted unfolding write_to_offchain_db_def .

text \<open>The listener's steps, when nothing comes between them, are \<open>result_listener_round\<close>.\<close>

lemma listener_steps:
  assumes "system_reach cfg X run s" "js_listener s = L_idle" "js_channel s = r # rs"
  shows "system_reach cfg X run (s\<lparr>js_channel := rs,
     js_handover := set_db (result_listener_round (ws_codecs X) (js_key s) r (js_db s)) (js_handover s)\<rparr>)"
proof -
  let ?db1 = "db_set (jr_job_id r) (enc_response (ws_codecs X) (response_of (js_key s) r)) (js_db s)"
  let ?s1 = "s\<lparr>js_channel := rs, js_listener := L_stored r, js_handover := set_db ?db1 (js_handover s)\<rparr>"
  have s1: "system_reach cfg X run ?s1"
    using js_store [OF js_receive [OF assms]] by (simp add: write_after_own_read)
  show ?thesis
  proof (cases "db_get ?db1 master_result_key")
    case None
    with js_look [OF s1] assms(2) show ?thesis
      by (cases s) (simp add: read_from_offchain_db_def result_listener_round_def Let_def)
  next
    case (Some v)
    have "system_reach cfg X run (?s1\<lparr>js_listener := L_read r v\<rparr>)"
      using js_look [OF s1] Some by (simp add: read_from_offchain_db_def)
    then have "system_reach cfg X run (?s1\<lparr>js_listener := L_appending r v (Some v)\<rparr>)"
      using js_reread [of cfg X run "?s1\<lparr>js_listener := L_read r v\<rparr>"] Some by simp
    then have "system_reach cfg X run (?s1\<lparr>js_listener := L_idle,
        js_handover := set_db (db_set master_result_key (v @ jr_job_id r) ?db1) (js_handover s)\<rparr>)"
      using js_append [of cfg X run "?s1\<lparr>js_listener := L_appending r v (Some v)\<rparr>"] Some
      by (simp add: write_after_read_def odb.cas_eq)
    with assms(2) Some show ?thesis
      by (cases s) (simp add: read_from_offchain_db_def result_listener_round_def Let_def)
  qed
qed

section \<open>What is genuine\<close>

definition produced ::
  "payload_codecs \<Rightarrow> (nat \<Rightarrow> rust_string \<Rightarrow> bytes \<Rightarrow> (string, bytes) outcome) \<Rightarrow> ws_state
     \<Rightarrow> bytes \<Rightarrow> bytes \<Rightarrow> bool" where
  "produced C run s k v \<longleftrightarrow>
     (\<exists>h j n. jobs s h = Some j \<and> k = enc_hash C h
        \<and> run n (job_wasm_abi j) (job_wasm_code j) = Ok v)"

text \<open>What a key of a job may hold: the job's request or a genuine response.\<close>

definition job_entry ::
  "payload_codecs \<Rightarrow> (nat \<Rightarrow> rust_string \<Rightarrow> bytes \<Rightarrow> (string, bytes) outcome) \<Rightarrow> ws_state
     \<Rightarrow> bytes \<Rightarrow> bytes \<Rightarrow> bool" where
  "job_entry C run s k v \<longleftrightarrow>
     (\<exists>h j. jobs s h = Some j \<and> k = enc_hash C h \<and> v = enc_request C (job_request C h j)) \<or>
     (\<exists>r pk. produced C run s k (jr_result r) \<and> jr_job_id r = k \<and> v = enc_response C (response_of pk r))"

text \<open>A submitted call carries a genuine result, or the code of a job with a confusable interface.\<close>

definition submission_ok ::
  "payload_codecs \<Rightarrow> (nat \<Rightarrow> rust_string \<Rightarrow> bytes \<Rightarrow> (string, bytes) outcome) \<Rightarrow> ws_state
     \<Rightarrow> ws_call \<Rightarrow> bool" where
  "submission_ok C run s c \<longleftrightarrow>
     (\<exists>b k v p t. c = Submit_result_unsiged b k v p t \<and>
        (produced C run s k v \<or>
         (\<exists>h j. jobs s h = Some j \<and> k = enc_hash C h \<and> v = job_wasm_code j
            \<and> job_wasm_abi j \<noteq> [] \<and> 64 dvd length (job_wasm_abi j))))"

lemma job_request_state [simp]: "job_request C h (j\<lparr>job_status := st\<rparr>) = job_request C h j"
  by (simp add: job_request_def)

lemma produced_progress: "ws_progress s t \<Longrightarrow> produced C run s k v \<Longrightarrow> produced C run t k v"
  unfolding produced_def by (elim exE conjE) (drule (1) ws_progress_job, fastforce)

lemma job_entry_progress: "ws_progress s t \<Longrightarrow> job_entry C run s k v \<Longrightarrow> job_entry C run t k v"
  unfolding job_entry_def
  by (elim disjE exE conjE) (drule (1) ws_progress_job, fastforce, blast intro: produced_progress)

lemma submission_ok_progress:
  "ws_progress s t \<Longrightarrow> submission_ok C run s c \<Longrightarrow> submission_ok C run t c"
  unfolding submission_ok_def
  by (elim disjE exE conjE) (blast intro: produced_progress, drule (1) ws_progress_job, fastforce)

section \<open>The hand-over under larger relations and other writers\<close>

lemma handover_step_mono: "handover_step R s t \<Longrightarrow> R \<le> R' \<Longrightarrow> handover_step R' s t"
  by (induction rule: handover_step.induct) (blast intro: handover_intros dest: predicate2D)+

lemma handover_inv_mono: "handover_inv R s \<Longrightarrow> R \<le> R' \<Longrightarrow> handover_inv R' s"
  unfolding handover_inv_def le_fun_def le_bool_def
  by (auto split: worker_pc.splits monitor_pc.splits)

lemma result_key_neq [simp]:
  "length k = 32 \<Longrightarrow> k \<noteq> master_result_key" "length k = 32 \<Longrightarrow> master_result_key \<noteq> k"
  "[] \<noteq> master_result_key" "master_result_key \<noteq> []"
  by (rule neq_by_length, assumption, rule db_keys, simp,
      rule neq_by_length, rule db_keys, assumption, simp,
      metis db_keys(2) list.size(3) zero_neq_numeral,
      metis db_keys(2) list.size(3) zero_neq_numeral)

lemma handover_inv_write:
  assumes "handover_inv R h" "length k = 32 \<and> R k v \<or> k = master_result_key"
  shows "handover_inv R (set_db (snd (write_after_read seen k v (ho_db h))) h)"
  using assms by (auto simp: handover_inv_def write_after_read_get)

lemma handover_keeps_results:
  assumes "handover_step R s t" "handover_inv R s"
  shows "db_get (ho_db t) master_result_key = db_get (ho_db s) master_result_key"
  using assms
  by (cases rule: handover_step.cases)
    (auto simp: handover_inv_def odb.cas_get odb.get_put write_after_read_get)

section \<open>The invariant\<close>

fun listener_ok :: "(job_result \<Rightarrow> bool) \<Rightarrow> listener_pc \<Rightarrow> bool" where
  "listener_ok P L_idle \<longleftrightarrow> True"
| "listener_ok P (L_storing r seen) \<longleftrightarrow> P r"
| "listener_ok P (L_stored r) \<longleftrightarrow> P r"
| "listener_ok P (L_read r v) \<longleftrightarrow> P r \<and> listed v"
| "listener_ok P (L_appending r v seen) \<longleftrightarrow> P r \<and> listed v"

lemma listener_ok_mono: "listener_ok P l \<Longrightarrow> P \<le> Q \<Longrightarrow> listener_ok Q l"
  by (cases l) auto

definition result_ok ::
  "payload_codecs \<Rightarrow> (nat \<Rightarrow> rust_string \<Rightarrow> bytes \<Rightarrow> (string, bytes) outcome) \<Rightarrow> ws_state
     \<Rightarrow> job_result \<Rightarrow> bool" where
  "result_ok C run s r \<longleftrightarrow> produced C run s (jr_job_id r) (jr_result r)"

definition system_inv ::
  "ws_config \<Rightarrow> ws_externals \<Rightarrow> (nat \<Rightarrow> rust_string \<Rightarrow> bytes \<Rightarrow> (string, bytes) outcome)
     \<Rightarrow> job_system \<Rightarrow> bool" where
  "system_inv cfg X run s \<longleftrightarrow>
     ws_inv cfg X (js_chain s)
     \<and> handover_inv (job_entry (ws_codecs X) run (js_chain s)) (js_handover s)
     \<and> (\<exists>v. db_get (js_db s) master_result_key = Some v \<and> listed v)
     \<and> (\<forall>r \<in> set (js_channel s). result_ok (ws_codecs X) run (js_chain s) r)
     \<and> listener_ok (result_ok (ws_codecs X) run (js_chain s)) (js_listener s)
     \<and> hash_keys (js_to_submit s)
     \<and> (\<forall>c \<in> set (js_submitted s). submission_ok (ws_codecs X) run (js_chain s) c)"

text \<open>
  What the two payload formats must allow: a finished response is no request, and a request
  that reads as a response has a confusable interface and reads as the job's own code.
\<close>

definition payloads_apart :: "payload_codecs \<Rightarrow> bool" where
  "payloads_apart C \<longleftrightarrow> codec_laws C
     \<and> (\<forall>p. response_fits p \<longrightarrow> rs_job_state p = Finish \<longrightarrow> dec_request C (enc_response C p) = None)
     \<and> (\<forall>p r. request_fits p \<longrightarrow> length (rq_content_abi p) < 2 ^ 30 \<longrightarrow>
          dec_response C (enc_request C p) = Some r \<longrightarrow>
          rq_content_abi p \<noteq> [] \<and> 64 dvd length (rq_content_abi p)
          \<and> rs_job_id r = rq_job_id p \<and> rs_job_result r = rq_job_content p)"

lemma scale_payloads_apart: "payloads_apart scale_codecs"
proof -
  have "rq_content_abi p \<noteq> [] \<and> 64 dvd length (rq_content_abi p)
      \<and> rs_job_id r = rq_job_id p \<and> rs_job_result r = rq_job_content p"
    if "request_fits p" "length (rq_content_abi p) < 2 ^ 30"
      "scale_dec_response (scale_enc_request p) = Some r" for p r
    using request_read_as_response_cases [OF that(1,2)] that(3) by simp
  then show ?thesis
    using scale_codec_laws response_never_request
    by (simp add: payloads_apart_def) (simp add: scale_codecs_def)
qed

text \<open>A script's output is read from a 32-bit linear memory.\<close>

definition runs_fit :: "(nat \<Rightarrow> rust_string \<Rightarrow> bytes \<Rightarrow> (string, bytes) outcome) \<Rightarrow> bool" where
  "runs_fit run \<longleftrightarrow> (\<forall>n abi code out. run n abi code = Ok out \<longrightarrow> fits out)"

text \<open>What a task answers, for whatever its key may hold.\<close>

lemma task_result_ok:
  assumes "payloads_apart C" "ws_inv cfg X s" "job_entry C run s k v"
    and "runs_fit run"
    and "executor_task C (run n) elapsed (Some v) = Ok (Some r)"
  shows "result_ok C run s r"
  using assms(3) unfolding job_entry_def
proof (elim disjE exE conjE)
  fix h j
  assume j: "jobs s h = Some j" "k = enc_hash C h" "v = enc_request C (job_request C h j)"
  have C: "codec_laws C" using assms(1) by (simp add: payloads_apart_def)
  have "dec_request C v = Some (job_request C h j)"
    using codec_lawsD(1) [OF C job_request_fits [OF C assms(2) j(1)]] j(3) by simp
  with assms(5) j(1) show ?thesis
    by (fastforce simp: executor_task_def process_wasm_def job_request_def result_ok_def produced_def
        outcome_simps from_utf8_def split: if_splits outcome.splits)
next
  fix r' pk
  assume r: "produced C run s k (jr_result r')" "jr_job_id r' = k" "v = enc_response C (response_of pk r')"
  have "response_fits (response_of pk r')"
    using r assms(1,4) codec_lawsD(3) [of C]
    by (auto simp: response_fits_def response_of_def produced_def payloads_apart_def fits_def runs_fit_def)
  then have "dec_request C v = None"
    using assms(1) r(3) by (simp add: payloads_apart_def response_of_def)
  with assms(5) show ?thesis by (simp add: executor_task_def)
qed

text \<open>What a worker submits for a listed key.\<close>

lemma submission_from_entry:
  assumes "payloads_apart C" "ws_inv cfg X s" "unat (max_script_size cfg) < 2 ^ 30"
    and "job_entry C run s k v" "db_get db k = Some v"
    and "runs_fit run"
    and "result_call C b db k = Some c"
  shows "submission_ok C run s c"
proof -
  have C: "codec_laws C" using assms(1) by (simp add: payloads_apart_def)
  obtain r where r: "dec_response C v = Some r"
    and c: "c = Submit_result_unsiged b (rs_job_id r) (rs_job_result r) (rs_address r) (rs_exe_time r)"
    using assms(5,7) by (auto simp: result_call_def)
  from assms(4) show ?thesis
    unfolding job_entry_def
  proof (elim disjE exE conjE)
    fix h j
    assume j: "jobs s h = Some j" "k = enc_hash C h" "v = enc_request C (job_request C h j)"
    have "length (job_wasm_abi j) < 2 ^ 30"
      using assms(2,3) j(1) by (fastforce simp: ws_inv_def job_ok_def)
    then have "job_wasm_abi j \<noteq> [] \<and> 64 dvd length (job_wasm_abi j)
        \<and> rs_job_id r = enc_hash C h \<and> rs_job_result r = job_wasm_code j"
      using assms(1) job_request_fits [OF C assms(2) j(1)] r j(3)
      by (auto simp: payloads_apart_def job_request_def)
    with j(1) c show ?thesis by (auto simp: submission_ok_def)
  next
    fix r' pk
    assume r': "produced C run s k (jr_result r')" "jr_job_id r' = k" "v = enc_response C (response_of pk r')"
    have "response_fits (response_of pk r')"
      using r' assms(6) codec_lawsD(3) [OF C]
      by (auto simp: response_fits_def response_of_def produced_def fits_def runs_fit_def)
    then have "r = response_of pk r'"
      using codec_lawsD(2) [OF C] r r'(3) by auto
    with r' c show ?thesis by (auto simp: submission_ok_def response_of_def)
  qed
qed

lemma booted_inv:
  assumes "run_executor raw pks (Some db0) = Ok (db, pk)" "ws_inv cfg X s"
    and "\<And>k v. length k = 32 \<Longrightarrow> db_get db0 k = Some v \<Longrightarrow> job_entry (ws_codecs X) run s k v"
    and "\<forall>c \<in> set cs. submission_ok (ws_codecs X) run s c"
  shows "system_inv cfg X run (booted s db pk cs)"
proof -
  have "db_get db k = db_get db0 k" if "length k = 32" for k
    using assms(1) that neq_by_length [OF that manager_keys(3)]
    by (auto simp: run_executor_def outcome_simps Let_def odb.get_put split: option.splits)
  then show ?thesis
    using assms(2-4) run_executor_lists [OF assms(1)]
    by (auto simp: system_inv_def booted_def handover_inv_def intro: exI [of _ list_init])
qed

text \<open>What the steps keep, one lemma for each part of the system that moves.\<close>

lemma calls_keep_inv:
  assumes "system_inv cfg X run s"
  shows "system_inv cfg X run (s\<lparr>js_chain := ws_run cfg X collators steps (js_chain s)\<rparr>)"
proof -
  let ?s = "js_chain s" and ?t = "ws_run cfg X collators steps (js_chain s)"
  have p: "ws_progress ?s ?t"
    by (rule ws_flow.run_rel)
  have "job_entry (ws_codecs X) run ?s \<le> job_entry (ws_codecs X) run ?t"
       "result_ok (ws_codecs X) run ?s \<le> result_ok (ws_codecs X) run ?t"
    using job_entry_progress [OF p] produced_progress [OF p] by (auto simp: result_ok_def)
  with assms show ?thesis
    using submission_ok_progress [OF p] ws_safe.run_inv handover_inv_mono listener_ok_mono
    by (fastforce simp: system_inv_def)
qed

lemma hand_keeps_inv:
  assumes "system_inv cfg X run s" "handover_step (handed_over (ws_codecs X) (js_chain s)) (js_handover s) t"
  shows "system_inv cfg X run (s\<lparr>js_handover := t\<rparr>)"
proof -
  have "handed_over (ws_codecs X) (js_chain s) \<le> job_entry (ws_codecs X) run (js_chain s)"
    unfolding handed_over_def job_entry_def by blast
  from handover_step_mono [OF assms(2) this] show ?thesis
    using assms(1) handover_step_inv handover_keeps_results by (fastforce simp: system_inv_def)
qed

lemma task_keeps_inv:
  assumes "system_inv cfg X run s" "payloads_apart (ws_codecs X)" "runs_fit run"
    and "(k, p) \<in> set (ho_tasks (js_handover s))"
    and "executor_task (ws_codecs X) (run n) elapsed p = Ok (Some r)"
  shows "system_inv cfg X run (s\<lparr>js_channel := js_channel s @ [r]\<rparr>)"
proof -
  obtain v where v: "p = Some v"
    using assms(5) by (cases p) (auto simp: executor_task_def)
  have "job_entry (ws_codecs X) run (js_chain s) k v" "ws_inv cfg X (js_chain s)"
    using assms(1,4) v by (auto simp: system_inv_def handover_inv_def)
  then have "result_ok (ws_codecs X) run (js_chain s) r"
    using task_result_ok [OF assms(2) _ _ assms(3)] assms(5) v by simp
  with assms(1) show ?thesis by (simp add: system_inv_def)
qed

lemma store_keeps_inv:
  assumes "system_inv cfg X run s" "payloads_apart (ws_codecs X)" "js_listener s = L_storing r seen"
  shows "system_inv cfg X run (s\<lparr>js_listener := L_stored r,
     js_handover := set_db (snd (write_after_read seen (jr_job_id r)
       (enc_response (ws_codecs X) (response_of (js_key s) r)) (js_db s))) (js_handover s)\<rparr>)"
proof -
  let ?v = "enc_response (ws_codecs X) (response_of (js_key s) r)"
  have r: "produced (ws_codecs X) run (js_chain s) (jr_job_id r) (jr_result r)"
    using assms(1,3) by (simp add: system_inv_def result_ok_def)
  then have "job_entry (ws_codecs X) run (js_chain s) (jr_job_id r) ?v"
    unfolding job_entry_def by blast
  moreover have "length (jr_job_id r) = 32"
    using r assms(2) codec_lawsD(3) [of "ws_codecs X"] by (auto simp: produced_def payloads_apart_def)
  moreover have "result_ok (ws_codecs X) run (js_chain s) r"
    using r by (simp add: result_ok_def)
  ultimately show ?thesis
    using assms(1,3) handover_inv_write by (auto simp: system_inv_def write_after_read_get)
qed

lemma append_keeps_inv:
  assumes "system_inv cfg X run s" "payloads_apart (ws_codecs X)" "js_listener s = L_appending r v seen"
  shows "system_inv cfg X run (s\<lparr>js_listener := L_idle,
     js_handover := set_db (snd (write_after_read seen WASMSTORE_RESULT_LIST (v @ jr_job_id r) (js_db s)))
       (js_handover s)\<rparr>)"
proof -
  have "result_ok (ws_codecs X) run (js_chain s) r" "listed v"
    using assms(1,3) by (simp_all add: system_inv_def)
  then have "listed (v @ jr_job_id r)"
    using assms(2) codec_lawsD(3) [of "ws_codecs X"]
    by (auto simp: result_ok_def produced_def payloads_apart_def intro!: listed_append)
  then show ?thesis
    using assms(1) handover_inv_write [of _ "js_handover s" master_result_key]
    by (auto simp: system_inv_def write_after_read_get)
qed

lemma listed_results_keep_inv:
  assumes "system_inv cfg X run s" "db_get (js_db s) master_result_key = Some rv"
    and "ocw_do_handling_result rv = Ok ks"
  shows "system_inv cfg X run (s\<lparr>js_to_submit := js_to_submit s @ ks\<rparr>)"
proof -
  obtain ks' where "hash_keys ks'" "rv = key_list_of ks'"
    using assms(1,2) by (auto simp: system_inv_def listed_def)
  then have "hash_keys ks"
    using assms(3) parse_key_list_of [of ks']
    by (auto simp: ocw_do_handling_result_def key_list_parser_def split: if_splits)
  with assms(1) show ?thesis by (simp add: system_inv_def)
qed

lemma submit_keeps_inv:
  assumes "system_inv cfg X run s" "payloads_apart (ws_codecs X)" "unat (max_script_size cfg) < 2 ^ 30"
    and "runs_fit run" "js_to_submit s = us @ k # vs" "result_call (ws_codecs X) b (js_db s) k = Some c"
  shows "system_inv cfg X run (s\<lparr>js_to_submit := us @ vs, js_submitted := js_submitted s @ [c]\<rparr>)"
proof -
  obtain v where v: "db_get (js_db s) k = Some v"
    using assms(6) by (auto simp: result_call_def split: option.splits)
  then have "job_entry (ws_codecs X) run (js_chain s) k v"
    using assms(1,5) by (auto simp: system_inv_def handover_inv_def)
  then have "submission_ok (ws_codecs X) run (js_chain s) c"
    using submission_from_entry [OF assms(2) _ assms(3) _ v assms(4,6)] assms(1)
    by (auto simp: system_inv_def)
  with assms(1,5) show ?thesis by (simp add: system_inv_def)
qed

lemma system_inv_reach:
  assumes "system_reach cfg X run s"
    and "payloads_apart (ws_codecs X)" "unat (max_script_size cfg) < 2 ^ 30"
    and "runs_fit run"
  shows "system_inv cfg X run s"
  using assms(1)
proof induction
  case (js_boot raw pks db pk)
  then show ?case
    by (rule booted_inv) (auto simp: db_get_def intro: ws_inv_genesis)
next
  case (js_restart s raw pks db pk)
  show ?case
    by (rule booted_inv [OF js_restart.hyps(2)])
      (use js_restart.IH in \<open>auto simp: system_inv_def handover_inv_def\<close>)
next
  case (js_task s k p n elapsed r)
  then show ?case using task_keeps_inv [OF _ assms(2,4)] by blast
next
  case (js_store s r seen)
  then show ?case using store_keeps_inv [OF _ assms(2)] by blast
next
  case (js_append s r v seen)
  then show ?case using append_keeps_inv [OF _ assms(2)] by blast
next
  case (js_look s r)
  then show ?case by (auto simp: system_inv_def read_from_offchain_db_def)
next
  case (js_submit s us k vs b c)
  then show ?case using submit_keeps_inv [OF _ assms(2-4)] by blast
qed (simp_all add: calls_keep_inv hand_keeps_inv listed_results_keep_inv, auto simp: system_inv_def)

section \<open>Results are genuine\<close>

text \<open>
  C3: The results a node produces are genuine: in every reachable state of the system, with
  anybody's calls on chain, any interleaving and any restarts, every result on its way to
  the listener is the output of a run of the script that the chain holds for the job it
  names, and so is every result the node has submitted, except that for a job whose
  interface description has a length that is a positive multiple of 64 it may have submitted
  the script's code instead.
\<close>

theorem results_genuine:
  assumes "ws_codecs X = scale_codecs" "unat (max_script_size cfg) < 2 ^ 30"
    and "runs_fit run"
    and "system_reach cfg X run s"
  shows "(\<forall>r \<in> set (js_channel s). \<exists>h j n. jobs (js_chain s) h = Some j
       \<and> jr_job_id r = h256_bytes h \<and> run n (job_wasm_abi j) (job_wasm_code j) = Ok (jr_result r))
     \<and> (\<forall>c \<in> set (js_submitted s). \<exists>b h v p t j. c = Submit_result_unsiged b (h256_bytes h) v p t
       \<and> jobs (js_chain s) h = Some j
       \<and> ((\<exists>n. run n (job_wasm_abi j) (job_wasm_code j) = Ok v)
          \<or> v = job_wasm_code j \<and> job_wasm_abi j \<noteq> [] \<and> 64 dvd length (job_wasm_abi j)))"
proof -
  have hash: "enc_hash (ws_codecs X) = h256_bytes"
    using assms(1) by (simp add: scale_codecs_def)
  have inv: "system_inv cfg X run s"
    using system_inv_reach [OF assms(4)] assms(1-3) scale_payloads_apart by auto
  show ?thesis
  proof (intro conjI ballI)
    fix r
    assume "r \<in> set (js_channel s)"
    then show "\<exists>h j n. jobs (js_chain s) h = Some j \<and> jr_job_id r = h256_bytes h
        \<and> run n (job_wasm_abi j) (job_wasm_code j) = Ok (jr_result r)"
      using inv by (simp add: system_inv_def result_ok_def produced_def hash)
  next
    fix c
    assume "c \<in> set (js_submitted s)"
    then have "submission_ok (ws_codecs X) run (js_chain s) c"
      using inv by (simp add: system_inv_def)
    then show "\<exists>b h v p t j. c = Submit_result_unsiged b (h256_bytes h) v p t
        \<and> jobs (js_chain s) h = Some j
        \<and> ((\<exists>n. run n (job_wasm_abi j) (job_wasm_code j) = Ok v)
           \<or> v = job_wasm_code j \<and> job_wasm_abi j \<noteq> [] \<and> 64 dvd length (job_wasm_abi j))"
      unfolding submission_ok_def produced_def hash by blast
  qed
qed

text \<open>The system can do its work: a pending job can be run and its result submitted.\<close>

lemma system_hands:
  assumes "handover_reach (handed_over (ws_codecs X) (js_chain s)) t"
    and "system_reach cfg X run s" "js_handover s = handover_start"
  shows "system_reach cfg X run (s\<lparr>js_handover := t\<rparr>)"
  using assms(1)
proof induction
  case start
  then show ?case using assms(2,3) by (cases s) simp
next
  case (step t u)
  then show ?case using js_hand [of cfg X run "s\<lparr>js_handover := t\<rparr>" u] by simp
qed

lemma system_task:
  assumes C: "codec_laws (ws_codecs X)" and "s = ws_run cfg X collators steps ws_genesis"
    and j: "jobs s h = Some j" "job_status j = Pending"
  shows "\<exists>t. system_reach cfg X run t \<and> js_chain t = s \<and> js_listener t = L_idle \<and> js_channel t = []
     \<and> js_submitted t = [] \<and> js_key t = 0
     \<and> db_get (js_db t) master_result_key = Some init_mark
     \<and> (enc_hash (ws_codecs X) h, Some (enc_request (ws_codecs X) (job_request (ws_codecs X) h j)))
         \<in> set (ho_tasks (js_handover t))"
proof -
  let ?C = "ws_codecs X"
  let ?k = "enc_hash ?C h" and ?v = "enc_request ?C (job_request ?C h j)"
  let ?R = "handed_over ?C s"
  let ?b = "booted s (ho_db handover_start) 0 []"
  have "system_reach cfg X run (booted ws_genesis (ho_db handover_start) 0 [])"
    by (rule js_boot [OF handover_start_run_executor])
  from js_calls [OF this, of collators steps] assms(2) have b: "system_reach cfg X run ?b"
    by (simp add: booted_def)
  have R: "length ?k = 32" "?R ?k ?v"
    using codec_lawsD(3) [OF C] j unfolding handed_over_def by blast+
  let ?t = "\<lparr>ho_db = db_set ?k ?v (db_listing [?k]), ho_workers = [], ho_monitor = M_idle, ho_tasks = []\<rparr>"
  have "handover_reach ?R ?t"
    by (rule reach_via [OF reach_listed [where R = ?R, OF R] w_store [where us = "[]" and vs = "[]"]]) simp_all
  from reach_round [OF this, of "[?k]"] R(1)
  have "handover_reach ?R (?t\<lparr>ho_db := db_set master_key init_mark (ho_db ?t), ho_tasks := [(?k, Some ?v)]\<rparr>)"
    by (simp add: odb.get_put)
  then have r: "system_reach cfg X run (?b\<lparr>js_handover :=
      ?t\<lparr>ho_db := db_set master_key init_mark (ho_db ?t), ho_tasks := [(?k, Some ?v)]\<rparr>\<rparr>)"
    using system_hands [of X ?b _ cfg run] b by (simp add: booted_def handover_start_def)
  show ?thesis
    by (rule exI, intro conjI, rule r)
      (use R(1) in \<open>simp_all add: booted_def odb.get_put, simp_all add: db_listing_def db_get_def\<close>)
qed

lemma system_can_deliver:
  assumes C: "codec_laws (ws_codecs X)" and "s = ws_run cfg X collators steps ws_genesis"
    and j: "jobs s h = Some j" "job_status j = Pending" and "ws_inv cfg X s"
    and script: "valid_utf8 (job_wasm_abi j)" "run n (job_wasm_abi j) (job_wasm_code j) = Ok out" "fits out"
  shows "\<exists>t. system_reach cfg X run t \<and> js_chain t = s
     \<and> Submit_result_unsiged b (enc_hash (ws_codecs X) h) out 0 0 \<in> set (js_submitted t)"
proof -
  let ?C = "ws_codecs X"
  let ?k = "enc_hash ?C h"
  let ?r = "\<lparr>jr_job_id = ?k, jr_result = out, jr_ext_time = 0\<rparr>"
  let ?p = "job_request ?C h j"
  obtain t where t: "system_reach cfg X run t" "js_chain t = s" "js_listener t = L_idle" "js_channel t = []"
      "js_key t = 0" "db_get (js_db t) master_result_key = Some init_mark"
    and task: "(?k, Some (enc_request ?C ?p)) \<in> set (ho_tasks (js_handover t))"
    using system_task [where cfg = cfg and run = run, OF C assms(2) j] by blast
  have "executor_task ?C (run n) 0 (Some (enc_request ?C ?p)) = Ok (Some ?r)"
    using executor_task_Ok [OF C job_request_fits [OF C assms(5) j(1)], of "run n" out 0] script
    by (simp add: job_request_def subsec_millis_def)
  from js_task [OF t(1) task this] t(4) have "system_reach cfg X run (t\<lparr>js_channel := [?r]\<rparr>)"
    by simp
  from listener_steps [OF this] t(3,4)
  have u: "system_reach cfg X run (t\<lparr>js_channel := [],
      js_handover := set_db (result_listener_round ?C 0 ?r (js_db t)) (js_handover t)\<rparr>)"
    (is "system_reach cfg X run ?u")
    by (simp add: t(5))
  have fits: "response_fits (response_of 0 ?r)"
    using script(3) codec_lawsD(3) [OF C, of h] by (simp add: response_fits_def response_of_def fits_def)
  have db: "db_get (js_db ?u) master_result_key = Some (init_mark @ ?k)"
      "db_get (js_db ?u) ?k = Some (enc_response ?C (response_of 0 ?r))"
    using result_replaces_request [of ?r "js_db t" init_mark ?C 0] t(6) codec_lawsD(3) [OF C, of h] by auto
  have "ocw_do_handling_result (init_mark @ ?k) = Ok [?k]"
    using codec_lawsD(3) [OF C, of h] chunks_one [of ?k 32] enc_hash_keys(4) [OF C, of h]
    by (simp add: ocw_do_handling_result_def)
  from js_results [OF u db(1) this]
  have v: "system_reach cfg X run (?u\<lparr>js_to_submit := js_to_submit t @ [?k]\<rparr>)" by simp
  have "result_call ?C b (js_db ?u) ?k = Some (Submit_result_unsiged b ?k out 0 0)"
    using db(2) codec_lawsD(2) [OF C fits] by (simp add: result_call_def response_of_def)
  with js_submit [OF v, of "js_to_submit t" ?k "[]" b] have w:
    "system_reach cfg X run (?u\<lparr>js_to_submit := js_to_submit t, js_submitted := js_submitted t @ [Submit_result_unsiged b ?k out 0 0]\<rparr>)"
    by simp
  show ?thesis
    by (rule exI, intro conjI, rule w) (simp_all add: t(2))
qed

text \<open>A chain on which account 1 uploaded a script and account 2 requested its execution.\<close>

definition requested_steps :: "bytes \<Rightarrow> ws_step list" where
  "requested_steps abi =
     [Inr (Signed 1, Upload_wasm [97] Executable [0, 1] abi),
      Inr (Signed 2, Request_script_execution (prefixed_name Executable [97]) None)]"

lemma requested_queue:
  assumes "length abi \<le> 500000"
  shows "\<exists>h j. jobs (ws_run runtime_ws_config sample_externals [] (requested_steps abi) ws_genesis) = [h \<mapsto> j]
     \<and> job_status j = Pending \<and> job_wasm_code j = [0, 1] \<and> job_wasm_abi j = abi"
proof -
  let ?X = sample_externals and ?n = "prefixed_name Executable [97]"
  let ?d = "uploaded ?X 1 ?n Executable [0, 1] abi ws_genesis"
  let ?s = "ws_genesis\<lparr>scripts := [script_key ?X ?n \<mapsto> ?d],
     ws_events := [ScriptUpload 1 0 (of_nat (length ([0, 1] :: bytes))) ?n (ws_hash ?X [0, 1])]\<rparr>"
  let ?j = "new_job 2 ?n ?d"
  let ?t = "?s\<lparr>jobs := (jobs ?s)(job_key ?X ?j \<mapsto> ?j), ws_events := ws_events ?s @
      [RequestExecution (job_key ?X ?j) 2 (ws_block ?s) ?n]\<rparr>"
  have sizes: "upload_sizes_ok runtime_ws_config ?X ?n [0, 1] abi"
    using assms by (simp add: upload_sizes_ok_def sample_externals_def runtime_ws_config_def
        prefixed_name_def ascii_def script_key_def)
  then have up: "upload_wasm runtime_ws_config ?X (Signed 1) [97] Executable [0, 1] abi ws_genesis = Ok ?s"
    by (simp add: upload_wasm_Ok_iff ws_genesis_def)
  have "request_script_execution runtime_ws_config ?X (Signed 2) ?n None ?s = Ok ?t"
    using sizes by (auto simp: request_Ok_iff upload_sizes_ok_def ws_genesis_def)
  then have "ws_run runtime_ws_config ?X [] (requested_steps abi) ws_genesis = ?t"
    using up by (simp add: requested_steps_def)
  then have "jobs (ws_run runtime_ws_config ?X [] (requested_steps abi) ws_genesis) = [job_key ?X ?j \<mapsto> ?j]"
    by (simp add: ws_genesis_def)
  moreover have "job_status ?j = Pending \<and> job_wasm_code ?j = [0, 1] \<and> job_wasm_abi ?j = abi"
    by (simp add: new_job_def uploaded_def)
  ultimately show ?thesis by blast
qed

lemma requested_job:
  assumes "length abi \<le> 500000"
  shows "\<exists>h j. jobs (ws_run runtime_ws_config sample_externals [] (requested_steps abi) ws_genesis) h = Some j
     \<and> job_status j = Pending \<and> job_wasm_code j = [0, 1] \<and> job_wasm_abi j = abi"
  using requested_queue [OF assms] by fastforce

theorem results_genuine_witness:
  "\<exists>s. system_reach runtime_ws_config sample_externals (\<lambda>_ _ _. Ok [7]) s
     \<and> js_submitted s \<noteq> []
     \<and> (\<forall>c \<in> set (js_submitted s). \<exists>b h v p t j. c = Submit_result_unsiged b (h256_bytes h) v p t
          \<and> jobs (js_chain s) h = Some j
          \<and> (v = [7] \<or> v = job_wasm_code j \<and> job_wasm_abi j \<noteq> [] \<and> 64 dvd length (job_wasm_abi j)))"
proof -
  let ?X = sample_externals and ?run = "\<lambda>(_ :: nat) (_ :: rust_string) (_ :: bytes). (Ok [7] :: (string, bytes) outcome)"
  let ?s = "ws_run runtime_ws_config ?X [] (requested_steps [50]) ws_genesis"
  obtain h j where j: "jobs ?s h = Some j" "job_status j = Pending" "job_wasm_abi j = [50]"
    using requested_job [of "[50]"] by auto
  have codecs: "ws_codecs ?X = scale_codecs"
    by (simp add: sample_externals_def)
  have C: "codec_laws (ws_codecs ?X)"
    using scale_codec_laws by (simp add: codecs)
  have utf: "valid_utf8 (job_wasm_abi j)"
    by (simp add: j(3))
  have run: "?run 0 (job_wasm_abi j) (job_wasm_code j) = Ok [7]" "fits ([7] :: bytes)"
    by (simp_all add: fits_def)
  have inv: "ws_inv runtime_ws_config ?X ?s"
    by (rule ws_safe.run_inv [OF ws_inv_genesis])
  obtain t where t: "system_reach runtime_ws_config ?X ?run t"
      "Submit_result_unsiged 0 (enc_hash (ws_codecs ?X) h) [7] 0 0 \<in> set (js_submitted t)"
    using system_can_deliver [where cfg = runtime_ws_config and run = ?run and s = ?s and b = 0 and n = 0,
        OF C refl j(1,2) inv utf run] by blast
  have small: "unat (max_script_size runtime_ws_config) < 2 ^ 30"
    by (simp add: runtime_ws_config_def)
  have "runs_fit ?run"
    by (simp add: runs_fit_def fits_def)
  from results_genuine [OF codecs small this t(1)] have
    "\<forall>c \<in> set (js_submitted t). \<exists>b h v p u j. c = Submit_result_unsiged b (h256_bytes h) v p u
       \<and> jobs (js_chain t) h = Some j
       \<and> (v = [7] \<or> v = job_wasm_code j \<and> job_wasm_abi j \<noteq> [] \<and> 64 dvd length (job_wasm_abi j))"
    by fastforce
  with t show ?thesis by (intro exI [of _ t] conjI) auto
qed

section \<open>Code submitted as a result\<close>

text \<open>
  C14: The confusion of the payloads happens in ordinary runs. On a node with empty lists and
  an accepting pool, a round that took a job whose interface description has any length that
  is a positive multiple of 64 (within a script size bound below \<open>2 ^ 30\<close>; the runtime's is
  524288) and delivered its result is undone when the next worker still sees the job as
  pending: it overwrites the delivered response with the request, takes the request for the
  response that the list announces, and submits the script's own code as the job's result;
  the output of the script is gone from the database.
\<close>

theorem code_submitted_as_result:
  assumes codecs: "ws_codecs X = scale_codecs" and inv: "ws_inv cfg X s"
    and pool: "\<And>p c. accept p c"
    and head: "iterates jl s" "find active jl = Some (h, j)" "job_status j = Pending"
    and script: "valid_utf8 (job_wasm_abi j)" "run (job_wasm_abi j) (job_wasm_code j) = Ok out"
    and abi: "job_wasm_abi j \<noteq> []" "64 dvd length (job_wasm_abi j)"
    and bound: "unat (max_script_size cfg) < 2 ^ 30"
    and lists: "db_get (wk_db w) master_key = Some init_mark"
      "db_get (wk_db w) master_result_key = Some init_mark"
    and round: "node_round cfg X accept run elapsed pk jl (s, w) = (s1, w1)"
    and again: "offchain_worker scale_codecs accept b jl (w1\<lparr>wk_pool := []\<rparr>) = (e, w2)"
  shows "(\<exists>p t. wk_pool w2 = [Change_job_state b h, Submit_result_unsiged b (h256_bytes h) (job_wasm_code j) p t])
     \<and> db_get (wk_db w2) (h256_bytes h) = Some (scale_enc_request (job_request scale_codecs h j))"
proof -
  let ?C = scale_codecs
  let ?k = "h256_bytes h" and ?p = "job_request scale_codecs h j"
  have laws: "codec_laws (ws_codecs X)" "codec_laws ?C"
    using scale_codec_laws by (simp_all add: codecs)
  have hash: "enc_hash ?C h = ?k"
    by (simp add: scale_codecs_def)
  note keys = enc_hash_keys [OF laws(2), of h, unfolded hash]
  from round_takes_job [of X cfg s accept jl h j run out w elapsed pk, OF laws(1) inv pool head script lists]
    round codecs hash
  have db: "db_get (wk_db w1) master_key = Some init_mark"
      "db_get (wk_db w1) master_result_key = Some (init_mark @ ?k)"
    by auto
  have fits: "request_fits ?p"
    using job_request_fits [OF laws(1) inv find_iterates [OF head(1,2)]] codecs by simp
  have "job_ok cfg X h j"
    using inv find_iterates [OF head(1,2)] by (auto simp: ws_inv_def)
  then have short: "length (rq_content_abi ?p) < 2 ^ 30"
    using bound by (simp add: job_ok_def job_request_def)
  define db2 where "db2 = db_set ?k (enc_request ?C ?p) (db_set master_key (init_mark @ ?k) (wk_db w1))"
  define w' where "w' = w1\<lparr>wk_pool := [Change_job_state b h],
      wk_events := wk_events w1 @ [UnsignedTx b], wk_db := db2\<rparr>"
  have "offchain_worker ?C accept b jl (w1\<lparr>wk_pool := []\<rparr>) =
      handle_results ?C accept b (init_mark @ ?k) w'"
    using offchain_worker_accepted [of jl h j accept "w1\<lparr>wk_pool := []\<rparr>" b init_mark "init_mark @ ?k" ?C]
      head pool db hash store_request_get [OF laws(2) fits]
    by (simp add: w'_def db2_def odb.cas_eq)
  moreover have "chunks 32 ?k = [?k]"
    by (rule chunks_one) simp_all
  moreover obtain r where r: "dec_response ?C (enc_request ?C ?p) = Some r"
      "rs_job_id r = ?k" "rs_job_result r = job_wasm_code j"
    using request_read_as_response_cases [OF fits short] abi
    by (auto simp: scale_codecs_def job_request_def split: option.splits)
  have "result_call ?C b (wk_db w') ?k =
      Some (Submit_result_unsiged b ?k (job_wasm_code j) (rs_address r) (rs_exe_time r))"
    by (simp add: result_call_def w'_def db2_def odb.get_put r)
  ultimately have "w2 = w'\<lparr>wk_pool := [Change_job_state b h,
        Submit_result_unsiged b ?k (job_wasm_code j) (rs_address r) (rs_exe_time r)],
      wk_events := wk_events w' @ [UnsignedTx b]\<rparr>"
    using again keys
    by (simp add: handle_results_def ocw_do_handling_result_def submit_results_all [OF laws(2) pool]
        map_filter_simps w'_def del: submit_results.simps)
  then show ?thesis
    by (simp add: w'_def db2_def odb.get_put scale_codecs_def)
qed

definition confusable_job :: ocw_job where
  "confusable_job = (sample_job Pending)\<lparr>job_wasm_abi := replicate 64 32\<rparr>"

definition confusable_key :: h256 where
  "confusable_key = job_key sample_externals confusable_job"

theorem code_submitted_as_result_witness:
  "\<exists>p t. wk_pool (snd (offchain_worker scale_codecs (\<lambda>_ _. True) 1 [(confusable_key, confusable_job)]
       ((snd (node_round runtime_ws_config sample_externals (\<lambda>_ _. True) (\<lambda>_ _. Ok [7]) 0 7
          [(confusable_key, confusable_job)] (ws_genesis\<lparr>jobs := [confusable_key \<mapsto> confusable_job]\<rparr>, sample_worker init_mark init_mark)))
        \<lparr>wk_pool := []\<rparr>)))
     = [Change_job_state 1 confusable_key, Submit_result_unsiged 1 (h256_bytes confusable_key) [0, 1] p t]"
proof -
  let ?s = "ws_genesis\<lparr>jobs := [confusable_key \<mapsto> confusable_job]\<rparr>"
  let ?acc = "\<lambda>(_ :: ws_call list) (_ :: ws_call). True"
  let ?run = "\<lambda>(_ :: rust_string) (_ :: bytes). (Ok [7] :: (string, bytes) outcome)"
  let ?jl = "[(confusable_key, confusable_job)]"
  obtain s1 w1 where r: "node_round runtime_ws_config sample_externals ?acc ?run 0 7 ?jl
      (?s, sample_worker init_mark init_mark) = (s1, w1)"
    by fastforce
  obtain e w2 where a: "offchain_worker scale_codecs ?acc 1 ?jl (w1\<lparr>wk_pool := []\<rparr>) = (e, w2)"
    by fastforce
  have codecs: "ws_codecs sample_externals = scale_codecs"
    by (simp add: sample_externals_def)
  have job: "job_wasm_abi confusable_job = replicate 64 32" "job_wasm_code confusable_job = [0, 1]"
      "job_status confusable_job = Pending"
    by (simp_all add: confusable_job_def sample_job_def)
  have inv: "ws_inv runtime_ws_config sample_externals ?s"
    by (simp add: ws_inv_def ws_genesis_def job_ok_def confusable_key_def confusable_job_def
        sample_job_def runtime_ws_config_def ascii_def)
  have jl: "iterates ?jl ?s" "find active ?jl = Some (confusable_key, confusable_job)"
    using job(3) by (simp_all add: iterates_def ws_genesis_def fun_eq_iff active_def)
  have utf: "valid_utf8 (job_wasm_abi confusable_job)"
    unfolding job(1) by (rule valid_utf8_ascii) (auto simp: set_replicate_conv_if)
  have abi: "job_wasm_abi confusable_job \<noteq> []" "64 dvd length (job_wasm_abi confusable_job)"
      "unat (max_script_size runtime_ws_config) < 2 ^ 30"
    by (simp_all add: job(1) runtime_ws_config_def del: replicate.simps)
  have "\<exists>p t. wk_pool w2 = [Change_job_state 1 confusable_key, Submit_result_unsiged 1 (h256_bytes confusable_key) [0, 1] p t]"
    using code_submitted_as_result [of sample_externals runtime_ws_config ?s ?acc ?jl confusable_key confusable_job
        ?run "[7]" "sample_worker init_mark init_mark" 0 7 s1 w1 1 e w2,
        OF codecs inv TrueI jl job(3) utf refl abi _ _ r a] job(2)
    by simp
  with r a show ?thesis by simp
qed

end
