(* ===== verification/Job_Queue.thy ===== *)
theory Job_Queue
  imports Job_Handover
begin

text \<open>
  The contract of the hand-over when its accesses do not interleave: whole runs of the
  worker and whole rounds of the monitor implement a first-in first-out queue that is
  drained in batches. The contract is the locale \<open>batch_queue\<close>; its interpretation shows
  that \<open>offchain_worker\<close> and \<open>monitor_round\<close> implement it, and theory \<open>Job_Handover\<close> shows
  that interleaved accesses break it.
\<close>

section \<open>The contract\<close>

text \<open>
  \<open>enq a\<close> adds the item of \<open>a\<close> at the end of what is waiting, \<open>drain\<close> delivers everything
  that is waiting; a step is \<open>Some a\<close> for \<open>enq a\<close> and \<open>None\<close> for \<open>drain\<close>.
\<close>

fun queue_step ::
  "('a \<Rightarrow> 's \<Rightarrow> 's) \<Rightarrow> ('s \<Rightarrow> 'b list \<times> 's) \<Rightarrow> 'b list \<times> 's \<Rightarrow> 'a option \<Rightarrow> 'b list \<times> 's" where
  "queue_step enq drain (out, s) (Some a) = (out, enq a s)"
| "queue_step enq drain (out, s) None = (let (bs, s') = drain s in (out @ bs, s'))"

definition queue_run ::
  "('a \<Rightarrow> 's \<Rightarrow> 's) \<Rightarrow> ('s \<Rightarrow> 'b list \<times> 's) \<Rightarrow> 'a option list \<Rightarrow> 's \<Rightarrow> 'b list \<times> 's" where
  "queue_run enq drain steps s = foldl (queue_step enq drain) ([], s) steps"

definition added :: "('a \<Rightarrow> 'b) \<Rightarrow> 'a option list \<Rightarrow> 'b list" where
  "added item steps = map item (List.map_filter id steps)"

lemma added_simps [simp]:
  "added item [] = []" "added item (Some a # steps) = item a # added item steps"
  "added item (None # steps) = added item steps"
  by (simp_all add: added_def map_filter_simps)

locale batch_queue =
  fixes wf :: "'s \<Rightarrow> bool"
    and waiting :: "'s \<Rightarrow> 'b list"
    and enq :: "'a \<Rightarrow> 's \<Rightarrow> 's"
    and drain :: "'s \<Rightarrow> 'b list \<times> 's"
    and ok :: "'a \<Rightarrow> bool"
    and item :: "'a \<Rightarrow> 'b"
  assumes enq_wf: "wf s \<Longrightarrow> ok a \<Longrightarrow> wf (enq a s)"
    and enq_waiting: "wf s \<Longrightarrow> ok a \<Longrightarrow> waiting (enq a s) = waiting s @ [item a]"
    and drain_wf: "wf s \<Longrightarrow> wf (snd (drain s))"
    and drain_out: "wf s \<Longrightarrow> fst (drain s) = waiting s"
    and drain_waiting: "wf s \<Longrightarrow> waiting (snd (drain s)) = []"
begin

lemma run_fifo:
  assumes "wf s" "\<forall>a \<in> set (List.map_filter id steps). ok a"
  shows "\<exists>out' s'. foldl (queue_step enq drain) (out, s) steps = (out', s')
     \<and> wf s' \<and> out' @ waiting s' = out @ waiting s @ added item steps"
  using assms
proof (induction steps arbitrary: out s)
  case Nil
  then show ?case by simp
next
  case (Cons st steps)
  show ?case
  proof (cases st)
    case None
    then show ?thesis
      using Cons.IH [of "snd (drain s)" "out @ fst (drain s)"] Cons.prems
      by (simp add: drain_wf drain_out drain_waiting map_filter_simps case_prod_beta)
  next
    case (Some a)
    then show ?thesis
      using Cons.IH [of "enq a s" out] Cons.prems
      by (simp add: enq_wf enq_waiting map_filter_simps)
  qed
qed

lemma queue_fifo:
  assumes "wf s" "waiting s = []" "\<forall>a \<in> set (List.map_filter id steps). ok a"
    and "queue_run enq drain steps s = (out, s')"
  shows "out @ waiting s' = added item steps" and "wf s'"
  using run_fifo [OF assms(1,3), of "[]"] assms(2,4) by (auto simp: queue_run_def)

lemma queue_drained:
  assumes "wf s" "waiting s = []" "\<forall>a \<in> set (List.map_filter id steps). ok a"
    and "queue_run enq drain (steps @ [None]) s = (out, s')"
  shows "out = added item steps \<and> waiting s' = []"
proof -
  obtain out1 s1 where run: "queue_run enq drain steps s = (out1, s1)"
    by (cases "queue_run enq drain steps s")
  from queue_fifo [OF assms(1-3) run] have "out1 @ waiting s1 = added item steps" "wf s1"
    by auto
  then show ?thesis
    using assms(4) run
    by (auto simp: queue_run_def drain_out drain_waiting case_prod_beta)
qed

end

section \<open>The hand-over without interleaving\<close>

text \<open>A run of the worker at a block with the entries of the job queue, and a round of the monitor.\<close>

definition worker_run ::
  "payload_codecs \<Rightarrow> pool \<Rightarrow> block_number \<times> (h256 \<times> ocw_job) list \<Rightarrow> worker \<Rightarrow> worker" where
  "worker_run C accept a w = snd (offchain_worker C accept (fst a) (snd a) w)"

definition monitor_run :: "worker \<Rightarrow> (bytes \<times> bytes option) list \<times> worker" where
  "monitor_run w =
     (case monitor_round (wk_db w) of
        Ok (tasks, db) \<Rightarrow> (tasks, w\<lparr>wk_db := db\<rparr>)
      | _ \<Rightarrow> ([], w))"

text \<open>What the next round of the monitor would start: the listed keys with their requests.\<close>

definition listed_requests :: "worker \<Rightarrow> (bytes \<times> bytes option) list" where
  "listed_requests w =
     (case db_get (wk_db w) master_key of
        None \<Rightarrow> []
      | Some kl \<Rightarrow> map (\<lambda>k. (k, db_get (wk_db w) k)) (chunks 32 (drop 4 kl)))"

text \<open>The task a run of the worker asks for: the key and the request of the head job.\<close>

definition handed ::
  "payload_codecs \<Rightarrow> block_number \<times> (h256 \<times> ocw_job) list \<Rightarrow> bytes \<times> bytes option" where
  "handed C a =
     (case find active (snd a) of
        None \<Rightarrow> ([], None)
      | Some (h, j) \<Rightarrow> (enc_hash C h, Some (enc_request C (job_request C h j))))"

text \<open>
  \<open>content\<close> is the job behind a key: a key is the hash of its job, so it never stands for
  two different ones.
\<close>

definition takes_job ::
  "payload_codecs \<Rightarrow> pool \<Rightarrow> (h256 \<Rightarrow> ocw_job) \<Rightarrow> block_number \<times> (h256 \<times> ocw_job) list \<Rightarrow> bool" where
  "takes_job C accept content a \<longleftrightarrow>
     (case find active (snd a) of
        None \<Rightarrow> False
      | Some (h, j) \<Rightarrow> j = content h \<and> job_status j = Pending \<and> request_fits (job_request C h j)
          \<and> (\<forall>p. accept p (Change_job_state (fst a) h)))"

definition queue_ok :: "payload_codecs \<Rightarrow> (h256 \<Rightarrow> ocw_job) \<Rightarrow> worker \<Rightarrow> bool" where
  "queue_ok C content w \<longleftrightarrow> codec_laws C
     \<and> db_get (wk_db w) master_result_key = Some init_mark
     \<and> (\<exists>hs. db_get (wk_db w) master_key = Some (key_list_of (map (enc_hash C) hs))
          \<and> (\<forall>h \<in> set hs. db_get (wk_db w) (enc_hash C h)
               = Some (enc_request C (job_request C h (content h)))))"

lemma listed_requests_eq:
  assumes "codec_laws C" "db_get (wk_db w) master_key = Some (key_list_of (map (enc_hash C) hs))"
  shows "listed_requests w = map (\<lambda>h. (enc_hash C h, db_get (wk_db w) (enc_hash C h))) hs"
    and "hash_keys (map (enc_hash C) hs)"
proof -
  show keys: "hash_keys (map (enc_hash C) hs)"
    by (simp add: hash_keys_def codec_lawsD(3) [OF assms(1)])
  then have "chunks 32 (drop 4 (key_list_of (map (enc_hash C) hs))) = map (enc_hash C) hs"
    using parse_key_list_of [OF keys] by (simp add: key_list_parser_def split: if_splits)
  then show "listed_requests w = map (\<lambda>h. (enc_hash C h, db_get (wk_db w) (enc_hash C h))) hs"
    by (simp add: listed_requests_def assms(2) o_def)
qed

text \<open>A run of the worker on a well-formed database, in full.\<close>

lemma worker_run_db:
  assumes "queue_ok C content w" "takes_job C accept content (b, jl)"
    and "db_get (wk_db w) master_key = Some kl"
  obtains h where "find active jl = Some (h, content h)"
    "wk_db (worker_run C accept (b, jl) w) =
       db_set (enc_hash C h) (enc_request C (job_request C h (content h)))
         (db_set master_key (kl @ enc_hash C h) (wk_db w))"
proof -
  obtain h where h: "find active jl = Some (h, content h)" "job_status (content h) = Pending"
      "accept (wk_pool w) (Change_job_state b h)" and fits: "request_fits (job_request C h (content h))"
    using assms(2) by (auto simp: takes_job_def split: option.splits)
  have C: "codec_laws C" and rl: "db_get (wk_db w) master_result_key = Some init_mark"
    using assms(1) by (auto simp: queue_ok_def)
  show thesis
  proof (rule that [OF h(1)])
    show "wk_db (worker_run C accept (b, jl) w) =
       db_set (enc_hash C h) (enc_request C (job_request C h (content h)))
         (db_set master_key (kl @ enc_hash C h) (wk_db w))"
      using offchain_worker_accepted [where accept = accept and C = C, OF h assms(3) rl] assms(3)
      by (simp add: worker_run_def store_request_get [OF C fits] odb.cas_eq)
  qed
qed

lemma worker_run_queue:
  assumes wf: "queue_ok C content w" and ok: "takes_job C accept content a"
  shows "queue_ok C content (worker_run C accept a w)"
    and "listed_requests (worker_run C accept a w) = listed_requests w @ [handed C a]"
proof -
  obtain b jl where a: "a = (b, jl)" by (cases a)
  obtain hs where C: "codec_laws C" and rl: "db_get (wk_db w) master_result_key = Some init_mark"
    and kl: "db_get (wk_db w) master_key = Some (key_list_of (map (enc_hash C) hs))"
    and reqs: "\<forall>h \<in> set hs. db_get (wk_db w) (enc_hash C h)
        = Some (enc_request C (job_request C h (content h)))"
    using wf by (auto simp: queue_ok_def)
  obtain h where h: "find active jl = Some (h, content h)" and db: "wk_db (worker_run C accept a w) =
       db_set (enc_hash C h) (enc_request C (job_request C h (content h)))
         (db_set master_key (key_list_of (map (enc_hash C) hs) @ enc_hash C h) (wk_db w))"
    using worker_run_db [OF wf _ kl, of accept b jl] ok unfolding a by blast
  let ?w = "worker_run C accept a w"
  have kl': "db_get (wk_db ?w) master_key = Some (key_list_of (map (enc_hash C) (hs @ [h])))"
    and get: "\<And>k. k \<noteq> master_key \<Longrightarrow> db_get (wk_db ?w) k
        = (if k = enc_hash C h then Some (enc_request C (job_request C h (content h)))
           else db_get (wk_db w) k)"
    using enc_hash_keys [OF C] enc_hash_keys(1) [OF C, THEN not_sym]
    by (auto simp: db odb.get_put key_list_of_append)
  have reqs': "\<forall>g \<in> set (hs @ [h]). db_get (wk_db ?w) (enc_hash C g)
        = Some (enc_request C (job_request C g (content g)))"
    using reqs enc_hash_keys [OF C] enc_hash_inject [OF C] by (auto simp: get)
  show "queue_ok C content ?w"
    using C rl kl' reqs' get [of master_result_key] enc_hash_keys(2) [OF C, of h, THEN not_sym]
    by (auto simp: queue_ok_def intro!: exI [of _ "hs @ [h]"])
  show "listed_requests ?w = listed_requests w @ [handed C a]"
    using listed_requests_eq(1) [OF C kl] listed_requests_eq(1) [OF C kl'] reqs reqs' h
    by (simp add: a handed_def)
qed

lemma monitor_run_queue:
  assumes "queue_ok C content w"
  shows "monitor_run w = (listed_requests w, w\<lparr>wk_db := db_set master_key init_mark (wk_db w)\<rparr>)"
proof -
  obtain hs where C: "codec_laws C"
    and kl: "db_get (wk_db w) master_key = Some (key_list_of (map (enc_hash C) hs))"
    using assms by (auto simp: queue_ok_def)
  then show ?thesis
    using monitor_round_tasks [of "wk_db w" "map (enc_hash C) hs"] listed_requests_eq [OF C kl]
    by (simp add: monitor_run_def o_def)
qed

lemma monitor_run_ok:
  assumes "queue_ok C content w"
  shows "queue_ok C content (snd (monitor_run w))" "listed_requests (snd (monitor_run w)) = []"
proof -
  have C: "codec_laws C" using assms by (simp add: queue_ok_def)
  have kl: "db_get (wk_db (snd (monitor_run w))) master_key = Some (key_list_of (map (enc_hash C) []))"
    by (simp add: monitor_run_queue [OF assms])
  from listed_requests_eq(1) [OF C kl] show "listed_requests (snd (monitor_run w)) = []"
    by simp
  show "queue_ok C content (snd (monitor_run w))"
    using assms kl by (auto simp: queue_ok_def monitor_run_queue [OF assms] odb.get_put intro: exI [of _ "[]"])
qed

interpretation hq: batch_queue "queue_ok C content" listed_requests "worker_run C accept"
    monitor_run "takes_job C accept content" "handed C" for C content accept
  by unfold_locales (auto simp: worker_run_queue monitor_run_ok monitor_run_queue [THEN arg_cong [of _ _ fst]])

text \<open>
  C9: Without interleaving the hand-over is a lossless first-in first-out queue: however
  whole runs of the worker (each taking a pending job with an accepting pool) and whole
  rounds of the monitor alternate, the started tasks followed by what is still listed are
  exactly the jobs taken, in order and each with its own request; and a final round of the
  monitor leaves nothing listed.
\<close>

theorem sequential_handover_fifo:
  assumes "codec_laws C"
    and "db_get (wk_db w) master_key = Some list_init"
    and "db_get (wk_db w) master_result_key = Some init_mark"
    and "\<forall>a \<in> set (List.map_filter id steps). takes_job C accept content a"
  shows "let (tasks, w1) = queue_run (worker_run C accept) monitor_run steps w;
         (tasks', w1') = queue_run (worker_run C accept) monitor_run (steps @ [None]) w
     in tasks @ listed_requests w1 = added (handed C) steps
      \<and> tasks' = added (handed C) steps \<and> listed_requests w1' = []"
proof -
  have wf: "queue_ok C content w"
    using assms(1-3) by (auto simp: queue_ok_def intro: exI [of _ "[]"])
  have empty: "listed_requests w = []"
    using listed_requests_eq(1) [OF assms(1), of w "[]"] assms(2) by simp
  show ?thesis
    using hq.queue_fifo(1) [OF wf empty assms(4)] hq.queue_drained [OF wf empty assms(4)]
    by (simp add: Let_def split: prod.split)
qed

theorem sequential_handover_fifo_witness:
  "let (tasks, w1) = queue_run (worker_run scale_codecs (\<lambda>_ _. True)) monitor_run
         ([Some (1, [(9, sample_job Pending)]), None,
           Some (2, [(9, sample_job Processing), (8, sample_job Pending)])] @ [None])
         (sample_worker list_init init_mark)
   in tasks = [(enc_hash scale_codecs 9, Some (enc_request scale_codecs (job_request scale_codecs 9 (sample_job Pending)))),
               (enc_hash scale_codecs 8, Some (enc_request scale_codecs (job_request scale_codecs 8 (sample_job Pending))))]
      \<and> listed_requests w1 = []"
  using sequential_handover_fifo [of scale_codecs "sample_worker list_init init_mark"
      "[Some (1, [(9, sample_job Pending)]), None,
        Some (2, [(9, sample_job Processing), (8, sample_job Pending)])]"
      "\<lambda>_ _. True" "\<lambda>_. sample_job Pending"]
  by (simp add: scale_codec_laws takes_job_def handed_def map_filter_simps Let_def
      split: prod.splits)

end
