(* ===== verification/Handover_Rounds.thy ===== *)
theory Handover_Rounds
  imports Job_Queue
begin

text \<open>
  The two views of the hand-over agree: the small steps of the monitor that no step of the
  worker interrupts make up exactly the round \<open>monitor_round\<close>, and the small steps of the
  worker exactly what a run of \<open>offchain_worker\<close> does to the database.
\<close>

section \<open>Steps of one side\<close>

text \<open>Every step of a worker moves its program counter, so a step that does not is the monitor's.\<close>

definition monitor_step :: "(bytes \<Rightarrow> bytes \<Rightarrow> bool) \<Rightarrow> handover \<Rightarrow> handover \<Rightarrow> bool" where
  "monitor_step R s t \<longleftrightarrow> handover_step R s t \<and> ho_workers t = ho_workers s"

text \<open>
  The same for a worker that runs alone, whose loop over the queue has come to the given
  command: it hands over that request, or skips.
\<close>

definition worker_step ::
  "(bytes \<Rightarrow> bytes \<Rightarrow> bool) \<Rightarrow> payload_codecs \<Rightarrow> command \<Rightarrow> handover \<Rightarrow> handover \<Rightarrow> bool" where
  "worker_step R C cmd s t \<longleftrightarrow> handover_step R s t
     \<and> ho_monitor t = ho_monitor s \<and> ho_workers t \<noteq> ho_workers s 
     \<and> length (ho_workers s) \<le> 1 \<and> length (ho_workers t) \<le> 1
     \<and> (\<forall>jv. ho_workers s = [W_read jv] \<longrightarrow>
          (case cmd of
             RequestData key_list data \<Rightarrow>
               (\<exists>p. dec_request C data = Some p \<and> ho_workers t = [W_listed (rq_job_id p) data])
               \<and> ho_db t = snd (db_compare_and_set master_key (Some jv) key_list (ho_db s))
           | _ \<Rightarrow> ho_workers t = []))"

lemma monitor_step_det: "monitor_step R s t \<Longrightarrow> monitor_step R s t' \<Longrightarrow> t = t'"
  unfolding monitor_step_def
  by (elim conjE handover_stepE) auto

definition worker_next :: "payload_codecs \<Rightarrow> command \<Rightarrow> handover \<Rightarrow> handover" where
  "worker_next C cmd s =
     (case ho_workers s of
        [] \<Rightarrow> s\<lparr>ho_workers := [W_read (the (db_get (ho_db s) master_key))]\<rparr>
      | W_read jv # ws \<Rightarrow>
          (case cmd of
             RequestData key_list data \<Rightarrow>
               s\<lparr>ho_workers := [W_listed (rq_job_id (the (dec_request C data))) data],
                 ho_db := snd (db_compare_and_set master_key (Some jv) key_list (ho_db s))\<rparr>
           | _ \<Rightarrow> s\<lparr>ho_workers := []\<rparr>)
      | W_listed k v # ws \<Rightarrow> s\<lparr>ho_workers := [], ho_db := db_set k v (ho_db s)\<rparr>)"

lemma worker_step_next: "worker_step R C cmd s t \<Longrightarrow> t = worker_next C cmd s"
  unfolding worker_step_def worker_next_def
  by (elim conjE handover_stepE) (auto split: command.splits)

lemma worker_step_det: "worker_step R C cmd s t \<Longrightarrow> worker_step R C cmd s t' \<Longrightarrow> t = t'"
  by (drule worker_step_next, drule worker_step_next, simp)

lemma relpowp_det:
  fixes P :: "'a \<Rightarrow> 'a \<Rightarrow> bool"
  assumes "\<And>s t t'. P s t \<Longrightarrow> P s t' \<Longrightarrow> t = t'"
  shows "(P ^^ n) s t \<Longrightarrow> (P ^^ n) s t' \<Longrightarrow> t = t'"
proof (induction n arbitrary: t t')
  case (Suc n)
  then obtain u u' where "(P ^^ n) s u" "P u t" "(P ^^ n) s u'" "P u' t'"
    by auto
  with Suc.IH assms show ?case by blast
qed simp

lemma relpowp_once: "P s t \<Longrightarrow> (P ^^ 1) s t" for P :: "'a \<Rightarrow> 'a \<Rightarrow> bool"
  by (simp add: eq_OO)

lemma relpowp_step: "(P ^^ n) s t \<Longrightarrow> P t u \<Longrightarrow> u = v \<Longrightarrow> (P ^^ Suc n) s v"
  for P :: "'a \<Rightarrow> 'a \<Rightarrow> bool"
  by (auto intro: relpowp_Suc_I)

lemma relpowp_trans: "(P ^^ m) s t \<Longrightarrow> (P ^^ n) t u \<Longrightarrow> u = v \<Longrightarrow> (P ^^ (m + n)) s v"
  for P :: "'a \<Rightarrow> 'a \<Rightarrow> bool"
  by (auto simp: relpowp_add)

lemma relpowp_only:
  fixes P :: "'a \<Rightarrow> 'a \<Rightarrow> bool"
  assumes "(P ^^ n) s t" "\<And>s t t'. P s t \<Longrightarrow> P s t' \<Longrightarrow> t = t'"
  shows "\<forall>u. (P ^^ n) s u \<longleftrightarrow> u = t"
proof (intro allI iffI)
  show "u = t" if "(P ^^ n) s u" for u
    by (rule relpowp_det [OF assms(2) that assms(1)])
qed (simp add: assms(1))

lemma monitor_stepI:
  "handover_step R s t \<Longrightarrow> ho_workers t = ho_workers s \<Longrightarrow> monitor_step R s t"
  by (simp add: monitor_step_def)

lemma monitor_sleeps:
  "ho_monitor s = M_fetching [] \<Longrightarrow> monitor_step R s (s\<lparr>ho_monitor := M_idle\<rparr>)"
  by (simp add: monitor_step_def m_sleep)

section \<open>A round of the monitor\<close>

lemma monitor_clears:
  assumes "ho_monitor s = M_idle" "db_get (ho_db s) master_key = Some (key_list_of ks)" "hash_keys ks"
  shows "(monitor_step R ^^ 3) s
     (s\<lparr>ho_monitor := M_fetching ks, ho_db := db_set master_key init_mark (ho_db s)\<rparr>)"
proof -
  have r1: "(monitor_step R ^^ 1) s (s\<lparr>ho_monitor := M_parsed ks\<rparr>)"
    using assms m_parse [where R = R, OF assms(1), of "key_list_of ks" ks]
    by (intro relpowp_once) (simp add: monitor_step_def read_from_offchain_db_def parse_key_list_of)
  have r2: "(monitor_step R ^^ Suc 1) s (s\<lparr>ho_monitor := M_clearing ks (Some (key_list_of ks))\<rparr>)"
    by (rule relpowp_step [OF r1 monitor_stepI [OF m_look]]) (simp_all add: assms)
  have "(monitor_step R ^^ Suc (Suc 1)) s
     (s\<lparr>ho_monitor := M_fetching ks, ho_db := db_set master_key init_mark (ho_db s)\<rparr>)"
    by (rule relpowp_step [OF r2 monitor_stepI [OF m_clear [where ks = ks and seen = "Some (key_list_of ks)"]]])
      (simp_all add: assms write_after_read_def odb.cas_eq)
  then show ?thesis by (simp add: numeral_3_eq_3)
qed

lemma monitor_fetches:
  assumes "ho_monitor s = M_fetching (ks @ rest)"
  shows "(monitor_step R ^^ length ks) s (s\<lparr>ho_monitor := M_fetching rest,
     ho_tasks := ho_tasks s @ map (\<lambda>k. (k, db_get (ho_db s) k)) ks\<rparr>)"
  using assms
proof (induction ks arbitrary: rest rule: rev_induct)
  case Nil
  then show ?case by simp
next
  case (snoc k ks)
  from snoc.prems have r: "(monitor_step R ^^ length ks) s (s\<lparr>ho_monitor := M_fetching (k # rest),
      ho_tasks := ho_tasks s @ map (\<lambda>k. (k, db_get (ho_db s) k)) ks\<rparr>)"
    by (intro snoc.IH) simp
  have "(monitor_step R ^^ Suc (length ks)) s (s\<lparr>ho_monitor := M_fetching rest,
      ho_tasks := ho_tasks s @ map (\<lambda>k. (k, db_get (ho_db s) k)) (ks @ [k])\<rparr>)"
    by (rule relpowp_step [OF r monitor_stepI [OF m_fetch [where k = k and ks = rest]]])
      (simp_all add: read_from_offchain_db_def)
  then show ?case by simp
qed

lemma monitor_round_steps:
  assumes "ho_monitor s = M_idle" "db_get (ho_db s) master_key = Some (key_list_of ks)" "hash_keys ks"
  shows "(monitor_step R ^^ (length ks + 4)) s
     (s\<lparr>ho_db := db_set master_key init_mark (ho_db s),
        ho_tasks := ho_tasks s @ map (\<lambda>k. (k, db_get (ho_db s) k)) ks\<rparr>)"
proof -
  let ?s1 = "s\<lparr>ho_monitor := M_fetching ks, ho_db := db_set master_key init_mark (ho_db s)\<rparr>"
  have keys: "k \<noteq> master_key" if "k \<in> set ks" for k
    using assms(3) that by (auto simp: hash_keys_def)
  have get: "map (\<lambda>k. (k, db_get (db_set master_key init_mark (ho_db s)) k)) ks
      = map (\<lambda>k. (k, db_get (ho_db s) k)) ks"
    using keys by (auto simp: odb.get_put)
  have "(monitor_step R ^^ (3 + length ks)) s (s\<lparr>ho_monitor := M_fetching [],
      ho_db := db_set master_key init_mark (ho_db s),
      ho_tasks := ho_tasks s @ map (\<lambda>k. (k, db_get (ho_db s) k)) ks\<rparr>)"
    by (rule relpowp_trans [OF monitor_clears [OF assms, of R] monitor_fetches [of ?s1 ks "[]" R]])
      (simp_all add: get)
  then have "(monitor_step R ^^ Suc (3 + length ks)) s (s\<lparr>ho_db := db_set master_key init_mark (ho_db s),
        ho_tasks := ho_tasks s @ map (\<lambda>k. (k, db_get (ho_db s) k)) ks\<rparr>)"
    by (rule relpowp_step) (rule monitor_sleeps, simp, use assms(1) in \<open>cases s; simp\<close>)
  then show ?thesis by (simp add: add.commute)
qed

section \<open>A run of the worker\<close>

lemma worker_reads:
  assumes "ho_workers s = []" "db_get (ho_db s) master_key = Some kl"
  shows "(worker_step R C cmd ^^ 1) s (s\<lparr>ho_workers := [W_read kl]\<rparr>)"
  using w_read [where R = R, OF assms(2)] assms(1) by (intro relpowp_once) (simp add: worker_step_def)

text \<open>A run that hands over, whether or not the pool has taken the state change.\<close>

lemma worker_hands_over:
  assumes "ho_workers s = []" "db_get (ho_db s) master_key = Some kl" "length k = 32"
    and "dec_request C data = Some p" "rq_job_id p = k \<and> R k data \<or> rq_job_id p = []"
  shows "(worker_step R C (RequestData (kl @ k) data) ^^ 3) s
     (s\<lparr>ho_db := store_request C kl (kl @ k) data (ho_db s)\<rparr>)"
proof -
  let ?cmd = "RequestData (kl @ k) data"
  let ?s2 = "s\<lparr>ho_workers := [W_listed (rq_job_id p) data], ho_db := db_set master_key (kl @ k) (ho_db s)\<rparr>"
  have "handover_step R (s\<lparr>ho_workers := [W_read kl]\<rparr>) ?s2"
    using assms(5) w_list [where R = R and us = "[]" and vs = "[]" and s = "s\<lparr>ho_workers := [W_read kl]\<rparr>" and jv = kl and k = k and v = data]
      w_list_refused [where R = R and us = "[]" and vs = "[]" and s = "s\<lparr>ho_workers := [W_read kl]\<rparr>" and jv = kl and k = k and v = data]
      assms(2,3) by (auto simp: odb.cas_eq)
  then have s2: "worker_step R C ?cmd (s\<lparr>ho_workers := [W_read kl]\<rparr>) ?s2"
    using assms(2,4) by (simp add: worker_step_def odb.cas_eq)
  have r2: "(worker_step R C ?cmd ^^ Suc 1) s ?s2"
    by (rule relpowp_step [OF worker_reads [OF assms(1,2)] s2 refl])
  have "worker_step R C ?cmd ?s2 (?s2\<lparr>ho_workers := [], ho_db := db_set (rq_job_id p) data (ho_db ?s2)\<rparr>)"
    using w_store [where R = R and us = "[]" and vs = "[]" and s = ?s2] by (simp add: worker_step_def)
  then have "(worker_step R C ?cmd ^^ Suc (Suc 1)) s (s\<lparr>ho_db := store_request C kl (kl @ k) data (ho_db s)\<rparr>)"
    by (rule relpowp_step [OF r2]) (use assms(1,2,4) in \<open>cases s; simp add: store_request_def odb.cas_eq\<close>)
  then show ?thesis by (simp add: numeral_3_eq_3)
qed

text \<open>A run that hands nothing over.\<close>

lemma worker_skips:
  assumes "ho_workers s = []" "db_get (ho_db s) master_key = Some kl"
    and "\<And>key_list data. cmd \<noteq> RequestData key_list data"
  shows "(worker_step R C cmd ^^ 2) s s"
proof -
  have "worker_step R C cmd (s\<lparr>ho_workers := [W_read kl]\<rparr>) (s\<lparr>ho_workers := []\<rparr>)"
    using w_skip [where R = R and us = "[]" and vs = "[]" and s = "s\<lparr>ho_workers := [W_read kl]\<rparr>"] assms(3)
    by (cases cmd) (auto simp: worker_step_def)
  then have "(worker_step R C cmd ^^ Suc 1) s s"
    by (rule relpowp_step [OF worker_reads [OF assms(1,2)]]) (use assms(1) in \<open>cases s; simp\<close>)
  then show ?thesis by (simp add: numeral_2_eq_2)
qed

text \<open>The accesses of a run: two to hand over after the first, or the decision to skip.\<close>

definition worker_steps :: "command \<Rightarrow> nat" where
  "worker_steps cmd = (case cmd of RequestData key_list data \<Rightarrow> 3 | _ \<Rightarrow> 2)"

text \<open>What a run leaves in the database depends only on the command of its loop.\<close>

definition after_command :: "payload_codecs \<Rightarrow> command \<Rightarrow> bytes \<Rightarrow> offchain_db \<Rightarrow> offchain_db" where
  "after_command C cmd kl db =
     (case cmd of RequestData key_list data \<Rightarrow> store_request C kl key_list data db | _ \<Rightarrow> db)"

lemma offchain_worker_db:
  assumes "ocw_do_handling_job C accept b kl jl w = (Ok cmd, w')"
    and "db_get (wk_db w) master_key = Some kl" "db_get (wk_db w) master_result_key = Some rk"
  shows "wk_db (snd (offchain_worker C accept b jl w)) = after_command C cmd kl (wk_db w)"
proof -
  have db: "wk_db w' = wk_db w"
    using assms(1) by (auto simp: handling_job_find split: option.splits if_splits)
  have results: "wk_db (snd (handle_results C accept b rk v)) = wk_db v" for v
    using handle_results_calls [of C accept b rk v] by (metis prod.collapse)
  show ?thesis
    using assms db results by (cases cmd) (simp_all add: offchain_worker_def after_command_def)
qed

lemma worker_run_steps:
  assumes "ho_workers s = []" "codec_laws C" "ho_db s = wk_db w"
    and "db_get (wk_db w) master_key = Some kl"
    and "ocw_do_handling_job C accept b kl jl w = (Ok cmd, w')"
    and "\<And>h j. (h, j) \<in> set jl \<Longrightarrow> job_status j = Pending \<Longrightarrow>
       request_fits (job_request C h j) \<and> R (enc_hash C h) (enc_request C (job_request C h j))"
  shows "(worker_step R C cmd ^^ worker_steps cmd) s (s\<lparr>ho_db := after_command C cmd kl (ho_db s)\<rparr>)"
proof (cases "\<exists>key_list data. cmd = RequestData key_list data")
  case True
  then obtain key_list data where RequestData: "cmd = RequestData key_list data"
    by blast
  with assms(5) obtain h j where find: "find active jl = Some (h, j)" "job_status j \<noteq> Finish"
    and key: "key_list = kl @ enc_hash C h"
    and data: "data = enc_request C (job_request C h j) \<or> data = enc_request C default_request"
    by (auto simp: handling_job_find split: option.splits if_splits)
  have pending: "(h, j) \<in> set jl" "job_status j = Pending"
    using find_active_Some [OF find(1)] find(2) by auto
  have len: "length (enc_hash C h) = 32" by (rule codec_lawsD(3) [OF assms(2)])
  have "request_fits default_request" "rq_job_id default_request = []"
    by (simp_all add: default_request_def request_fits_def fits_def)
  then obtain p where "dec_request C data = Some p"
      "rq_job_id p = enc_hash C h \<and> R (enc_hash C h) data \<or> rq_job_id p = []"
    using data assms(6) [OF pending] codec_lawsD(1) [OF assms(2)] by (auto simp: job_request_def)
  from worker_hands_over [where kl = kl and R = R and C = C, OF assms(1) _ len this] show ?thesis
    using RequestData key assms(3,4) by (simp add: after_command_def worker_steps_def)
next
  case False
  then have "(worker_step R C cmd ^^ 2) s s"
    using worker_skips [OF assms(1), of kl cmd R C] assms(3,4) by simp
  moreover have "s\<lparr>ho_db := after_command C cmd kl (ho_db s)\<rparr> = s"
    using False by (cases s; cases cmd) (simp_all add: after_command_def)
  moreover have "worker_steps cmd = 2"
    using False by (cases cmd) (simp_all add: worker_steps_def)
  ultimately show ?thesis by simp
qed

section \<open>Both views agree\<close>

text \<open>
  C23: Uninterrupted steps are the sequential definitions. From an idle state with a list of
  keys, the only outcome of that many steps of the monitor (four and one per key) is what
  \<open>monitor_round\<close> computes, database and tasks. And for every run of \<open>offchain_worker\<close> on a
  database with both lists, whatever the pool and the result list, and whether its loop
  hands over a job, is refused its state change, finds nothing active or a finished job,
  the only outcome of the steps of the worker (three to hand over, two otherwise) is the
  database that the run leaves.
\<close>

theorem handover_steps_sequential:
  assumes "ho_workers s = []" "ho_monitor s = M_idle" "codec_laws C" "ho_db s = wk_db w"
    and "db_get (wk_db w) master_key = Some (key_list_of ks)" "hash_keys ks"
    and "db_get (wk_db w) master_result_key = Some rk"
    and "ocw_do_handling_job C accept b (key_list_of ks) jl w = (Ok cmd, w')"
    and "\<And>h j. (h, j) \<in> set jl \<Longrightarrow> job_status j = Pending \<Longrightarrow>
       request_fits (job_request C h j) \<and> R (enc_hash C h) (enc_request C (job_request C h j))"
  shows "(\<exists>tasks db. monitor_round (ho_db s) = Ok (tasks, db)
       \<and> (\<forall>t. (monitor_step R ^^ (length tasks + 4)) s t
            \<longleftrightarrow> t = s\<lparr>ho_db := db, ho_tasks := ho_tasks s @ tasks\<rparr>))
     \<and> (\<forall>t. (worker_step R C cmd ^^ worker_steps cmd) s t
          \<longleftrightarrow> t = s\<lparr>ho_db := wk_db (snd (offchain_worker C accept b jl w))\<rparr>)"
proof
  let ?tasks = "map (\<lambda>k. (k, db_get (ho_db s) k)) ks"
  have list: "db_get (ho_db s) master_key = Some (key_list_of ks)"
    by (simp add: assms(4,5))
  have "\<forall>t. (monitor_step R ^^ (length ?tasks + 4)) s t
      \<longleftrightarrow> t = s\<lparr>ho_db := db_set master_key init_mark (ho_db s), ho_tasks := ho_tasks s @ ?tasks\<rparr>"
    by (rule relpowp_only [OF _ monitor_step_det])
      (use monitor_round_steps [OF assms(2) list assms(6), of R] in simp)
  with monitor_round_tasks [of "ho_db s" ks] list assms(6)
  show "\<exists>tasks db. monitor_round (ho_db s) = Ok (tasks, db)
       \<and> (\<forall>t. (monitor_step R ^^ (length tasks + 4)) s t
            \<longleftrightarrow> t = s\<lparr>ho_db := db, ho_tasks := ho_tasks s @ tasks\<rparr>)"
    by (intro exI [of _ ?tasks]) auto
  have "(worker_step R C cmd ^^ worker_steps cmd) s (s\<lparr>ho_db := wk_db (snd (offchain_worker C accept b jl w))\<rparr>)"
    using worker_run_steps [where R = R, OF assms(1,3,4,5,8,9)]
    unfolding offchain_worker_db [OF assms(8,5,7)] assms(4) .
  then show "\<forall>t. (worker_step R C cmd ^^ worker_steps cmd) s t
      \<longleftrightarrow> t = s\<lparr>ho_db := wk_db (snd (offchain_worker C accept b jl w))\<rparr>"
    by (rule relpowp_only) (rule worker_step_det)
qed

text \<open>A run that hands the job 9 over while a result is announced.\<close>

theorem handover_steps_sequential_witness:
  "let w = sample_worker init_mark (init_mark @ h256_bytes 8);
       s = \<lparr>ho_db = wk_db w, ho_workers = [], ho_monitor = M_idle, ho_tasks = []\<rparr>;
       cmd = RequestData (init_mark @ h256_bytes 9)
         (enc_request scale_codecs (job_request scale_codecs 9 (sample_job Pending)))
   in \<forall>t. (worker_step (\<lambda>_ _. True) scale_codecs cmd ^^ 3) s t
        \<longleftrightarrow> t = s\<lparr>ho_db := wk_db (snd (offchain_worker scale_codecs (\<lambda>_ _. True) 1
              [(9, sample_job Pending)] w))\<rparr>"
proof -
  let ?w = "sample_worker init_mark (init_mark @ h256_bytes 8)"
  let ?s = "\<lparr>ho_db = wk_db ?w, ho_workers = [], ho_monitor = M_idle, ho_tasks = []\<rparr>"
  have "ocw_do_handling_job scale_codecs (\<lambda>_ _. True) 1 (key_list_of []) [(9, sample_job Pending)] ?w =
      (Ok (RequestData (init_mark @ h256_bytes 9)
         (enc_request scale_codecs (job_request scale_codecs 9 (sample_job Pending)))),
       ?w\<lparr>wk_pool := [Change_job_state 1 9], wk_events := wk_events ?w @ [UnsignedTx 1]\<rparr>)"
    by (simp add: handling_job_find scale_codecs_def)
  from handover_steps_sequential [of ?s scale_codecs ?w "[]" _ _ _ _ _ _ "\<lambda>_ _. True", OF _ _ _ _ _ _ _ this]
  show ?thesis
    by (simp add: scale_codec_laws worker_steps_def)
qed

end
