(* ===== verification/Round_Simulation.thy ===== *)
theory Round_Simulation
  imports Job_System Handover_Rounds
begin

text \<open>
  The sequential rounds of theory \<open>Job_Pipeline\<close> are runs of the step relation of theory
  \<open>Job_System\<close>: what is proved of every reachable state holds of every round, and the two
  models of the executor and the worker agree.
\<close>

section \<open>Running whole parts\<close>

lemma system_steps:
  assumes "(handover_step (handed_over (ws_codecs X) (js_chain s)))\<^sup>*\<^sup>* (js_handover s) t"
    and "system_reach cfg X run s"
  shows "system_reach cfg X run (s\<lparr>js_handover := t\<rparr>)"
  using assms
proof (induction rule: rtranclp_induct)
  case base
  then show ?case by (cases s) simp
next
  case (step t u)
  then show ?case using js_hand [of cfg X run "s\<lparr>js_handover := t\<rparr>" u] by simp
qed

lemma relpowp_steps:
  assumes "(P ^^ n) s t" "\<And>s t. P s t \<Longrightarrow> Q s t"
  shows "Q\<^sup>*\<^sup>* s t"
  using relpowp_imp_rtranclp [OF assms(1)] assms(2) by (rule mono_rtranclp [rule_format, rotated]) blast

text \<open>The pool's calls are applied as a run of the chain.\<close>

lemma include_pool_run:
  "include_pool cfg X calls s = ws_run cfg X [] (map (\<lambda>c. Inr (Unsigned, c)) calls) s"
  unfolding include_pool_def by (induction calls arbitrary: s) simp_all

text \<open>A worker that submits listed results: what it puts in the pool is what the node has submitted.\<close>

fun submits_result :: "ws_call \<Rightarrow> bool" where
  "submits_result (Submit_result_unsiged b k v p t) \<longleftrightarrow> True"
| "submits_result _ \<longleftrightarrow> False"

lemma system_submits:
  assumes "codec_laws (ws_codecs X)" "submit_results (ws_codecs X) accept b ks w = (e, w')"
    and "system_reach cfg X run s" "js_to_submit s = ks" "js_db s = wk_db w"
  shows "\<exists>cs. wk_pool w' = wk_pool w @ cs \<and> list_all submits_result cs \<and> wk_db w' = wk_db w
     \<and> system_reach cfg X run (s\<lparr>js_to_submit := [], js_submitted := js_submitted s @ cs\<rparr>)"
  using assms(2-5)
proof (induction ks arbitrary: w s)
  case Nil
  then show ?case using js_stop [OF Nil.prems(2)] by (intro exI [of _ "[]"]) auto
next
  case (Cons k ks)
  let ?call = "result_call (ws_codecs X) b (wk_db w) k"
  show ?case
  proof (cases ?call)
    case None
    with Cons.prems(1) have "submit_results (ws_codecs X) accept b ks w = (e, w')"
      by (simp add: result_call_def split: option.splits)
    with Cons.IH [OF this js_skip [OF Cons.prems(2), of "[]", simplified, OF Cons.prems(3)]] Cons.prems(4) show ?thesis by simp
  next
    case (Some c)
    then obtain i r a t where c: "c = Submit_result_unsiged b i r a t"
      by (auto simp: result_call_def split: option.splits)
    have run: "submit_results (ws_codecs X) accept b (k # ks) w =
        (if accept (wk_pool w) c then submit_results (ws_codecs X) accept b ks
           (w\<lparr>wk_pool := wk_pool w @ [c], wk_events := wk_events w @ [UnsignedTx b]\<rparr>)
         else (Panicked, w))"
      using Some c codec_lawsD(6) [OF assms(1)]
      by (auto simp: result_call_def ocw_do_submit_result_def submit_and_report_def
          submit_unsigned_transaction_def split: option.splits)
    show ?thesis
    proof (cases "accept (wk_pool w) c")
      case False
      with run Cons.prems(1) have "w' = w" by simp
      with js_stop [OF Cons.prems(2)] show ?thesis by (intro exI [of _ "[]"]) simp
    next
      case True
      let ?w = "w\<lparr>wk_pool := wk_pool w @ [c], wk_events := wk_events w @ [UnsignedTx b]\<rparr>"
      let ?s = "s\<lparr>js_to_submit := ks, js_submitted := js_submitted s @ [c]\<rparr>"
      have s: "system_reach cfg X run ?s"
        using js_submit [OF Cons.prems(2), of "[]", simplified, OF Cons.prems(3), of b c] Some Cons.prems(4) by simp
      have "submit_results (ws_codecs X) accept b ks ?w = (e, w')"
        using run True Cons.prems(1) by simp
      from Cons.IH [OF this s] Cons.prems(4) obtain cs where
        "wk_pool w' = (wk_pool w @ [c]) @ cs" "list_all submits_result cs" "wk_db w' = wk_db w"
        "system_reach cfg X run (s\<lparr>js_to_submit := [], js_submitted := (js_submitted s @ [c]) @ cs\<rparr>)"
        by auto
      then show ?thesis by (intro exI [of _ "c # cs"]) (simp add: c)
    qed
  qed
qed

lemma system_handles_results:
  assumes "codec_laws (ws_codecs X)" "handle_results (ws_codecs X) accept b rv w = (e, w')"
    and "system_reach cfg X run s" "js_to_submit s = []" "js_db s = wk_db w"
    and "db_get (wk_db w) master_result_key = Some rv"
  shows "\<exists>cs. wk_pool w' = wk_pool w @ cs \<and> list_all submits_result cs \<and> wk_db w' = wk_db w
     \<and> system_reach cfg X run (s\<lparr>js_submitted := js_submitted s @ cs\<rparr>)"
proof (cases "ocw_do_handling_result rv")
  case (Ok ks)
  have "system_reach cfg X run (s\<lparr>js_to_submit := ks\<rparr>)"
    using js_results [OF assms(3) _ Ok] assms(4-6) by simp
  from system_submits [OF assms(1) _ this, of accept b ks w e w'] Ok assms(2,4,5)
  show ?thesis by (cases s) (simp add: handle_results_def)
next
  case (Err x)
  then show ?thesis using assms(2,3) by (intro exI [of _ "[]"]) (simp add: handle_results_def)
next
  case Panic
  then show ?thesis using assms(2,3) by (intro exI [of _ "[]"]) (simp add: handle_results_def)
qed

section \<open>The worker\<close>

text \<open>The state of the system while nothing is under way.\<close>

definition at_rest :: "job_system \<Rightarrow> bool" where
  "at_rest s \<longleftrightarrow> ho_workers (js_handover s) = [] \<and> ho_monitor (js_handover s) = M_idle
     \<and> js_listener s = L_idle \<and> js_channel s = [] \<and> js_to_submit s = []"

lemma w_list_steps:
  assumes "ho_workers s = []" "db_get (ho_db s) master_key = Some kl" "length k = 32"
    and "R k v \<and> k' = k \<and> v' = v \<or> k' = []"
  shows "(handover_step R)\<^sup>*\<^sup>* s (s\<lparr>ho_db := db_set k' v' (db_set master_key (kl @ k) (ho_db s))\<rparr>)"
proof -
  let ?s1 = "s\<lparr>ho_workers := [W_read kl]\<rparr>"
  let ?s2 = "s\<lparr>ho_workers := [W_listed k' v'], ho_db := db_set master_key (kl @ k) (ho_db s)\<rparr>"
  have "handover_step R s ?s1"
    using w_read [where R = R, OF assms(2)] assms(1) by simp
  moreover have "handover_step R ?s1 ?s2"
    using assms(2-4) w_list [where R = R and us = "[]" and vs = "[]" and s = ?s1 and jv = kl and k = k and v = v]
      w_list_refused [where R = R and us = "[]" and vs = "[]" and s = ?s1 and jv = kl and k = k and v = v']
    by (auto simp: odb.cas_eq)
  moreover have "handover_step R ?s2 (s\<lparr>ho_db := db_set k' v' (db_set master_key (kl @ k) (ho_db s))\<rparr>)"
    using w_store [where R = R and us = "[]" and vs = "[]" and s = ?s2] assms(1) by (cases s) simp
  ultimately show ?thesis
    by (meson converse_rtranclp_into_rtranclp rtranclp.rtrancl_refl)
qed

text \<open>What a run of the worker does before it handles results: nothing, or one entry in the list.\<close>

lemma worker_cases:
  assumes "codec_laws C" "\<And>h j. find active jl = Some (h, j) \<Longrightarrow> request_fits (job_request C h j)"
    and "offchain_worker C accept b jl w = (e, w')"
  obtains (idle) "w' = w"
  | (results) rv where "db_get (wk_db w) master_result_key = Some rv" "handle_results C accept b rv w = (e, w')"
  | (listed) rv kl h j k v w0 where "db_get (wk_db w) master_result_key = Some rv"
      "db_get (wk_db w) master_key = Some kl" "handle_results C accept b rv w0 = (e, w')"
      "find active jl = Some (h, j)"
      "k = enc_hash C h \<and> v = enc_request C (job_request C h j) \<or> k = []"
      "wk_db w0 = db_set k v (db_set master_key (kl @ enc_hash C h) (wk_db w))"
      "wk_pool w0 = wk_pool w \<or> wk_pool w0 = wk_pool w @ [Change_job_state b h]"
proof (cases "db_get (wk_db w) master_key")
  case None
  with assms(3) show ?thesis by (intro idle) (simp add: offchain_worker_def)
next
  case kl: (Some kl)
  show ?thesis
  proof (cases "db_get (wk_db w) master_result_key")
    case None
    with assms(3) kl show ?thesis by (intro idle) (simp add: offchain_worker_def)
  next
    case rv: (Some rv)
    show ?thesis
    proof (cases "find active jl")
      case None
      with assms(3) kl rv show ?thesis by (intro idle) (simp add: offchain_worker_def handling_job_find)
    next
      case (Some hj)
      obtain h j where hj: "find active jl = Some (h, j)" using Some by (cases hj) simp
      let ?req = "enc_request C (job_request C h j)"
      consider "job_status j = Finish" | "job_status j = Pending" "accept (wk_pool w) (Change_job_state b h)"
        | "job_status j = Pending" "\<not> accept (wk_pool w) (Change_job_state b h)"
        using find_active_Some(2) [OF hj] by blast
      then show ?thesis
      proof cases
        case 1
        show ?thesis
          by (rule results [OF rv]) (use offchain_worker_finish [OF hj 1, of C accept b w] kl rv assms(3) in simp)
      next
        case 2
        show ?thesis
          by (rule listed [OF rv kl _ hj, of "w\<lparr>wk_pool := wk_pool w @ [Change_job_state b h],
                wk_events := wk_events w @ [UnsignedTx b],
                wk_db := db_set (enc_hash C h) ?req (db_set master_key (kl @ enc_hash C h) (wk_db w))\<rparr>"
              "enc_hash C h" ?req])
            (use offchain_worker_accepted [where accept = accept and C = C, OF hj 2 kl rv] assms(3)
              store_request_get [OF assms(1) assms(2) [OF hj]] kl in \<open>simp_all add: odb.cas_eq\<close>)
      next
        case 3
        show ?thesis
          by (rule listed [OF rv kl _ hj, of "w\<lparr>wk_db := db_set [] (enc_request C default_request)
                (db_set master_key (kl @ enc_hash C h) (wk_db w))\<rparr>"
              "[]" "enc_request C default_request"])
            (use offchain_worker_refused [where accept = accept and C = C, OF hj 3 kl rv] assms(3)
              codec_lawsD(1) [OF assms(1) default_request_fits] kl in
              \<open>simp_all add: odb.cas_eq store_request_def default_request_def\<close>)
      qed
    qed
  qed
qed

lemma results_filter:
  "list_all submits_result cs \<Longrightarrow> filter submits_result cs = cs"
  by (simp add: list_all_iff)

lemma system_worker:
  assumes C: "codec_laws (ws_codecs X)" and inv: "ws_inv cfg X (js_chain s)"
    and jl: "iterates jl (js_chain s)" and s: "system_reach cfg X run s" "at_rest s"
    and w: "js_db s = wk_db w" "wk_pool w = []"
    and work: "offchain_worker (ws_codecs X) accept b jl w = (e, w')"
  shows "system_reach cfg X run (s\<lparr>js_handover := set_db (wk_db w') (js_handover s),
     js_submitted := js_submitted s @ filter submits_result (wk_pool w')\<rparr>)"
proof -
  let ?C = "ws_codecs X"
  have same: "s\<lparr>js_handover := set_db (wk_db w) (js_handover s)\<rparr> = s"
    using w(1) by (cases s; cases "js_handover s") simp
  have after: "system_reach cfg X run (s\<lparr>js_handover := set_db (wk_db w') (js_handover s),
      js_submitted := js_submitted s @ filter submits_result (wk_pool w')\<rparr>)"
    if "handle_results ?C accept b rv w0 = (e, w')" "db_get (wk_db w0) master_result_key = Some rv"
      "system_reach cfg X run (s\<lparr>js_handover := set_db (wk_db w0) (js_handover s)\<rparr>)"
      "filter submits_result (wk_pool w0) = []" for rv w0
    using system_handles_results [OF C that(1,3)] that(2,4) s(2)
    by (fastforce simp: at_rest_def results_filter)
  from C _ work show ?thesis
  proof (rule worker_cases)
    show "request_fits (job_request ?C h j)" if "find active jl = Some (h, j)" for h j
      by (rule job_request_fits [OF C inv find_iterates [OF jl that]])
  next
    assume "w' = w"
    with same s(1) w(2) show ?thesis by (cases s) simp
  next
    fix rv
    assume "db_get (wk_db w) master_result_key = Some rv" "handle_results ?C accept b rv w = (e, w')"
    then show ?thesis using after [of rv w] same s(1) w(2) by simp
  next
    fix rv kl h j k v w0
    assume rv: "db_get (wk_db w) master_result_key = Some rv" and kl: "db_get (wk_db w) master_key = Some kl"
      and handle: "handle_results ?C accept b rv w0 = (e, w')" and hj: "find active jl = Some (h, j)"
      and kv: "k = enc_hash ?C h \<and> v = enc_request ?C (job_request ?C h j) \<or> k = []"
      and db: "wk_db w0 = db_set k v (db_set master_key (kl @ enc_hash ?C h) (wk_db w))"
      and pool: "wk_pool w0 = wk_pool w \<or> wk_pool w0 = wk_pool w @ [Change_job_state b h]"
    have job: "handed_over ?C (js_chain s) (enc_hash ?C h) (enc_request ?C (job_request ?C h j))"
      using find_iterates [OF jl hj] unfolding handed_over_def by blast
    have "(handover_step (handed_over ?C (js_chain s)))\<^sup>*\<^sup>* (js_handover s) (set_db (wk_db w0) (js_handover s))"
      unfolding db w(1) [symmetric]
      by (rule w_list_steps [where v = "enc_request ?C (job_request ?C h j)"])
        (use s(2) w(1) kl kv job codec_lawsD(3) [OF C] in \<open>auto simp: at_rest_def\<close>)
    from system_steps [OF this s(1)]
    have "system_reach cfg X run (s\<lparr>js_handover := set_db (wk_db w0) (js_handover s)\<rparr>)" .
    moreover have "db_get (wk_db w0) master_result_key = Some rv"
      using kv rv codec_lawsD(3) [OF C, of h] by (auto simp: db odb.get_put)
    moreover have "filter submits_result (wk_pool w0) = []"
      using pool w(2) by auto
    ultimately show ?thesis using after [OF handle] by simp
  qed
qed

section \<open>The monitor, the tasks and the listener\<close>

lemma system_monitor:
  assumes "system_reach cfg X run s" "at_rest s" "\<exists>v. db_get (js_db s) master_key = Some v \<and> listed v"
    and "monitor_round (js_db s) = Ok (tasks, db2)"
  shows "system_reach cfg X run (s\<lparr>js_handover := (js_handover s)\<lparr>ho_db := db2,
     ho_tasks := ho_tasks (js_handover s) @ tasks\<rparr>\<rparr>)"
proof -
  let ?R = "handed_over (ws_codecs X) (js_chain s)"
  obtain ks where ks: "db_get (js_db s) master_key = Some (key_list_of ks)" "hash_keys ks"
    using assms(3) by (auto simp: listed_def)
  have "tasks = map (\<lambda>k. (k, db_get (js_db s) k)) ks" "db2 = db_set master_key init_mark (js_db s)"
    using monitor_round_tasks [of "js_db s" ks] ks assms(4) by simp_all
  then have "(monitor_step ?R ^^ (length ks + 4)) (js_handover s)
      ((js_handover s)\<lparr>ho_db := db2, ho_tasks := ho_tasks (js_handover s) @ tasks\<rparr>)"
    using monitor_round_steps [of "js_handover s" ks ?R] ks assms(2) by (simp add: at_rest_def)
  then have "(handover_step ?R)\<^sup>*\<^sup>* (js_handover s)
      ((js_handover s)\<lparr>ho_db := db2, ho_tasks := ho_tasks (js_handover s) @ tasks\<rparr>)"
    by (rule relpowp_steps) (simp add: monitor_step_def)
  then show ?thesis by (rule system_steps [OF _ assms(1)])
qed

lemma system_tasks:
  assumes "system_reach cfg X run s" "at_rest s" "set ts \<subseteq> set (ho_tasks (js_handover s))"
  shows "system_reach cfg X run (s\<lparr>js_handover := set_db
     (fold (result_listener_round (ws_codecs X) (js_key s)) (task_results (ws_codecs X) (run n) elapsed ts) (js_db s))
     (js_handover s)\<rparr>)"
  using assms
proof (induction ts arbitrary: s)
  case Nil
  then show ?case by (cases s; cases "js_handover s") (simp add: task_results_def map_filter_simps)
next
  case (Cons tk ts)
  let ?C = "ws_codecs X"
  obtain k p where tk: "tk = (k, p)" by (cases tk)
  show ?case
  proof (cases "\<exists>r. executor_task ?C (run n) elapsed p = Ok (Some r)")
    case False
    then have "task_results ?C (run n) elapsed (tk # ts) = task_results ?C (run n) elapsed ts"
      by (auto simp: tk task_results_def map_filter_simps split: outcome.split option.split)
    with Cons show ?thesis by simp
  next
    case True
    then obtain r where r: "executor_task ?C (run n) elapsed p = Ok (Some r)" by blast
    let ?s = "s\<lparr>js_handover := set_db (result_listener_round ?C (js_key s) r (js_db s)) (js_handover s)\<rparr>"
    have "system_reach cfg X run (s\<lparr>js_channel := [r]\<rparr>)"
      using js_task [OF Cons.prems(1) _ r] Cons.prems(2,3) by (auto simp: tk at_rest_def)
    from listener_steps [OF this, of r "[]"] Cons.prems(2)
    have "system_reach cfg X run ?s" by (cases s) (simp add: at_rest_def)
    moreover have "at_rest ?s" "set ts \<subseteq> set (ho_tasks (js_handover ?s))"
      using Cons.prems(2,3) by (simp_all add: at_rest_def)
    ultimately show ?thesis
      using Cons.IH [of ?s] r by (simp add: tk task_results_def map_filter_simps)
  qed
qed

section \<open>A round of a node\<close>

text \<open>
  C4: The sequential model is an instance of the concurrent one: from a reachable state at
  rest, a round of a node (the worker, the inclusion of what it submitted, one pass of the
  monitor, every task and the listener's writes) is a run of the system, which ends at rest
  with the round's chain and database, having submitted exactly the results that the
  round's worker put in the pool.
\<close>

theorem node_round_in_system:
  assumes codecs: "ws_codecs X = scale_codecs" "unat (max_script_size cfg) < 2 ^ 30" "runs_fit run"
    and s: "system_reach cfg X run s" "at_rest s" "js_db s = wk_db w" "iterates jl (js_chain s)"
    and round: "node_round cfg X accept (run n) elapsed (js_key s) jl (js_chain s, w) = (s1, w1)"
  shows "\<exists>t. system_reach cfg X run t \<and> at_rest t \<and> js_chain t = s1 \<and> js_db t = wk_db w1
     \<and> js_key t = js_key s \<and> js_submitted t = js_submitted s @ filter submits_result (wk_pool w1)"
proof -
  let ?C = "ws_codecs X"
  let ?inv = "system_inv cfg X run"
  have inv: "?inv t" if "system_reach cfg X run t" for t
    using system_inv_reach [OF that] codecs scale_payloads_apart by simp
  have C: "codec_laws ?C" and chain: "ws_inv cfg X (js_chain s)"
    using codecs(1) scale_codec_laws inv [OF s(1)] by (simp_all add: system_inv_def)
  obtain e w2 where w2: "offchain_worker ?C accept (ws_block (js_chain s)) jl (w\<lparr>wk_pool := []\<rparr>) = (e, w2)"
    by fastforce
  define t1 where "t1 = s\<lparr>js_handover := set_db (wk_db w2) (js_handover s),
      js_submitted := js_submitted s @ filter submits_result (wk_pool w2)\<rparr>"
  define t2 where "t2 = t1\<lparr>js_chain := include_pool cfg X (wk_pool w2) (js_chain s)\<rparr>"
  have "system_reach cfg X run t1"
    unfolding t1_def by (rule system_worker [OF C chain s(4,1,2) _ _ w2]) (simp_all add: s(3))
  then have t2: "system_reach cfg X run t2" "at_rest t2"
    using js_calls [of cfg X run t1 "[]" "map (\<lambda>c. Inr (Unsigned, c)) (wk_pool w2)"] s(2)
    by (simp_all add: t2_def t1_def include_pool_run at_rest_def)
  have list: "\<exists>v. db_get (js_db t2) master_key = Some v \<and> listed v"
    using inv [OF t2(1)] by (auto simp: system_inv_def handover_inv_def)
  then obtain tasks db2 where m: "monitor_round (wk_db w2) = Ok (tasks, db2)"
    using monitor_round_tasks [of "wk_db w2"] by (auto simp: listed_def t2_def t1_def)
  define t3 where "t3 = t2\<lparr>js_handover := (js_handover t2)\<lparr>ho_db := db2,
      ho_tasks := ho_tasks (js_handover t2) @ tasks\<rparr>\<rparr>"
  have t3: "system_reach cfg X run t3" "at_rest t3" "set tasks \<subseteq> set (ho_tasks (js_handover t3))"
    using system_monitor [OF t2 list, of tasks db2] m t2(2)
    by (simp_all add: t3_def t2_def t1_def at_rest_def)
  define t4 where "t4 = t3\<lparr>js_handover := set_db (fold (result_listener_round ?C (js_key t3))
      (task_results ?C (run n) elapsed tasks) (js_db t3)) (js_handover t3)\<rparr>"
  have "system_reach cfg X run t4" "at_rest t4"
    using system_tasks [OF t3, of n elapsed] t3(2) by (simp_all add: t4_def at_rest_def)
  moreover have "s1 = include_pool cfg X (wk_pool w2) (js_chain s)"
      "w1 = w2\<lparr>wk_db := fold (result_listener_round ?C (js_key s)) (task_results ?C (run n) elapsed tasks) db2\<rparr>"
    using round m by (simp_all add: node_round_def w2 Let_def)
  ultimately show ?thesis
    by (intro exI [of _ t4]) (simp add: t4_def t3_def t2_def t1_def)
qed

theorem node_round_in_system_witness:
  "\<exists>s w h j s1 w1 t. system_reach runtime_ws_config sample_externals (\<lambda>_ _ _. Ok [7]) s \<and> at_rest s
     \<and> jobs (js_chain s) = [h \<mapsto> j] \<and> job_status j = Pending
     \<and> node_round runtime_ws_config sample_externals (\<lambda>_ _. True) (\<lambda>_ _. Ok [7]) 0 (js_key s) [(h, j)]
         (js_chain s, w) = (s1, w1)
     \<and> system_reach runtime_ws_config sample_externals (\<lambda>_ _ _. Ok [7]) t \<and> at_rest t
     \<and> js_chain t = s1 \<and> js_db t = wk_db w1"
proof -
  let ?X = sample_externals and ?cfg = runtime_ws_config
  let ?run = "\<lambda>(_ :: nat) (_ :: rust_string) (_ :: bytes). (Ok [7] :: (string, bytes) outcome)"
  let ?c = "ws_run ?cfg ?X [] (requested_steps [50]) ws_genesis"
  let ?s = "booted ws_genesis (ho_db handover_start) 0 [] \<lparr>js_chain := ?c\<rparr>"
  let ?w = "\<lparr>wk_db = ho_db handover_start, wk_pool = [], wk_events = []\<rparr>"
  obtain h j where j: "jobs ?c = [h \<mapsto> j]" "job_status j = Pending"
    using requested_queue [of "[50]"] by auto
  have "system_reach ?cfg ?X ?run (booted ws_genesis (ho_db handover_start) 0 [])"
    by (rule js_boot [OF handover_start_run_executor])
  from js_calls [OF this, where collators = "[]" and steps = "requested_steps [50]"]
  obtain s where s: "system_reach ?cfg ?X ?run s" "at_rest s" "js_db s = wk_db ?w"
      "jobs (js_chain s) = [h \<mapsto> j]"
    using j(1) by (intro that [of ?s]) (simp_all add: booted_def at_rest_def)
  then have jl: "iterates [(h, j)] (js_chain s)" by (simp add: iterates_def)
  obtain s1 w1 where round:
      "node_round ?cfg ?X (\<lambda>_ _. True) (?run 0) 0 (js_key s) [(h, j)] (js_chain s, ?w) = (s1, w1)"
    by fastforce
  have run: "ws_codecs ?X = scale_codecs" "unat (max_script_size ?cfg) < 2 ^ 30" "runs_fit ?run"
    by (simp_all add: sample_externals_def runtime_ws_config_def runs_fit_def fits_def)
  from node_round_in_system [OF run s(1,2,3) jl round] s round j(2) show ?thesis by metis
qed

end
