(* ===== verification/Ocw_Pallet.thy ===== *)
theory Ocw_Pallet
  imports Byte_Views
begin

text \<open>
  The on-chain half of \<open>pallets/ocw-pallet/src/lib.rs\<close>: staked processors, submitted prices
  and their average, API urls, and the validation of unsigned prices. The balances pallet
  is third-party: it is the record \<open>currency\<close> of the functions the code calls, over a type
  \<open>'b\<close> of balance states, and what the code relies on is \<open>currency_laws\<close>.
\<close>

section \<open>The balances pallet\<close>

text \<open>A negative imbalance is modelled by its amount.\<close>

record 'b currency =
  cur_free :: "'b \<Rightarrow> account \<Rightarrow> balance"
  cur_reserved :: "'b \<Rightarrow> account \<Rightarrow> balance"
  cur_minimum :: balance
  cur_make_free :: "account \<Rightarrow> balance \<Rightarrow> 'b \<Rightarrow> 'b"
  cur_reserve :: "account \<Rightarrow> balance \<Rightarrow> 'b \<Rightarrow> 'b option"
  cur_unreserve :: "account \<Rightarrow> balance \<Rightarrow> 'b \<Rightarrow> 'b"
  cur_slash_reserved :: "account \<Rightarrow> balance \<Rightarrow> 'b \<Rightarrow> balance \<times> balance \<times> 'b"
  cur_resolve :: "account \<Rightarrow> balance \<Rightarrow> 'b \<Rightarrow> 'b"

text \<open>
  Documented behaviour of \<open>ReservableCurrency\<close> and \<open>Currency\<close>: reserving moves the amount
  from free to reserved or fails; unreserving moves back at most what is reserved; slashing
  removes at most what is reserved and returns the removed amount and the shortfall;
  resolving adds an imbalance to the free balance of an account that exists (holds the
  minimum). Other accounts are not touched.
\<close>

definition currency_laws :: "'b currency \<Rightarrow> bool" where
  "currency_laws K \<longleftrightarrow>
     (\<forall>b who. cur_reserve K who 0 b = Some b) \<and>
     (\<forall>b who a b'. cur_reserve K who a b = Some b' \<longrightarrow>
        a \<le> cur_free K b who \<and>
        cur_free K b' = (cur_free K b)(who := cur_free K b who - a) \<and>
        cur_reserved K b' = (cur_reserved K b)(who := cur_reserved K b who + a)) \<and>
     (\<forall>b who a. cur_free K (cur_unreserve K who a b)
          = (cur_free K b)(who := cur_free K b who + min a (cur_reserved K b who)) \<and>
        cur_reserved K (cur_unreserve K who a b)
          = (cur_reserved K b)(who := cur_reserved K b who - min a (cur_reserved K b who))) \<and>
     (\<forall>b who a. fst (cur_slash_reserved K who a b) = min a (cur_reserved K b who) \<and>
        fst (snd (cur_slash_reserved K who a b)) = a - min a (cur_reserved K b who) \<and>
        cur_free K (snd (snd (cur_slash_reserved K who a b))) = cur_free K b \<and>
        cur_reserved K (snd (snd (cur_slash_reserved K who a b)))
          = (cur_reserved K b)(who := cur_reserved K b who - min a (cur_reserved K b who))) \<and>
     (\<forall>b who a. cur_minimum K \<le> cur_free K b who \<longrightarrow>
        cur_free K (cur_resolve K who a b) = (cur_free K b)(who := cur_free K b who + a) \<and>
        cur_reserved K (cur_resolve K who a b) = cur_reserved K b) \<and>
     (\<forall>b who a. cur_minimum K \<le> a \<longrightarrow>
        cur_free K (cur_make_free K who a b) = (cur_free K b)(who := a) \<and>
        cur_reserved K (cur_make_free K who a b) = cur_reserved K b)"

section \<open>Storage, configuration, events and errors\<close>

record ocw_config =
  unsigned_interval :: block_number
  grace_period :: block_number
  ocw_unsigned_priority :: u64
  max_prices :: u32
  min_stake_amount :: u32
  treasury_account :: account

text \<open>
  The values of \<open>runtime/src/configs/mod.rs\<close>; the treasury account is
  \<open>PalletId(*b"stk_proc").into_account_truncating()\<close>, a third-party derivation.
\<close>

definition runtime_ocw_config :: "account \<Rightarrow> ocw_config" where
  "runtime_ocw_config treasury =
     \<lparr>unsigned_interval = 3, grace_period = 3, ocw_unsigned_priority = 3, max_prices = 500,
      min_stake_amount = 1, treasury_account = treasury\<rparr>"

record processor_meta =
  total_stake :: balance
  credit_score :: u32
  nominators :: "(account \<times> balance) set"

datatype ocw_event =
    NewPrice u32 "account option"
  | OcwUnsignedTx block_number
  | AddNewUrl account u32
  | ProcessorStaked account balance
  | ProcessorRemove account
  | SlashEvent account balance balance
  | TreasuryAcc account balance

datatype ocw_error =
    UnresolveOrigin | UrlTooLong | BytesTooLong | HashingProblem | InsufficientFund
  | AlreadyStaked | NonExisted | Duplicated

record 'b ocw_state =
  prices :: "u32 list"
  api_urls :: "account \<times> u32 \<rightharpoonup> bytes"
  hash_store :: "bytes \<rightharpoonup> h256"
  staked :: "account \<rightharpoonup> processor_meta"
  next_unsigned_at :: block_number
  ocw_block :: block_number
  ocw_events :: "ocw_event list"
  balances :: 'b

type_synonym 'b ocw_outcome = "(ocw_error dispatch_error, 'b ocw_state) outcome"

definition emit :: "ocw_event \<Rightarrow> 'b ocw_state \<Rightarrow> 'b ocw_state" where
  "emit e s = s\<lparr>ocw_events := ocw_events s @ [e]\<rparr>"

section \<open>Genesis\<close>

definition genesis_build :: "'b currency \<Rightarrow> ocw_config \<Rightarrow> 'b ocw_state \<Rightarrow> 'b ocw_state" where
  "genesis_build K cfg s =
     (let treasury_acc = treasury_account cfg; min_bal = cur_minimum K in
      if cur_free K (balances s) treasury_acc < min_bal
      then s\<lparr>balances := cur_make_free K treasury_acc min_bal (balances s)\<rparr> else s)"

section \<open>Staking\<close>

definition stake ::
  "'b currency \<Rightarrow> ocw_config \<Rightarrow> origin \<Rightarrow> balance \<Rightarrow> 'b ocw_state \<Rightarrow> 'b ocw_outcome" where
  "stake K cfg orig stake_amount s =
     and_then (ensure_signed orig) (\<lambda>who.
     and_then (ensure (staked s who = None) (ModuleError AlreadyStaked)) (\<lambda>_.
     and_then (ensure (stake_amount < ucast (min_stake_amount cfg)) (ModuleError InsufficientFund)) (\<lambda>_.
     case cur_reserve K who stake_amount (balances s) of
       Some b' \<Rightarrow>
         Ok (emit (ProcessorStaked who stake_amount)
           (s\<lparr>balances := b', staked := (staked s)(who \<mapsto>
              \<lparr>total_stake = stake_amount, credit_score = 80, nominators = {}\<rparr>)\<rparr>))
     | None \<Rightarrow> Ok s)))"

definition un_stake :: "'b currency \<Rightarrow> origin \<Rightarrow> 'b ocw_state \<Rightarrow> 'b ocw_outcome" where
  "un_stake K orig s =
     and_then (ensure_signed orig) (\<lambda>who.
     case staked s who of
       None \<Rightarrow> Err (ModuleError NonExisted)
     | Some val \<Rightarrow>
         let current_reserved = cur_reserved K (balances s) who in
         Ok (emit (ProcessorRemove who)
           (s\<lparr>balances := cur_unreserve K who current_reserved (balances s),
              staked := (staked s)(who := None)\<rparr>)))"

definition slash ::
  "'b currency \<Rightarrow> ocw_config \<Rightarrow> origin \<Rightarrow> account \<Rightarrow> balance \<Rightarrow> 'b ocw_state \<Rightarrow> 'b ocw_outcome" where
  "slash K cfg orig mock_target slash_amount s =
     and_then (ensure_signed orig) (\<lambda>who.
     let current_reserved = cur_reserved K (balances s) who in
     and_then (ensure (current_reserved < slash_amount) (ModuleError InsufficientFund)) (\<lambda>_.
     and_then (ensure (staked s who = None) (ModuleError NonExisted)) (\<lambda>_.
     case cur_slash_reserved K mock_target slash_amount (balances s) of
       (imb, remain, b') \<Rightarrow>
         Ok (emit (SlashEvent mock_target slash_amount remain)
           (s\<lparr>balances := cur_resolve K (treasury_account cfg) imb b'\<rparr>)))))"

definition test_acc :: "'b currency \<Rightarrow> ocw_config \<Rightarrow> origin \<Rightarrow> 'b ocw_state \<Rightarrow> 'b ocw_outcome" where
  "test_acc K cfg orig s =
     and_then (ensure_signed orig) (\<lambda>_.
     let who = treasury_account cfg; free = cur_free K (balances s) who in
     Ok (emit (TreasuryAcc who free) s))"

section \<open>Prices\<close>

definition average_of :: "u32 list \<Rightarrow> u32 option" where
  "average_of ps =
     (if ps = [] then None else Some (fold (\<lambda>b a. saturating_add a b) ps 0 div of_nat (length ps)))"

definition average_price :: "'b ocw_state \<Rightarrow> u32 option" where
  "average_price s = average_of (prices s)"

text \<open>
  \<open>try_push\<close>, or else the assignment to the index \<open>price % MaxPrices\<close>, which panics when the
  bound is zero or the index is out of range.
\<close>

definition push_price :: "ocw_config \<Rightarrow> u32 \<Rightarrow> u32 list \<Rightarrow> (ocw_error dispatch_error, u32 list) outcome" where
  "push_price cfg price ps =
     (if length ps < unat (max_prices cfg) then Ok (ps @ [price])
      else if max_prices cfg = 0 then Panic
      else let i = unat (price mod max_prices cfg) in
           if i < length ps then Ok (ps[i := price]) else Panic)"

definition add_data :: "ocw_config \<Rightarrow> account option \<Rightarrow> u32 \<Rightarrow> 'b ocw_state \<Rightarrow> 'b ocw_outcome" where
  "add_data cfg maybe_who price s =
     and_then (push_price cfg price (prices s)) (\<lambda>ps.
     let s' = s\<lparr>prices := ps\<rparr> in
     and_then (expect (average_price s')) (\<lambda>average.
     Ok (emit (NewPrice price maybe_who) s')))"

definition submit_price :: "ocw_config \<Rightarrow> origin \<Rightarrow> u32 \<Rightarrow> 'b ocw_state \<Rightarrow> 'b ocw_outcome" where
  "submit_price cfg orig price s =
     and_then (ensure_signed orig) (\<lambda>who. add_data cfg (Some who) price s)"

definition schedule_next :: "ocw_config \<Rightarrow> 'b ocw_state \<Rightarrow> 'b ocw_state" where
  "schedule_next cfg s = s\<lparr>next_unsigned_at := ocw_block s + unsigned_interval cfg\<rparr>"

definition submit_price_unsigned ::
  "ocw_config \<Rightarrow> origin \<Rightarrow> block_number \<Rightarrow> u32 \<Rightarrow> 'b ocw_state \<Rightarrow> 'b ocw_outcome" where
  "submit_price_unsigned cfg orig block price s =
     and_then (ensure_none orig) (\<lambda>_.
     and_then (add_data cfg None price s) (\<lambda>s'. Ok (schedule_next cfg s')))"

record price_payload =
  pp_block_number :: block_number
  pp_price :: u32
  pp_public :: pubkey

type_synonym signature = bytes

definition submit_price_unsigned_with_signed_payload ::
  "ocw_config \<Rightarrow> origin \<Rightarrow> price_payload \<Rightarrow> signature \<Rightarrow> 'b ocw_state \<Rightarrow> 'b ocw_outcome" where
  "submit_price_unsigned_with_signed_payload cfg orig payload sig s =
     and_then (ensure_none orig) (\<lambda>_.
     and_then (add_data cfg None (pp_price payload) s) (\<lambda>s'. Ok (schedule_next cfg s')))"

section \<open>API urls\<close>

definition submit_api_url ::
  "origin \<Rightarrow> u32 \<Rightarrow> rust_string \<Rightarrow> 'b ocw_state \<Rightarrow> 'b ocw_outcome" where
  "submit_api_url orig topic_id api_url s =
     and_then (ensure_signed_or_root orig) (\<lambda>singer.
     case singer of
       Some who \<Rightarrow>
         and_then (expect (bounded 256 api_url)) (\<lambda>api_url_bytes.
         Ok (emit (AddNewUrl who (of_nat (length api_url_bytes)))
           (s\<lparr>api_urls := (api_urls s)((who, topic_id) \<mapsto> api_url_bytes)\<rparr>)))
     | None \<Rightarrow> Err BadOrigin)"

section \<open>Dispatch and validation\<close>

datatype ocw_call =
    Stake balance
  | Un_stake
  | Slash account balance
  | Test_acc
  | Submit_price u32
  | Submit_price_unsigned block_number u32
  | Submit_price_signed_payload price_payload signature
  | Submit_api_url u32 rust_string

fun ocw_dispatch ::
  "'b currency \<Rightarrow> ocw_config \<Rightarrow> origin \<times> ocw_call \<Rightarrow> 'b ocw_state \<Rightarrow> 'b ocw_outcome" where
  "ocw_dispatch K cfg (orig, Stake a) s = stake K cfg orig a s"
| "ocw_dispatch K cfg (orig, Un_stake) s = un_stake K orig s"
| "ocw_dispatch K cfg (orig, Slash t a) s = slash K cfg orig t a s"
| "ocw_dispatch K cfg (orig, Test_acc) s = test_acc K cfg orig s"
| "ocw_dispatch K cfg (orig, Submit_price p) s = submit_price cfg orig p s"
| "ocw_dispatch K cfg (orig, Submit_price_unsigned b p) s = submit_price_unsigned cfg orig b p s"
| "ocw_dispatch K cfg (orig, Submit_price_signed_payload pl sig) s =
     submit_price_unsigned_with_signed_payload cfg orig pl sig s"
| "ocw_dispatch K cfg (orig, Submit_api_url t u) s = submit_api_url orig t u s"

definition abs_diff :: "u32 \<Rightarrow> u32 \<Rightarrow> u32" where
  "abs_diff price new_price = (if new_price < price then price - new_price else new_price - price)"

definition validate_transaction_parameters ::
  "ocw_config \<Rightarrow> block_number \<Rightarrow> u32 \<Rightarrow> 'b ocw_state \<Rightarrow> transaction_validity" where
  "validate_transaction_parameters cfg block new_price s =
     (if next_unsigned_at s > block then Err Stale
      else if ocw_block s < block then Err Future
      else let avg_price = (case average_price s of
                 Some price \<Rightarrow> abs_diff price new_price | None \<Rightarrow> 0)
           in Ok \<lparr>vt_tag_prefix = ''OffchainWorker'',
                  vt_priority = saturating_add (ocw_unsigned_priority cfg) (ucast avg_price),
                  vt_provides = [next_unsigned_at s], vt_longevity = 5, vt_propagate = True\<rparr>)"

text \<open>\<open>verify\<close> is the signature check of the application crypto.\<close>

fun ocw_validate_unsigned ::
  "(price_payload \<Rightarrow> signature \<Rightarrow> bool) \<Rightarrow> ocw_config \<Rightarrow> ocw_call \<Rightarrow> 'b ocw_state
     \<Rightarrow> transaction_validity" where
  "ocw_validate_unsigned verify cfg (Submit_price_signed_payload payload sig) s =
     (if \<not> verify payload sig then Err BadProof
      else validate_transaction_parameters cfg (pp_block_number payload) (pp_price payload) s)"
| "ocw_validate_unsigned verify cfg (Submit_price_unsigned block new_price) s =
     validate_transaction_parameters cfg block new_price s"
| "ocw_validate_unsigned verify cfg _ s = Err InvalidCall"

end
