(* ===== verification/Ocw_Props.thy ===== *)
theory Ocw_Props
  imports Ocw_Pallet
begin

text \<open>
  What the calls of \<open>ocw-pallet\<close> keep and allow: the storage invariant over every run, the
  average price, the spacing of unsigned submissions, and what staking and slashing do to
  balances under the laws of the balances pallet.
\<close>

section \<open>A ledger that satisfies the laws\<close>

text \<open>A reference instance of the balances pallet, for the concrete instances of properties.\<close>

record ledger =
  lg_free :: "account \<Rightarrow> balance"
  lg_reserved :: "account \<Rightarrow> balance"

definition ledger_currency :: "ledger currency" where
  "ledger_currency =
     \<lparr>cur_free = lg_free, cur_reserved = lg_reserved, cur_minimum = 1,
      cur_make_free = (\<lambda>who a b. b\<lparr>lg_free := (lg_free b)(who := a)\<rparr>),
      cur_reserve = (\<lambda>who a b.
        if a \<le> lg_free b who
        then Some (b\<lparr>lg_free := (lg_free b)(who := lg_free b who - a),
                     lg_reserved := (lg_reserved b)(who := lg_reserved b who + a)\<rparr>)
        else None),
      cur_unreserve = (\<lambda>who a b. let m = min a (lg_reserved b who) in
        b\<lparr>lg_free := (lg_free b)(who := lg_free b who + m),
          lg_reserved := (lg_reserved b)(who := lg_reserved b who - m)\<rparr>),
      cur_slash_reserved = (\<lambda>who a b. let m = min a (lg_reserved b who) in
        (m, a - m, b\<lparr>lg_reserved := (lg_reserved b)(who := lg_reserved b who - m)\<rparr>)),
      cur_resolve = (\<lambda>who a b. b\<lparr>lg_free := (lg_free b)(who := lg_free b who + a)\<rparr>)\<rparr>"

lemma ledger_laws: "currency_laws ledger_currency"
  by (auto simp: currency_laws_def ledger_currency_def Let_def fun_upd_idem)

lemma currency_lawsD:
  assumes "currency_laws K"
  shows "cur_reserve K who 0 b = Some b"
    and "cur_reserve K who a b = Some b' \<Longrightarrow> a \<le> cur_free K b who \<and>
        cur_free K b' = (cur_free K b)(who := cur_free K b who - a) \<and>
        cur_reserved K b' = (cur_reserved K b)(who := cur_reserved K b who + a)"
    and "cur_free K (cur_unreserve K who a b)
          = (cur_free K b)(who := cur_free K b who + min a (cur_reserved K b who))"
    and "cur_reserved K (cur_unreserve K who a b)
          = (cur_reserved K b)(who := cur_reserved K b who - min a (cur_reserved K b who))"
    and "cur_slash_reserved K who a b = (imb, rem, b') \<Longrightarrow>
        imb = min a (cur_reserved K b who) \<and> rem = a - imb \<and> cur_free K b' = cur_free K b \<and>
        cur_reserved K b' = (cur_reserved K b)(who := cur_reserved K b who - imb)"
    and "cur_minimum K \<le> cur_free K b who \<Longrightarrow>
        cur_free K (cur_resolve K who a b) = (cur_free K b)(who := cur_free K b who + a) \<and>
        cur_reserved K (cur_resolve K who a b) = cur_reserved K b"
proof -
  note laws = assms [unfolded currency_laws_def]
  show "cur_reserve K who 0 b = Some b" using laws by blast
  show "cur_reserve K who a b = Some b' \<Longrightarrow> a \<le> cur_free K b who \<and>
        cur_free K b' = (cur_free K b)(who := cur_free K b who - a) \<and>
        cur_reserved K b' = (cur_reserved K b)(who := cur_reserved K b who + a)"
    using laws by blast
  show "cur_free K (cur_unreserve K who a b)
          = (cur_free K b)(who := cur_free K b who + min a (cur_reserved K b who))"
    "cur_reserved K (cur_unreserve K who a b)
          = (cur_reserved K b)(who := cur_reserved K b who - min a (cur_reserved K b who))"
    using laws by blast+
  show "cur_slash_reserved K who a b = (imb, rem, b') \<Longrightarrow>
        imb = min a (cur_reserved K b who) \<and> rem = a - imb \<and> cur_free K b' = cur_free K b \<and>
        cur_reserved K b' = (cur_reserved K b)(who := cur_reserved K b who - imb)"
    using laws by (metis fst_conv snd_conv)
  show "cur_minimum K \<le> cur_free K b who \<Longrightarrow>
        cur_free K (cur_resolve K who a b) = (cur_free K b)(who := cur_free K b who + a) \<and>
        cur_reserved K (cur_resolve K who a b) = cur_reserved K b"
    using laws by blast
qed

section \<open>The storage invariant\<close>

type_synonym ocw_step = "block_number + origin \<times> ocw_call"

fun ocw_exec :: "'b currency \<Rightarrow> ocw_config \<Rightarrow> ocw_step \<Rightarrow> 'b ocw_state \<Rightarrow> 'b ocw_outcome" where
  "ocw_exec K cfg (Inl n) s = Ok (s\<lparr>ocw_block := n\<rparr>)"
| "ocw_exec K cfg (Inr c) s = ocw_dispatch K cfg c s"

definition ocw_genesis :: "'b currency \<Rightarrow> ocw_config \<Rightarrow> 'b \<Rightarrow> 'b ocw_state" where
  "ocw_genesis K cfg b = genesis_build K cfg
     \<lparr>prices = [], api_urls = Map.empty, hash_store = Map.empty, staked = Map.empty,
      next_unsigned_at = 0, ocw_block = 0, ocw_events = [], balances = b\<rparr>"

definition ocw_inv :: "ocw_config \<Rightarrow> 'b ocw_state \<Rightarrow> bool" where
  "ocw_inv cfg s \<longleftrightarrow>
     length (prices s) \<le> unat (max_prices cfg) \<and>
     (\<forall>a m. staked s a = Some m \<longrightarrow>
        total_stake m < ucast (min_stake_amount cfg) \<and> credit_score m = 80 \<and> nominators m = {}) \<and>
     (\<forall>k u. api_urls s k = Some u \<longrightarrow> length u \<le> 256)"

lemma ocw_inv_update [simp]:
  "ocw_inv cfg (s\<lparr>balances := b\<rparr>) = ocw_inv cfg s"
  "ocw_inv cfg (s\<lparr>ocw_block := n\<rparr>) = ocw_inv cfg s"
  "ocw_inv cfg (s\<lparr>ocw_events := es\<rparr>) = ocw_inv cfg s"
  "ocw_inv cfg (s\<lparr>next_unsigned_at := n\<rparr>) = ocw_inv cfg s"
  by (simp_all add: ocw_inv_def)

lemma emit_inv [simp]: "ocw_inv cfg (emit e s) = ocw_inv cfg s"
  by (simp add: emit_def)

lemma genesis_inv: "ocw_inv cfg (ocw_genesis K cfg b)"
  by (simp add: ocw_genesis_def genesis_build_def Let_def) (simp add: ocw_inv_def)

lemma push_price_length:
  "push_price cfg p ps = Ok ps' \<Longrightarrow> length ps \<le> unat (max_prices cfg) \<Longrightarrow>
     length ps' \<le> unat (max_prices cfg) \<and> ps' \<noteq> []"
  by (auto simp: push_price_def Let_def split: if_splits)

lemma add_data_Ok_iff:
  "add_data cfg who p s = Ok s' \<longleftrightarrow>
     (\<exists>ps. push_price cfg p (prices s) = Ok ps \<and> ps \<noteq> [] \<and>
        s' = emit (NewPrice p who) (s\<lparr>prices := ps\<rparr>))"
proof (cases "push_price cfg p (prices s)")
  case (Ok ps)
  then show ?thesis
    by (cases "ps = []") (auto simp: add_data_def average_price_def average_of_def Let_def)
qed (simp_all add: add_data_def)

lemma add_data_inv: "add_data cfg who p s = Ok s' \<Longrightarrow> ocw_inv cfg s \<Longrightarrow> ocw_inv cfg s'"
  using push_price_length [of cfg p "prices s"] by (auto simp: add_data_Ok_iff emit_def ocw_inv_def)

lemma ocw_dispatch_inv:
  assumes "ocw_dispatch K cfg c s = Ok s'" "ocw_inv cfg s"
  shows "ocw_inv cfg s'"
proof -
  obtain orig call where c: "c = (orig, call)" by (cases c)
  show ?thesis
  proof (cases call)
    case (Stake a)
    with assms c show ?thesis
      by (auto simp: stake_def and_then_Ok ocw_inv_def emit_def split: option.splits if_splits)
  next
    case Un_stake
    with assms c show ?thesis
      by (auto simp: un_stake_def and_then_Ok ocw_inv_def emit_def Let_def split: option.splits if_splits)
  next
    case (Slash t a)
    with assms c show ?thesis
      by (auto simp: slash_def and_then_Ok Let_def split: prod.splits)
  next
    case Test_acc
    with assms c show ?thesis by (auto simp: test_acc_def and_then_Ok Let_def)
  next
    case (Submit_price p)
    with assms c show ?thesis by (auto simp: submit_price_def and_then_Ok intro: add_data_inv)
  next
    case (Submit_price_unsigned b p)
    with assms c show ?thesis
      by (auto simp: submit_price_unsigned_def schedule_next_def and_then_Ok intro: add_data_inv)
  next
    case (Submit_price_signed_payload pl sg)
    with assms c show ?thesis
      by (auto simp: submit_price_unsigned_with_signed_payload_def schedule_next_def and_then_Ok
          intro: add_data_inv)
  next
    case (Submit_api_url t u)
    with assms c show ?thesis
      by (auto simp: submit_api_url_def and_then_Ok ocw_inv_def emit_def split: option.splits if_splits)
  qed
qed

interpretation ocw_safe: call_invariant "ocw_exec K cfg" "ocw_inv cfg" for K cfg
proof
  fix s c s'
  assume "ocw_inv cfg s" "ocw_exec K cfg c s = Ok s'"
  then show "ocw_inv cfg s'"
    by (cases c) (auto intro: ocw_dispatch_inv)
qed

abbreviation ocw_run :: "'b currency \<Rightarrow> ocw_config \<Rightarrow> ocw_step list \<Rightarrow> 'b ocw_state \<Rightarrow> 'b ocw_state" where
  "ocw_run K cfg \<equiv> run_calls (ocw_exec K cfg)"

lemma ocw_reachable: "ocw_inv cfg (ocw_run K cfg steps (ocw_genesis K cfg b))"
  by (rule ocw_safe.run_inv) (rule genesis_inv)

text \<open>
  In every reachable state the list of prices holds at most \<open>MaxPrices\<close> entries, stored
  urls have at most 256 bytes, and every staked processor has a stake below
  \<open>MinStakeAmount\<close>, the initial credit score and no nominator.
\<close>

lemma ocw_reachable_inv:
  "let s = ocw_run K cfg steps (ocw_genesis K cfg b) in
     length (prices s) \<le> unat (max_prices cfg)
     \<and> (\<forall>k. case api_urls s k of None \<Rightarrow> True | Some u \<Rightarrow> length u \<le> 256)
     \<and> (\<forall>a. case staked s a of None \<Rightarrow> True
          | Some m \<Rightarrow> total_stake m < ucast (min_stake_amount cfg) \<and> credit_score m = 80
              \<and> nominators m = {})"
  using ocw_reachable [of cfg K steps b]
  by (auto simp: ocw_inv_def Let_def split: option.splits)

section \<open>Prices\<close>

lemma push_price_total:
  assumes "length ps \<le> unat (max_prices cfg)" "max_prices cfg \<noteq> 0"
  shows "\<exists>ps'. push_price cfg p ps = Ok ps' \<and> ps' \<noteq> [] \<and> p \<in> set ps'"
proof (cases "length ps < unat (max_prices cfg)")
  case False
  with assms have len: "length ps = unat (max_prices cfg)" by simp
  have "0 < unat (max_prices cfg)" using assms(2) by (simp add: unat_gt_0)
  then have "unat (p mod max_prices cfg) < length ps"
    using len by (simp add: unat_mod)
  then show ?thesis
    using False assms(2) len set_update_memI [of "unat (p mod max_prices cfg)" ps p]
    by (auto simp: push_price_def Let_def)
qed (simp add: push_price_def)

text \<open>
  C36: In every reachable state a signed account's price is accepted without a panic (the
  \<open>expect\<close> on the average and the index into the full list never fail), the price is in
  the list afterwards, and the list still respects its bound.
\<close>

theorem submit_price_never_panics:
  assumes "max_prices cfg \<noteq> 0"
  shows "\<exists>s'. submit_price cfg (Signed who) p (ocw_run K cfg steps (ocw_genesis K cfg b)) = Ok s'
     \<and> p \<in> set (prices s') \<and> length (prices s') \<le> unat (max_prices cfg)"
proof -
  let ?s = "ocw_run K cfg steps (ocw_genesis K cfg b)"
  have len: "length (prices ?s) \<le> unat (max_prices cfg)"
    using ocw_reachable [of cfg K steps b] by (simp add: ocw_inv_def)
  from push_price_total [OF len assms, of p] obtain ps where ps:
      "push_price cfg p (prices ?s) = Ok ps" "ps \<noteq> []" "p \<in> set ps" by blast
  have "submit_price cfg (Signed who) p ?s = Ok (emit (NewPrice p (Some who)) (?s\<lparr>prices := ps\<rparr>))"
    using ps(1,2) by (auto simp: submit_price_def add_data_Ok_iff)
  then show ?thesis
    using ps push_price_length [OF ps(1) len] by (auto simp: emit_def)
qed

theorem submit_price_never_panics_witness:
  "\<exists>s'. submit_price (runtime_ocw_config 7) (Signed 1) 42
       (ocw_run ledger_currency (runtime_ocw_config 7) [Inr (Unsigned, Submit_price_unsigned 0 9)]
         (ocw_genesis ledger_currency (runtime_ocw_config 7)
           \<lparr>lg_free = (\<lambda>_. 0), lg_reserved = (\<lambda>_. 0)\<rparr>)) = Ok s'
     \<and> 42 \<in> set (prices s')"
  using submit_price_never_panics [of "runtime_ocw_config 7"]
  by (fastforce simp: runtime_ocw_config_def)

lemma fold_saturating:
  "unat (fold (\<lambda>b a. saturating_add a b) ps (acc :: u32))
     = min (unat acc + sum_list (map unat ps)) (2 ^ 32 - 1)"
proof (induction ps arbitrary: acc)
  case Nil
  have "unat acc < 2 ^ 32" using unsigned_less [of acc, where 'a = nat] by simp
  then show ?case by simp
next
  case (Cons p ps)
  show ?case
    unfolding fold_Cons comp_apply Cons.IH unat_saturating_add by simp
qed

lemma average_of_unat:
  assumes "ps \<noteq> []" "length ps < 2 ^ 32"
  shows "\<exists>a. average_of ps = Some a
     \<and> unat a = min (sum_list (map unat ps)) (2 ^ 32 - 1) div length ps"
  using assms fold_saturating [of ps 0]
  by (simp add: average_of_def unat_div unat_of_nat_small)

lemma sum_list_le: "\<forall>p \<in> set ps. unat p \<le> m \<Longrightarrow> sum_list (map unat ps) \<le> m * length (ps :: u32 list)"
  by (induction ps) (auto simp: add_mono)

lemma le_sum_list: "\<forall>p \<in> set ps. m \<le> unat p \<Longrightarrow> m * length (ps :: u32 list) \<le> sum_list (map unat ps)"
  by (induction ps) (auto simp: add_mono)

text \<open>
  C37: The reported average of a reachable list of prices is exact as long as the prices sum
  to less than \<open>2 ^ 32\<close> (it is the sum divided by their number, rounded down, hence between
  the smallest and the largest price); a larger sum saturates and the average is the
  quotient of the largest \<open>u32\<close>.
\<close>

theorem average_price_spec:
  assumes "prices s \<noteq> []" and "ocw_inv cfg s"
  shows "\<exists>a. average_price s = Some a
     \<and> unat a = min (sum_list (map unat (prices s))) (2 ^ 32 - 1) div length (prices s)
     \<and> (\<forall>m. (\<forall>p \<in> set (prices s). p \<le> m) \<longrightarrow> a \<le> m)
     \<and> (sum_list (map unat (prices s)) < 2 ^ 32 \<longrightarrow>
          (\<forall>m. (\<forall>p \<in> set (prices s). m \<le> p) \<longrightarrow> m \<le> a))"
proof -
  let ?ps = "prices s"
  let ?sum = "sum_list (map unat ?ps)"
  have "length ?ps \<le> unat (max_prices cfg)" "unat (max_prices cfg) < 2 ^ 32"
    using assms(2) unsigned_less [of "max_prices cfg", where 'a = nat] by (auto simp: ocw_inv_def)
  then have "length ?ps < 2 ^ 32" by linarith
  from average_of_unat [OF assms(1) this] obtain a where a: "average_of ?ps = Some a"
    "unat a = min ?sum (2 ^ 32 - 1) div length ?ps" by blast
  have len: "0 < length ?ps" using assms(1) by simp
  have "a \<le> m" if "\<forall>p \<in> set ?ps. p \<le> m" for m
  proof -
    have "?sum \<le> unat m * length ?ps"
      using that by (intro sum_list_le) (simp add: word_le_nat_alt)
    then have "?sum div length ?ps \<le> unat m"
      by (metis div_le_mono div_mult_self_is_m len)
    moreover have "unat a \<le> ?sum div length ?ps"
      unfolding a(2) by (rule div_le_mono) simp
    ultimately show ?thesis by (simp add: word_le_nat_alt)
  qed
  moreover have "m \<le> a" if "?sum < 2 ^ 32" "\<forall>p \<in> set ?ps. m \<le> p" for m
  proof -
    have "unat m * length ?ps \<le> ?sum"
      using that(2) by (intro le_sum_list) (simp add: word_le_nat_alt)
    then have "unat m \<le> ?sum div length ?ps"
      by (metis div_le_mono div_mult_self_is_m len)
    moreover have "min ?sum (2 ^ 32 - 1) = ?sum"
      using that(1) by simp
    ultimately show ?thesis using a(2) by (simp add: word_le_nat_alt)
  qed
  ultimately show ?thesis
    using a by (auto simp: average_price_def)
qed

text \<open>An empty ledger and the state the witnesses start from.\<close>

definition sample_ocw :: "ledger ocw_state" where
  "sample_ocw = ocw_genesis ledger_currency (runtime_ocw_config 7)
     \<lparr>lg_free = (\<lambda>_. 100), lg_reserved = (\<lambda>a. if a = 5 then 40 else 0)\<rparr>"

lemma sample_ocw_simps [simp]:
  "staked sample_ocw = Map.empty" "prices sample_ocw = []" "next_unsigned_at sample_ocw = 0"
  "ocw_block sample_ocw = 0" "cur_reserved ledger_currency (balances sample_ocw) a = (if a = 5 then 40 else 0)"
  "cur_free ledger_currency (balances sample_ocw) a = 100" "cur_minimum ledger_currency = 1"
  by (simp_all add: sample_ocw_def ocw_genesis_def genesis_build_def ledger_currency_def
      runtime_ocw_config_def Let_def)

theorem average_price_spec_witness:
  "\<exists>a. average_price (sample_ocw\<lparr>prices := [4, 8]\<rparr>) = Some a \<and> unat a = 6"
proof -
  have "ocw_inv (runtime_ocw_config 7) (sample_ocw\<lparr>prices := [4, 8]\<rparr>)"
    by (simp add: ocw_inv_def sample_ocw_def ocw_genesis_def genesis_build_def ledger_currency_def
        runtime_ocw_config_def Let_def)
  then obtain a where a: "average_price (sample_ocw\<lparr>prices := [4, 8]\<rparr>) = Some a"
      "unat a = min (sum_list (map unat (prices (sample_ocw\<lparr>prices := [4, 8]\<rparr>)))) (2 ^ 32 - 1)
         div length (prices (sample_ocw\<lparr>prices := [4, 8]\<rparr>))"
    using average_price_spec [of "sample_ocw\<lparr>prices := [4, 8]\<rparr>" "runtime_ocw_config 7"]
    by (metis (no_types, lifting) list.distinct(1) ocw_state.select_convs(1) ocw_state.surjective
        ocw_state.update_convs(1))
  from a(2) have "unat a = 6" by (simp flip: numeral_2_eq_2)
  with a(1) show ?thesis by blast
qed

text \<open>
  Once the list of prices is full, a new price does not replace the oldest one: it
  overwrites exactly the slot whose index is the price modulo \<open>MaxPrices\<close> and leaves every
  other slot, so repeating a price never changes the list again.
\<close>

lemma full_list_overwrites_by_value:
  assumes "length (prices s) = unat (max_prices cfg)" and "max_prices cfg \<noteq> 0"
  shows "\<exists>s'. add_data cfg who p s = Ok s'
     \<and> prices s' = (prices s)[unat p mod length (prices s) := p]
     \<and> (\<forall>t w. add_data cfg w p s' = Ok t \<longrightarrow> prices t = prices s')"
proof -
  let ?n = "length (prices s)"
  have n: "0 < ?n" using assms by (simp add: unat_gt_0)
  have idx: "unat (p mod max_prices cfg) = unat p mod ?n" by (simp add: unat_mod assms(1))
  have lt: "unat p mod ?n < ?n" using n by simp
  have push: "push_price cfg p ps = Ok (ps[unat p mod ?n := p])" if "length ps = ?n" for ps
    using that assms lt by (simp add: push_price_def idx Let_def)
  have "prices s \<noteq> []" using n by simp
  then have "add_data cfg who p s = Ok (emit (NewPrice p who) (s\<lparr>prices := (prices s)[unat p mod ?n := p]\<rparr>))"
    using push [of "prices s"] by (auto simp: add_data_Ok_iff)
  then show ?thesis
    using push [of "(prices s)[unat p mod ?n := p]"]
    by (intro exI conjI) (assumption, auto simp: emit_def add_data_Ok_iff)
qed

section \<open>Validation and spacing of unsigned prices\<close>

text \<open>
  Validation of unsigned prices, on every call and branch: a signed payload whose
  signature does not verify is a bad proof; then the block that the call names must lie
  between the scheduled block and the current one; an accepted price is tagged by the
  scheduled block and gets a priority that grows with its distance from the current
  average. Every other call is refused.
\<close>

lemma ocw_validate_unsigned_spec:
  "ocw_validate_unsigned verify cfg call s =
     (let verdict = (\<lambda>b p.
          if b < next_unsigned_at s then Err Stale
          else if ocw_block s < b then Err Future
          else Ok \<lparr>vt_tag_prefix = ''OffchainWorker'',
                 vt_priority = saturating_add (ocw_unsigned_priority cfg)
                   (ucast (case average_price s of None \<Rightarrow> 0 | Some a \<Rightarrow> if a \<le> p then p - a else a - p)),
                 vt_provides = [next_unsigned_at s], vt_longevity = 5, vt_propagate = True\<rparr>)
      in case call of
           Submit_price_unsigned b p \<Rightarrow> verdict b p
         | Submit_price_signed_payload pl sig \<Rightarrow>
             if verify pl sig then verdict (pp_block_number pl) (pp_price pl) else Err BadProof
         | _ \<Rightarrow> Err InvalidCall)"
proof -
  have abs: "abs_diff a p = (if a \<le> p then p - a else a - p)" for a p
    by (auto simp: abs_diff_def)
  have par: "validate_transaction_parameters cfg b p s =
      (if b < next_unsigned_at s then Err Stale
       else if ocw_block s < b then Err Future
       else Ok \<lparr>vt_tag_prefix = ''OffchainWorker'',
              vt_priority = saturating_add (ocw_unsigned_priority cfg)
                (ucast (case average_price s of None \<Rightarrow> 0 | Some a \<Rightarrow> if a \<le> p then p - a else a - p)),
              vt_provides = [next_unsigned_at s], vt_longevity = 5, vt_propagate = True\<rparr>)" for b p
    by (simp add: validate_transaction_parameters_def Let_def abs split: option.split)
  show ?thesis
    by (cases call) (simp_all add: par)
qed

lemma validate_Ok_block:
  "validate_transaction_parameters cfg b p s = Ok v \<Longrightarrow> next_unsigned_at s \<le> b \<and> b \<le> ocw_block s"
  by (auto simp: validate_transaction_parameters_def split: if_splits)

lemma run_no_unsigned_next:
  assumes "\<forall>st \<in> set steps. \<forall>c. st = Inr c \<longrightarrow> fst c \<noteq> Unsigned"
  shows "next_unsigned_at (ocw_run K cfg steps s) = next_unsigned_at s"
  using assms
proof (induction steps arbitrary: s)
  case (Cons st steps)
  have "next_unsigned_at s' = next_unsigned_at s" if "ocw_exec K cfg st s = Ok s'" for s'
  proof (cases st)
    case (Inr c)
    obtain orig call where c: "c = (orig, call)" by (cases c)
    with Inr Cons.prems have "orig \<noteq> Unsigned" by auto
    then show ?thesis
      using that Inr c
      by (cases call)
        (auto simp: stake_def un_stake_def slash_def test_acc_def submit_price_def emit_def
          submit_price_unsigned_def submit_price_unsigned_with_signed_payload_def submit_api_url_def
          and_then_Ok add_data_Ok_iff Let_def split: option.splits prod.splits)
  qed (use that in auto)
  with Cons show ?case by (auto split: outcome.splits)
qed simp

text \<open>
  Unsigned prices are spaced: after an unsigned price was dispatched in block \<open>n\<close>, and
  however signed calls and new blocks follow, the pool accepts another unsigned price only
  once the current block has reached \<open>n + UnsignedInterval\<close>.
\<close>

lemma unsigned_prices_spaced:
  assumes "submit_price_unsigned cfg Unsigned b p s = Ok s'"
    and "unat (ocw_block s) + unat (unsigned_interval cfg) < 2 ^ 32"
    and "\<forall>st \<in> set steps. \<forall>c. st = Inr c \<longrightarrow> fst c \<noteq> Unsigned"
    and "ocw_validate_unsigned verify cfg call (ocw_run K cfg steps s') = Ok v"
  shows "unat (ocw_block s) + unat (unsigned_interval cfg) \<le> unat (ocw_block (ocw_run K cfg steps s'))"
proof -
  let ?t = "ocw_run K cfg steps s'"
  have "next_unsigned_at s' = ocw_block s + unsigned_interval cfg"
    using assms(1)
    by (auto simp: submit_price_unsigned_def and_then_Ok add_data_Ok_iff schedule_next_def emit_def)
  then have next_at: "next_unsigned_at ?t = ocw_block s + unsigned_interval cfg"
    using run_no_unsigned_next [OF assms(3), of K cfg s'] by simp
  from assms(4) obtain b' p' where "validate_transaction_parameters cfg b' p' ?t = Ok v"
    by (cases call) (auto split: if_splits)
  from validate_Ok_block [OF this] have "ocw_block s + unsigned_interval cfg \<le> ocw_block ?t"
    unfolding next_at by (meson order_trans)
  moreover have "unat (ocw_block s + unsigned_interval cfg) = unat (ocw_block s) + unat (unsigned_interval cfg)"
    using assms(2) by (simp add: unat_word_ariths)
  ultimately show ?thesis by (simp add: word_le_nat_alt)
qed

section \<open>Staking and slashing\<close>

text \<open>
  C39: The stake guard is inverted: whatever the minimum, \<open>stake\<close> refuses every amount that
  reaches it and never stores a stake of at least the minimum; with the runtime's minimum
  of one unit the only stake accepted is zero, which registers the processor and leaves
  its balance as it was.
\<close>

theorem stake_accepts_only_below_minimum:
  assumes "currency_laws K" and "staked s who = None"
  shows "(ucast (min_stake_amount cfg) \<le> a \<longrightarrow>
        stake K cfg (Signed who) a s = Err (ModuleError InsufficientFund))
     \<and> (min_stake_amount cfg = 1 \<longrightarrow> (\<exists>s'. stake K cfg (Signed who) 0 s = Ok s'
          \<and> staked s' who \<noteq> None \<and> balances s' = balances s))"
  using assms currency_lawsD(1) [OF assms(1)]
  by (auto simp: stake_def ensure_def emit_def not_less)

theorem stake_accepts_only_below_minimum_witness:
  "stake ledger_currency (runtime_ocw_config 7) (Signed 1) 50 sample_ocw
     = Err (ModuleError InsufficientFund)"
proof -
  have "ucast (min_stake_amount (runtime_ocw_config 7)) \<le> (50 :: balance)"
    by (simp add: runtime_ocw_config_def)
  with stake_accepts_only_below_minimum [OF ledger_laws, of sample_ocw 1 "runtime_ocw_config 7" 50]
  show ?thesis by simp
qed

text \<open>
  Leaving the stake frees everything the account has reserved, whoever reserved it (an
  identity deposit, a governance bond), not the amount that was staked: afterwards nothing
  is reserved and the free balance has grown by all of it.
\<close>

lemma un_stake_frees_all_reserves:
  assumes "currency_laws K" and "staked s who = Some m"
  shows "\<exists>s'. un_stake K (Signed who) s = Ok s' \<and> staked s' who = None
     \<and> cur_reserved K (balances s') who = 0
     \<and> cur_free K (balances s') who = cur_free K (balances s) who + cur_reserved K (balances s) who"
  using assms by (simp add: un_stake_def Let_def emit_def currency_lawsD(3,4) [OF assms(1)])

text \<open>
  C40: Slashing is open to everyone who has nothing at stake: an account that is not a
  processor and has less reserved than it names can slash any target, taking the smaller
  of the amount and all that the target has reserved (for any reason) and moving exactly
  that to the treasury.
\<close>

theorem slash_by_anyone:
  assumes "currency_laws K" and "staked s who = None"
    and "cur_reserved K (balances s) who < a"
    and "cur_minimum K \<le> cur_free K (balances s) (treasury_account cfg)"
  shows "\<exists>s'. slash K cfg (Signed who) target a s = Ok s'
     \<and> cur_reserved K (balances s') target
         = cur_reserved K (balances s) target - min a (cur_reserved K (balances s) target)
     \<and> cur_free K (balances s') (treasury_account cfg)
         = cur_free K (balances s) (treasury_account cfg) + min a (cur_reserved K (balances s) target)"
proof -
  obtain imb rem b' where sl: "cur_slash_reserved K target a (balances s) = (imb, rem, b')"
    by (metis prod.exhaust)
  note eff = currency_lawsD(5) [OF assms(1) sl]
  have "cur_minimum K \<le> cur_free K b' (treasury_account cfg)"
    using eff assms(4) by simp
  note res = currency_lawsD(6) [OF assms(1) this, of imb]
  show ?thesis
    using assms(2,3) eff res by (simp add: slash_def sl Let_def emit_def)
qed

theorem slash_by_anyone_witness:
  "\<exists>s'. slash ledger_currency (runtime_ocw_config 7) (Signed 66) 5 1000 sample_ocw = Ok s'
     \<and> cur_reserved ledger_currency (balances s') 5 = 0
     \<and> cur_free ledger_currency (balances s') 7 = 140"
proof -
  have t: "treasury_account (runtime_ocw_config 7) = 7" by (simp add: runtime_ocw_config_def)
  show ?thesis
    using slash_by_anyone [OF ledger_laws, of sample_ocw 66 1000 "runtime_ocw_config 7" 5]
    by (simp add: t min_def)
qed

text \<open>
  The outcome of storing an API url on every branch: root and unsigned origins are
  refused, a url of at most 256 bytes is stored for the sender and topic, and a longer url
  panics instead of returning \<open>UrlTooLong\<close>.
\<close>

lemma submit_api_url_outcome:
  "submit_api_url orig topic url s =
     (case orig of
        Signed who \<Rightarrow>
          if length url \<le> 256
          then Ok (s\<lparr>api_urls := (api_urls s)((who, topic) \<mapsto> url),
                    ocw_events := ocw_events s @ [AddNewUrl who (of_nat (length url))]\<rparr>)
          else Panic
      | _ \<Rightarrow> Err BadOrigin)"
  by (cases orig) (auto simp: submit_api_url_def bounded_def emit_def)

end
