(* ===== verification/Runtime_Blocks.thy ===== *)
theory Runtime_Blocks
  imports Job_System Ocw_Props
begin

text \<open>
  The runtime of \<open>runtime/src/lib.rs\<close> as its blocks drive it: the calls of the two pallets
  of this repository that it contains (\<open>OcwPallet\<close>, \<open>WasmStorePallet\<close>), routed by pallet, and
  the functions of \<open>runtime/src/apis.rs\<close> that start blocks, validate and apply extrinsics and
  start the off-chain workers. \<open>Executive\<close> is the SDK's: its documented behaviour is that a
  signed extrinsic first passes the signed extensions, which also charge the fee, that an
  unsigned one passes the extensions' checks and is then validated by the pallet it calls,
  that a failing call changes nothing but the fee, and that a transaction is validated for
  the pool as if the next block had begun. The extensions are parameters of the model.
\<close>

section \<open>State, calls and environment\<close>

datatype pallet_call = OcwPallet ocw_call | WasmStorePallet ws_call

text \<open>
  \<open>rt_collators\<close> is \<open>Invulnerables\<close> of the collator-selection pallet; the balances are part of
  the storage of \<open>OcwPallet\<close>, the only pallet here that moves them.
\<close>

record 'b runtime_state =
  rt_block :: block_number
  rt_collators :: "account list"
  rt_ocw :: "'b ocw_state"
  rt_ws :: ws_state

text \<open>
  \<open>re_pre_dispatch\<close> and \<open>re_post_dispatch\<close> are what the tuple \<open>SignedExtra\<close> does before and
  after a signed call (refuse it, charge the fee and count the nonce; refund),
  \<open>re_signed_validity\<close> is its answer to the pool. The last two are its checks on unsigned
  calls (of which \<open>CheckWeight\<close> has some), in a block and for the pool.
\<close>

record 'b runtime_env =
  re_currency :: "'b currency"
  re_ocw :: ocw_config
  re_ws :: ws_config
  re_externals :: ws_externals
  re_verify :: "price_payload \<Rightarrow> signature \<Rightarrow> bool"
  re_pre_dispatch :: "account \<Rightarrow> pallet_call \<Rightarrow> 'b \<Rightarrow> 'b option"
  re_post_dispatch :: "account \<Rightarrow> pallet_call \<Rightarrow> 'b \<Rightarrow> 'b"
  re_signed_validity :: "account \<Rightarrow> pallet_call \<Rightarrow> 'b \<Rightarrow> transaction_validity"
  re_pre_dispatch_unsigned :: "pallet_call \<Rightarrow> bool"
  re_unsigned_validity :: "pallet_call \<Rightarrow> (invalid_transaction, unit) outcome"

datatype runtime_error =
  OcwError "ocw_error dispatch_error" | WasmStoreError "ws_error dispatch_error"

datatype extrinsic = Signed_extrinsic account pallet_call | Unsigned_extrinsic pallet_call

datatype transaction_error = Invalid invalid_transaction | RefusedByExtension

section \<open>Dispatch and validation\<close>

text \<open>The router \<open>RuntimeCall::dispatch\<close> that the runtime macro derives.\<close>

fun runtime_dispatch ::
  "'b runtime_env \<Rightarrow> origin \<times> pallet_call \<Rightarrow> 'b runtime_state
     \<Rightarrow> (runtime_error, 'b runtime_state) outcome" where
  "runtime_dispatch E (orig, OcwPallet c) s =
     map_outcome OcwError (\<lambda>p. s\<lparr>rt_ocw := p\<rparr>)
       (ocw_dispatch (re_currency E) (re_ocw E) (orig, c) (rt_ocw s))"
| "runtime_dispatch E (orig, WasmStorePallet c) s =
     map_outcome WasmStoreError (\<lambda>p. s\<lparr>rt_ws := p\<rparr>)
       (ws_dispatch (re_ws E) (re_externals E) (rt_collators s) (orig, c) (rt_ws s))"

fun runtime_validate_unsigned ::
  "'b runtime_env \<Rightarrow> pallet_call \<Rightarrow> 'b runtime_state \<Rightarrow> transaction_validity" where
  "runtime_validate_unsigned E (OcwPallet c) s =
     ocw_validate_unsigned (re_verify E) (re_ocw E) c (rt_ocw s)"
| "runtime_validate_unsigned E (WasmStorePallet c) s =
     ws_validate_unsigned (re_ws E) (re_externals E) c (rt_ws s)"

definition on_balances :: "('b \<Rightarrow> 'b) \<Rightarrow> 'b runtime_state \<Rightarrow> 'b runtime_state" where
  "on_balances f s = s\<lparr>rt_ocw := (rt_ocw s)\<lparr>balances := f (balances (rt_ocw s))\<rparr>\<rparr>"

text \<open>An extrinsic in a block: the outcome of its call and what is left of it in the storage.\<close>

definition included ::
  "('b runtime_state \<Rightarrow> (runtime_error, 'b runtime_state) outcome) \<Rightarrow> ('b \<Rightarrow> 'b) \<Rightarrow> 'b runtime_state
     \<Rightarrow> (transaction_error, (runtime_error, unit) outcome \<times> 'b runtime_state) outcome" where
  "included dispatch post s =
     (case dispatch s of
        Ok s' \<Rightarrow> Ok (Ok (), on_balances post s')
      | Err e \<Rightarrow> Ok (Err e, on_balances post s)
      | Panic \<Rightarrow> Panic)"

fun apply_extrinsic ::
  "'b runtime_env \<Rightarrow> extrinsic \<Rightarrow> 'b runtime_state
     \<Rightarrow> (transaction_error, (runtime_error, unit) outcome \<times> 'b runtime_state) outcome" where
  "apply_extrinsic E (Signed_extrinsic who call) s =
     and_then (ok_or RefusedByExtension (re_pre_dispatch E who call (balances (rt_ocw s)))) (\<lambda>b.
       included (runtime_dispatch E (Signed who, call)) (re_post_dispatch E who call)
         (on_balances (\<lambda>_. b) s))"
| "apply_extrinsic E (Unsigned_extrinsic call) s =
     and_then (ensure (re_pre_dispatch_unsigned E call) RefusedByExtension) (\<lambda>_.
     and_then (map_outcome Invalid id (runtime_validate_unsigned E call s)) (\<lambda>_.
       included (runtime_dispatch E (Unsigned, call)) id s))"

text \<open>The start of a block sets the number that both pallets read.\<close>

definition initialize_block :: "block_number \<Rightarrow> 'b runtime_state \<Rightarrow> 'b runtime_state" where
  "initialize_block n s =
     s\<lparr>rt_block := n, rt_ocw := (rt_ocw s)\<lparr>ocw_block := n\<rparr>, rt_ws := (rt_ws s)\<lparr>ws_block := n\<rparr>\<rparr>"

text \<open>The pool's question: the transaction is validated in the block that comes next.\<close>

fun validate_transaction ::
  "'b runtime_env \<Rightarrow> extrinsic \<Rightarrow> 'b runtime_state \<Rightarrow> transaction_validity" where
  "validate_transaction E (Signed_extrinsic who call) s =
     re_signed_validity E who call (balances (rt_ocw s))"
| "validate_transaction E (Unsigned_extrinsic call) s =
     and_then (re_unsigned_validity E call) (\<lambda>_.
       runtime_validate_unsigned E call (initialize_block (rt_block s + 1) s))"

section \<open>Blocks\<close>

fun apply_all ::
  "'b runtime_env \<Rightarrow> extrinsic list \<Rightarrow> 'b runtime_state \<Rightarrow> (transaction_error, 'b runtime_state) outcome" where
  "apply_all E [] s = Ok s"
| "apply_all E (x # xs) s = and_then (apply_extrinsic E x s) (\<lambda>(_, s'). apply_all E xs s')"

text \<open>Executing a received block panics at the first extrinsic that may not be in a block.\<close>

definition execute_block ::
  "'b runtime_env \<Rightarrow> block_number \<times> extrinsic list \<Rightarrow> 'b runtime_state
     \<Rightarrow> (transaction_error, 'b runtime_state) outcome" where
  "execute_block E blk s =
     (case apply_all E (snd blk) (initialize_block (fst blk) s) of Ok s' \<Rightarrow> Ok s' | _ \<Rightarrow> Panic)"

text \<open>
  The hooks of all pallets run in the order of their indices; of the pallets of this
  repository only the wasmstore pallet has one.
\<close>

definition runtime_offchain_worker ::
  "'b runtime_env \<Rightarrow> pool \<Rightarrow> (h256 \<times> ocw_job) list \<Rightarrow> 'b runtime_state \<Rightarrow> worker \<Rightarrow> worker_exit \<times> worker" where
  "runtime_offchain_worker E accept jl s w =
     offchain_worker (ws_codecs (re_externals E)) accept (rt_block s) jl w"

text \<open>
  Everything that can happen to the storage: the next block begins, an extrinsic is applied,
  the sudo key or a message of the relay chain dispatches a call as root, and the pallets of
  the SDK change balances and collators in whatever way.
\<close>

datatype 'b rt_step =
    New_block
  | Extrinsic extrinsic
  | As_root pallet_call
  | Balances_change 'b
  | Collators_change "account list"

fun rt_exec :: "'b runtime_env \<Rightarrow> 'b rt_step \<Rightarrow> 'b runtime_state
     \<Rightarrow> (transaction_error, 'b runtime_state) outcome" where
  "rt_exec E New_block s = Ok (initialize_block (rt_block s + 1) s)"
| "rt_exec E (Extrinsic x) s = map_outcome id snd (apply_extrinsic E x s)"
| "rt_exec E (As_root c) s = map_outcome id snd (included (runtime_dispatch E (Root, c)) id s)"
| "rt_exec E (Balances_change b) s = Ok (on_balances (\<lambda>_. b) s)"
| "rt_exec E (Collators_change cs) s = Ok (s\<lparr>rt_collators := cs\<rparr>)"

abbreviation rt_run :: "'b runtime_env \<Rightarrow> 'b rt_step list \<Rightarrow> 'b runtime_state \<Rightarrow> 'b runtime_state" where
  "rt_run E \<equiv> run_calls (rt_exec E)"

definition rt_genesis :: "'b runtime_env \<Rightarrow> 'b \<Rightarrow> account list \<Rightarrow> 'b runtime_state" where
  "rt_genesis E b cs =
     \<lparr>rt_block = 0, rt_collators = cs, rt_ocw = ocw_genesis (re_currency E) (re_ocw E) b,
      rt_ws = ws_genesis\<rparr>"

section \<open>What a step can do\<close>

lemma on_balances_simps [simp]:
  "rt_block (on_balances f s) = rt_block s" "rt_ws (on_balances f s) = rt_ws s"
  "rt_collators (on_balances f s) = rt_collators s"
  "rt_ocw (on_balances f s) = (rt_ocw s)\<lparr>balances := f (balances (rt_ocw s))\<rparr>"
  by (simp_all add: on_balances_def)

lemma map_outcome_Ok [simp]: "map_outcome f g x = Ok b \<longleftrightarrow> (\<exists>a. x = Ok a \<and> b = g a)"
  by (cases x) auto

text \<open>Root is of no use to the program: no call of its pallets accepts that origin.\<close>

lemma root_is_refused:
  "runtime_dispatch E (Root, c) s = Err (OcwError BadOrigin)
     \<or> runtime_dispatch E (Root, c) s = Err (WasmStoreError BadOrigin)"
proof (cases c)
  case (OcwPallet d)
  then show ?thesis
    by (cases d) (simp_all add: stake_def un_stake_def slash_def test_acc_def submit_price_def
        submit_price_unsigned_def submit_price_unsigned_with_signed_payload_def submit_api_url_def)
next
  case (WasmStorePallet d)
  then show ?thesis
    by (cases d) (simp_all add: ws_call_defs)
qed

lemma included_cases:
  assumes "included d post s = Ok (r, s')"
  obtains t where "d s = Ok t" "s' = on_balances post t"
  | e where "d s = Err e" "s' = on_balances post s"
  using assms by (auto simp: included_def split: outcome.splits)

lemma as_root_idle: "rt_exec E (As_root c) s = Ok s' \<Longrightarrow> s' = s"
  using root_is_refused [of E c s] by (auto simp: included_def on_balances_def)

lemma runtime_dispatch_cases:
  assumes "runtime_dispatch E (orig, call) s = Ok t"
  obtains (ocw) c p where "call = OcwPallet c" "t = s\<lparr>rt_ocw := p\<rparr>"
      "ocw_dispatch (re_currency E) (re_ocw E) (orig, c) (rt_ocw s) = Ok p"
  | (ws) c p where "call = WasmStorePallet c" "t = s\<lparr>rt_ws := p\<rparr>"
      "ws_dispatch (re_ws E) (re_externals E) (rt_collators s) (orig, c) (rt_ws s) = Ok p"
  using assms by (cases call) auto

text \<open>
  What an extrinsic in a block did: its call was dispatched or failed, after the signed
  extensions or, for an unsigned one, after its pallet validated it.
\<close>

lemma apply_extrinsic_cases:
  assumes "apply_extrinsic E x s = Ok (r, s')"
  obtains (failed) f where "s' = on_balances f s"
  | (called) f g orig call t where
      "runtime_dispatch E (orig, call) (on_balances f s) = Ok t" "s' = on_balances g t"
      "orig = Unsigned \<Longrightarrow> f = id \<and> (\<exists>v. runtime_validate_unsigned E call s = Ok v)"
proof (cases x)
  case (Signed_extrinsic who call)
  with assms obtain b where
    "included (runtime_dispatch E (Signed who, call)) (re_post_dispatch E who call) (on_balances (\<lambda>_. b) s)
       = Ok (r, s')"
    by (auto simp: outcome_simps)
  then show ?thesis
  proof (cases rule: included_cases)
    case (1 t)
    then show ?thesis by (intro called [of "Signed who" call "\<lambda>_. b" t]) simp_all
  next
    case (2 e)
    then show ?thesis by (intro failed [of "\<lambda>_. re_post_dispatch E who call b"]) (simp add: on_balances_def)
  qed
next
  case (Unsigned_extrinsic call)
  with assms obtain v where valid: "runtime_validate_unsigned E call s = Ok v"
    and "included (runtime_dispatch E (Unsigned, call)) id s = Ok (r, s')"
    by (auto simp: outcome_simps)
  from this(2) show ?thesis
  proof (cases rule: included_cases)
    case (1 t)
    with valid show ?thesis by (intro called [of Unsigned call id t id]) (simp_all add: on_balances_def)
  next
    case (2 e)
    then show ?thesis by (intro failed)
  qed
qed

section \<open>Properties of the pallets in the runtime\<close>

lemma ocw_dispatch_block: "ocw_dispatch K cfg oc s = Ok s' \<Longrightarrow> ocw_block s' = ocw_block s"
  by (cases oc; cases "snd oc")
    (auto simp: stake_def un_stake_def slash_def test_acc_def submit_price_def emit_def
      submit_price_unsigned_def submit_price_unsigned_with_signed_payload_def submit_api_url_def
      schedule_next_def and_then_Ok add_data_Ok_iff Let_def split: option.splits prod.splits)

lemma ws_dispatch_block: "ws_dispatch cfg X cs oc s = Ok s' \<Longrightarrow> ws_block s' = ws_block s"
  by (erule ws_dispatch_cases) auto

definition rt_inv :: "'b runtime_env \<Rightarrow> 'b runtime_state \<Rightarrow> bool" where
  "rt_inv E s \<longleftrightarrow> ocw_inv (re_ocw E) (rt_ocw s) \<and> ws_inv (re_ws E) (re_externals E) (rt_ws s)
     \<and> ocw_block (rt_ocw s) = rt_block s \<and> ws_block (rt_ws s) = rt_block s"

lemma rt_inv_on_balances [simp]: "rt_inv E (on_balances f s) = rt_inv E s"
  by (simp add: rt_inv_def)

lemma rt_inv_initialize: "rt_inv E s \<Longrightarrow> rt_inv E (initialize_block n s)"
  by (simp add: rt_inv_def initialize_block_def ws_inv_def)

lemma rt_inv_dispatch:
  assumes "runtime_dispatch E (orig, call) s = Ok t" "rt_inv E s"
  shows "rt_inv E t"
  using assms
  by (cases rule: runtime_dispatch_cases [consumes 1])
    (auto simp: rt_inv_def ocw_dispatch_block ws_dispatch_block intro: ocw_dispatch_inv ws_dispatch_inv)

interpretation rt_safe: call_invariant "rt_exec E" "rt_inv E" for E
proof
  fix s st s'
  assume inv: "rt_inv E s" and st: "rt_exec E st s = Ok s'"
  show "rt_inv E s'"
  proof (cases st)
    case (Extrinsic x)
    with st obtain r where "apply_extrinsic E x s = Ok (r, s')" by auto
    then show ?thesis
      by (cases rule: apply_extrinsic_cases) (use inv rt_inv_dispatch in fastforce)+
  next
    case (As_root c)
    with st inv as_root_idle show ?thesis by blast
  qed (use st inv rt_inv_initialize in \<open>auto simp: rt_inv_def [of _ "_\<lparr>rt_collators := _\<rparr>"] rt_inv_def\<close>)
qed

lemma ocw_genesis_simps [simp]:
  "ocw_block (ocw_genesis K cfg b) = 0" "next_unsigned_at (ocw_genesis K cfg b) = 0"
  "ocw_events (ocw_genesis K cfg b) = []"
  by (simp_all add: ocw_genesis_def genesis_build_def Let_def)

lemma rt_reachable: "rt_inv E (rt_run E steps (rt_genesis E b cs))"
proof (rule rt_safe.run_inv)
  have "ws_block ws_genesis = 0" by (simp add: ws_genesis_def)
  then show "rt_inv E (rt_genesis E b cs)"
    by (simp add: rt_inv_def rt_genesis_def genesis_inv ws_inv_genesis)
qed

text \<open>A block that executes leaves the storage that its steps lead to.\<close>

lemma apply_all_run: "apply_all E xs s = Ok s' \<Longrightarrow> s' = rt_run E (map Extrinsic xs) s"
  by (induction xs arbitrary: s) (auto simp: outcome_simps)

lemma execute_block_run:
  "execute_block E (rt_block s + 1, xs) s = Ok s' \<Longrightarrow> s' = rt_run E (New_block # map Extrinsic xs) s"
  by (auto simp: execute_block_def dest: apply_all_run split: outcome.splits)

text \<open>The runtime's parameters over the reference ledger, with extensions that charge nothing.\<close>

definition sample_runtime :: "ledger runtime_env" where
  "sample_runtime =
     \<lparr>re_currency = ledger_currency, re_ocw = runtime_ocw_config 7, re_ws = runtime_ws_config,
      re_externals = sample_externals, re_verify = (\<lambda>_ _. True),
      re_pre_dispatch = (\<lambda>_ _ b. Some b), re_post_dispatch = (\<lambda>_ _ b. b),
      re_signed_validity = (\<lambda>_ _ _. Ok \<lparr>vt_tag_prefix = ''CheckNonce'', vt_priority = 0,
        vt_provides = [0], vt_longevity = 64, vt_propagate = True\<rparr>),
      re_pre_dispatch_unsigned = (\<lambda>_. True), re_unsigned_validity = (\<lambda>_. Ok ())\<rparr>"

section \<open>The rate of unsigned prices\<close>

fun is_unsigned_price :: "ocw_event \<Rightarrow> bool" where
  "is_unsigned_price (NewPrice p None) \<longleftrightarrow> True"
| "is_unsigned_price _ \<longleftrightarrow> False"

definition unsigned_prices :: "'b ocw_state \<Rightarrow> nat" where
  "unsigned_prices s = length (filter is_unsigned_price (ocw_events s))"

fun new_blocks :: "'b rt_step list \<Rightarrow> nat" where
  "new_blocks [] = 0"
| "new_blocks (New_block # sts) = Suc (new_blocks sts)"
| "new_blocks (_ # sts) = new_blocks sts"

lemma ocw_dispatch_prices:
  assumes "ocw_dispatch K cfg (orig, c) s = Ok s'"
  shows "if orig = Unsigned
     then unsigned_prices s' = Suc (unsigned_prices s) \<and> next_unsigned_at s' = ocw_block s + unsigned_interval cfg
     else unsigned_prices s' = unsigned_prices s \<and> next_unsigned_at s' = next_unsigned_at s"
  using assms
  by (cases c)
    (auto simp: stake_def un_stake_def slash_def test_acc_def submit_price_def emit_def unsigned_prices_def
      submit_price_unsigned_def submit_price_unsigned_with_signed_payload_def submit_api_url_def
      schedule_next_def and_then_Ok add_data_Ok_iff Let_def split: option.splits prod.splits)

definition price_rate :: "ocw_config \<Rightarrow> 'b ocw_state \<Rightarrow> bool" where
  "price_rate cfg s \<longleftrightarrow>
     unsigned_prices s * unat (unsigned_interval cfg) \<le> unat (next_unsigned_at s) \<and>
     unat (next_unsigned_at s) \<le> unat (ocw_block s) + unat (unsigned_interval cfg)"

lemma price_rate_dispatch:
  assumes "ocw_dispatch K cfg (orig, c) s = Ok s'" "price_rate cfg s"
    and "orig = Unsigned \<Longrightarrow> \<exists>v. ocw_validate_unsigned verify cfg c s = Ok v"
    and "unat (ocw_block s) + unat (unsigned_interval cfg) < 2 ^ 32"
  shows "price_rate cfg s'"
proof (cases "orig = Unsigned")
  case True
  with assms(3) obtain b p v where "validate_transaction_parameters cfg b p s = Ok v"
    by (cases c) (auto split: if_splits)
  from validate_Ok_block [OF this] have "unat (next_unsigned_at s) \<le> unat (ocw_block s)"
    unfolding word_le_nat_alt by linarith
  moreover have "unat (ocw_block s + unsigned_interval cfg) = unat (ocw_block s) + unat (unsigned_interval cfg)"
    using assms(4) by (simp add: unat_word_ariths)
  ultimately show ?thesis
    using ocw_dispatch_prices [OF assms(1)] ocw_dispatch_block [OF assms(1)] assms(2) True
    by (simp add: price_rate_def)
next
  case False
  with ocw_dispatch_prices [OF assms(1)] ocw_dispatch_block [OF assms(1)] assms(2)
  show ?thesis by (simp add: price_rate_def)
qed

lemma price_rate_balances [simp]: "price_rate cfg (s\<lparr>balances := b\<rparr>) = price_rate cfg s"
  by (simp add: price_rate_def unsigned_prices_def)

lemma price_rate_exec:
  assumes "rt_exec E st s = Ok s'" "price_rate (re_ocw E) (rt_ocw s)" "rt_inv E s"
    and "unat (rt_block s) + new_blocks [st] + unat (unsigned_interval (re_ocw E)) < 2 ^ 32"
  shows "price_rate (re_ocw E) (rt_ocw s') \<and> unat (rt_block s') = unat (rt_block s) + new_blocks [st]"
proof (cases st)
  case New_block
  with assms(4) have "unat (rt_block s + 1) = unat (rt_block s) + 1"
    by (simp add: unat_word_ariths)
  with New_block assms(1-3) show ?thesis
    by (auto simp: initialize_block_def price_rate_def unsigned_prices_def rt_inv_def)
next
  case (Extrinsic x)
  with assms(1) obtain r where "apply_extrinsic E x s = Ok (r, s')" by auto
  then show ?thesis
  proof (cases rule: apply_extrinsic_cases)
    case (failed f)
    with assms(2) Extrinsic show ?thesis by simp
  next
    case (called f g orig call t)
    from called(1) show ?thesis
    proof (cases rule: runtime_dispatch_cases)
      case (ocw c p)
      have "price_rate (re_ocw E) p"
        using ocw(3)
      proof (rule price_rate_dispatch)
        show "\<exists>v. ocw_validate_unsigned (re_verify E) (re_ocw E) c (rt_ocw (on_balances f s)) = Ok v"
          if "orig = Unsigned"
          using called(3) [OF that] ocw(1) by simp
      qed (use assms(2,3,4) in \<open>simp_all add: rt_inv_def\<close>)
      with ocw(2) called(2) Extrinsic show ?thesis by simp
    next
      case (ws c p)
      with assms(2) called(2) Extrinsic show ?thesis by simp
    qed
  qed
next
  case (As_root c)
  with assms as_root_idle [of E c s s'] show ?thesis by auto
qed (use assms in auto)

lemma price_rate_run:
  assumes "price_rate (re_ocw E) (rt_ocw s)" "rt_inv E s"
    and "unat (rt_block s) + new_blocks steps + unat (unsigned_interval (re_ocw E)) < 2 ^ 32"
  shows "price_rate (re_ocw E) (rt_ocw (rt_run E steps s))
     \<and> unat (rt_block (rt_run E steps s)) \<le> unat (rt_block s) + new_blocks steps"
  using assms
proof (induction steps arbitrary: s)
  case (Cons st steps)
  let ?t = "case rt_exec E st s of Ok s' \<Rightarrow> s' | _ \<Rightarrow> s"
  have split: "new_blocks (st # steps) = new_blocks [st] + new_blocks steps"
    by (cases st) simp_all
  have "price_rate (re_ocw E) (rt_ocw ?t) \<and> unat (rt_block ?t) \<le> unat (rt_block s) + new_blocks [st]"
    using price_rate_exec [of E st s] Cons.prems by (auto simp: split split: outcome.splits)
  moreover have "rt_inv E ?t"
    by (rule rt_safe.step_inv [OF Cons.prems(2)])
  ultimately show ?case
    using Cons.IH [of ?t] Cons.prems(3) by (auto simp: split)
qed simp

text \<open>
  C38: Unsigned prices are limited in every history of the chain, whatever users, pools, root
  and the other pallets do: after \<open>n\<close> blocks at most \<open>n / UnsignedInterval + 1\<close> of them have
  been recorded (as long as block numbers do not overflow).
\<close>

theorem unsigned_price_rate:
  assumes "new_blocks steps + unat (unsigned_interval (re_ocw E)) < 2 ^ 32"
  shows "unsigned_prices (rt_ocw (rt_run E steps (rt_genesis E b cs))) * unat (unsigned_interval (re_ocw E))
     \<le> new_blocks steps + unat (unsigned_interval (re_ocw E))"
proof -
  let ?s = "rt_genesis E b cs"
  let ?t = "rt_run E steps ?s"
  have "price_rate (re_ocw E) (rt_ocw ?s)" "unat (rt_block ?s) = 0"
    by (simp_all add: rt_genesis_def price_rate_def unsigned_prices_def)
  with assms rt_reachable [of E "[]" b cs] have rate: "price_rate (re_ocw E) (rt_ocw ?t)"
      "unat (rt_block ?t) \<le> new_blocks steps"
    using price_rate_run [of E ?s steps] by auto
  have "ocw_block (rt_ocw ?t) = rt_block ?t"
    using rt_reachable [of E steps b cs] by (simp add: rt_inv_def)
  with rate show ?thesis by (simp add: price_rate_def)
qed

theorem unsigned_price_rate_witness:
  "let x = Extrinsic (Unsigned_extrinsic (OcwPallet (Submit_price_unsigned 0 9)));
       g = rt_genesis sample_runtime \<lparr>lg_free = (\<lambda>_. 100), lg_reserved = (\<lambda>_. 0)\<rparr> []
   in unsigned_prices (rt_ocw (rt_run sample_runtime [x] g)) = 1
     \<and> unsigned_prices (rt_ocw (rt_run sample_runtime [x, x, New_block, x] g)) * 3 \<le> 1 + 3"
proof -
  let ?x = "Extrinsic (Unsigned_extrinsic (OcwPallet (Submit_price_unsigned 0 9)))"
  let ?g = "rt_genesis sample_runtime \<lparr>lg_free = (\<lambda>_. 100), lg_reserved = (\<lambda>_. 0)\<rparr> []"
  have "unsigned_prices (rt_ocw (rt_run sample_runtime [?x] ?g)) = 1"
    by (simp add: sample_runtime_def rt_genesis_def ocw_genesis_def genesis_build_def ledger_currency_def
        runtime_ocw_config_def validate_transaction_parameters_def average_price_def average_of_def
        submit_price_unsigned_def add_data_def push_price_def schedule_next_def emit_def included_def
        unsigned_prices_def Let_def on_balances_def)
  with unsigned_price_rate [of "[?x, ?x, New_block, ?x]" sample_runtime] show ?thesis
    by (simp add: Let_def sample_runtime_def runtime_ocw_config_def del: run_calls.simps)
qed

text \<open>
  C35: The two pallets side by side: in every state that blocks, signed and unsigned
  extrinsics, root and the other pallets can lead to, both pallets see the number of the
  current block, the list of prices and the urls respect their bounds, no staked processor
  holds the minimum stake, and every stored result fits its bound and belongs to a finished
  job of the queue.
\<close>

theorem runtime_reachable_inv:
  "let s = rt_run E steps (rt_genesis E b cs) in
     ocw_block (rt_ocw s) = rt_block s \<and> ws_block (rt_ws s) = rt_block s
     \<and> length (prices (rt_ocw s)) \<le> unat (max_prices (re_ocw E))
     \<and> (\<forall>k. case api_urls (rt_ocw s) k of None \<Rightarrow> True | Some u \<Rightarrow> length u \<le> 256)
     \<and> (\<forall>a. case staked (rt_ocw s) a of None \<Rightarrow> True
          | Some m \<Rightarrow> total_stake m < ucast (min_stake_amount (re_ocw E)) \<and> credit_score m = 80
              \<and> nominators m = {})
     \<and> (\<forall>h p. case results (rt_ws s) (h, p) of None \<Rightarrow> True
          | Some r \<Rightarrow> length (result_data r) \<le> unat (max_result_size (re_ws E))
              \<and> map_option job_status (jobs (rt_ws s) h) = Some Finish)"
proof -
  let ?s = "rt_run E steps (rt_genesis E b cs)"
  have "ocw_inv (re_ocw E) (rt_ocw ?s)" "ws_inv (re_ws E) (re_externals E) (rt_ws ?s)"
      "ocw_block (rt_ocw ?s) = rt_block ?s" "ws_block (rt_ws ?s) = rt_block ?s"
    using rt_reachable [of E steps b cs] by (simp_all add: rt_inv_def)
  then show ?thesis
    unfolding Let_def ocw_inv_def ws_inv_def by (fastforce split: option.splits)
qed

section \<open>The storage of the wasmstore pallet\<close>

text \<open>
  What the blocks of a chain do to the wasmstore pallet, stated over the pallet alone and
  following a history of the runtime step by step. A block raises the number by one. A call
  of the pallet is dispatched as signed only for the very account that signed the extrinsic,
  and as unsigned only when the pallet's own validation accepts it in the state it meets.
  It has no effect only when the extensions or the validation refuse it or when it fails.
  Every other step leaves the storage as it is.
\<close>

definition of_wasmstore :: "'b rt_step \<Rightarrow> bool" where
  "of_wasmstore st =
     (case st of Extrinsic (Signed_extrinsic who (WasmStorePallet c)) \<Rightarrow> True
      | Extrinsic (Unsigned_extrinsic (WasmStorePallet c)) \<Rightarrow> True | _ \<Rightarrow> False)"

definition succeeds :: "('e, 'a) outcome \<Rightarrow> bool" where
  "succeeds x = (case x of Ok _ \<Rightarrow> True | _ \<Rightarrow> False)"

inductive ws_history :: "'b runtime_env \<Rightarrow> 'b rt_step list \<Rightarrow> ws_state \<Rightarrow> bool" for E where
  hist_genesis: "ws_history E [] ws_genesis"
| hist_block: "ws_history E steps s \<Longrightarrow>
     ws_history E (steps @ [New_block]) (s\<lparr>ws_block := ws_block s + 1\<rparr>)"
| hist_signed: "ws_history E steps s \<Longrightarrow> re_pre_dispatch E who (WasmStorePallet c) b \<noteq> None \<Longrightarrow>
     ws_dispatch (re_ws E) (re_externals E) collators (Signed who, c) s = Ok s' \<Longrightarrow>
     ws_history E (steps @ [Extrinsic (Signed_extrinsic who (WasmStorePallet c))]) s'"
| hist_signed_fails: "ws_history E steps s \<Longrightarrow> re_pre_dispatch E who (WasmStorePallet c) b = None
       \<or> \<not> succeeds (ws_dispatch (re_ws E) (re_externals E) collators (Signed who, c) s) \<Longrightarrow>
     ws_history E (steps @ [Extrinsic (Signed_extrinsic who (WasmStorePallet c))]) s"
| hist_unsigned: "ws_history E steps s \<Longrightarrow> re_pre_dispatch_unsigned E (WasmStorePallet c) \<Longrightarrow>
     succeeds (ws_validate_unsigned (re_ws E) (re_externals E) c s) \<Longrightarrow>
     ws_dispatch (re_ws E) (re_externals E) collators (Unsigned, c) s = Ok s' \<Longrightarrow>
     ws_history E (steps @ [Extrinsic (Unsigned_extrinsic (WasmStorePallet c))]) s'"
| hist_unsigned_fails: "ws_history E steps s \<Longrightarrow> \<not> re_pre_dispatch_unsigned E (WasmStorePallet c)
       \<or> \<not> succeeds (ws_validate_unsigned (re_ws E) (re_externals E) c s)
       \<or> \<not> succeeds (ws_dispatch (re_ws E) (re_externals E) collators (Unsigned, c) s) \<Longrightarrow>
     ws_history E (steps @ [Extrinsic (Unsigned_extrinsic (WasmStorePallet c))]) s"
| hist_elsewhere: "ws_history E steps s \<Longrightarrow> st \<noteq> New_block \<Longrightarrow> \<not> of_wasmstore st \<Longrightarrow>
     ws_history E (steps @ [st]) s"

text \<open>A step of the runtime, rolled back when it fails.\<close>

definition rt_next :: "'b runtime_env \<Rightarrow> 'b rt_step \<Rightarrow> 'b runtime_state \<Rightarrow> 'b runtime_state" where
  "rt_next E st s = (case rt_exec E st s of Ok s' \<Rightarrow> s' | _ \<Rightarrow> s)"

lemma next_signed:
  "rt_ws (rt_next E (Extrinsic (Signed_extrinsic who (WasmStorePallet c))) s) =
     (case re_pre_dispatch E who (WasmStorePallet c) (balances (rt_ocw s)) of
        None \<Rightarrow> rt_ws s
      | Some b \<Rightarrow>
         (case ws_dispatch (re_ws E) (re_externals E) (rt_collators s) (Signed who, c) (rt_ws s) of
            Ok t \<Rightarrow> t | _ \<Rightarrow> rt_ws s))"
  by (simp add: rt_next_def included_def split: option.split outcome.split)

lemma next_unsigned:
  "rt_ws (rt_next E (Extrinsic (Unsigned_extrinsic (WasmStorePallet c))) s) =
     (if re_pre_dispatch_unsigned E (WasmStorePallet c)
         \<and> succeeds (ws_validate_unsigned (re_ws E) (re_externals E) c (rt_ws s))
      then (case ws_dispatch (re_ws E) (re_externals E) (rt_collators s) (Unsigned, c) (rt_ws s) of
              Ok t \<Rightarrow> t | _ \<Rightarrow> rt_ws s)
      else rt_ws s)"
  by (simp add: rt_next_def included_def succeeds_def ensure_def split: outcome.split)

lemma of_wasmstore_iff:
  "of_wasmstore st \<longleftrightarrow> (\<exists>who c. st = Extrinsic (Signed_extrinsic who (WasmStorePallet c)))
     \<or> (\<exists>c. st = Extrinsic (Unsigned_extrinsic (WasmStorePallet c)))"
  by (cases st) (auto simp: of_wasmstore_def split: extrinsic.splits pallet_call.splits)

lemma included_ocw: "included (runtime_dispatch E (orig, OcwPallet c)) post s = Ok (r, s') \<Longrightarrow> rt_ws s' = rt_ws s"
  by (erule included_cases) auto

lemma next_elsewhere:
  assumes "\<not> of_wasmstore st" "st \<noteq> New_block"
  shows "rt_ws (rt_next E st s) = rt_ws s"
proof (cases "rt_exec E st s")
  case (Ok s')
  have "rt_ws s' = rt_ws s"
  proof (cases st)
    case (Extrinsic x)
    with Ok obtain r where x: "apply_extrinsic E x s = Ok (r, s')" by auto
    show ?thesis
    proof (cases x)
      case (Signed_extrinsic who call)
      with Extrinsic assms(1) obtain c where "call = OcwPallet c"
        by (cases call) (auto simp: of_wasmstore_iff)
      with x Signed_extrinsic show ?thesis
        by (auto simp: and_then_Ok simp del: runtime_dispatch.simps dest: included_ocw)
    next
      case (Unsigned_extrinsic call)
      with Extrinsic assms(1) obtain c where "call = OcwPallet c"
        by (cases call) (auto simp: of_wasmstore_iff)
      with x Unsigned_extrinsic show ?thesis
        by (auto simp: and_then_Ok simp del: runtime_dispatch.simps dest: included_ocw)
    qed
  next
    case (As_root c)
    with Ok as_root_idle [of E c s s'] show ?thesis by auto
  qed (use Ok assms(2) in auto)
  with Ok show ?thesis by (simp add: rt_next_def)
qed (simp_all add: rt_next_def)

lemma ws_history_step:
  assumes "ws_history E steps (rt_ws s)" "ws_block (rt_ws s) = rt_block s"
  shows "ws_history E (steps @ [st]) (rt_ws (rt_next E st s))"
proof -
  consider "st = New_block" | "st \<noteq> New_block" "\<not> of_wasmstore st"
    | who c where "st = Extrinsic (Signed_extrinsic who (WasmStorePallet c))"
    | c where "st = Extrinsic (Unsigned_extrinsic (WasmStorePallet c))"
    by (auto simp: of_wasmstore_iff)
  then show ?thesis
  proof cases
    case 1
    with assms(2) hist_block [OF assms(1)] show ?thesis
      by (simp add: rt_next_def initialize_block_def)
  next
    case 2
    with assms(1) show ?thesis by (simp add: next_elsewhere hist_elsewhere)
  next
    case (3 who c)
    note fails = hist_signed_fails [OF assms(1), of who c "balances (rt_ocw s)" "rt_collators s"]
    from 3 hist_signed [OF assms(1), of who c "balances (rt_ocw s)" "rt_collators s"] fails show ?thesis
      by (auto simp: next_signed succeeds_def split: option.split outcome.split)
  next
    case (4 c)
    note fails = hist_unsigned_fails [OF assms(1), of c "rt_collators s"]
    from 4 hist_unsigned [OF assms(1), of c "rt_collators s"] fails show ?thesis
      by (auto simp: next_unsigned succeeds_def split: outcome.split)
  qed
qed

text \<open>
  C5: The runtime hands the wasmstore pallet exactly what its own design allows. In every
  history of the whole runtime (blocks, signed and unsigned extrinsics of both pallets, root,
  and the SDK's pallets) the storage of the pallet is one that the same history reaches in
  the relation \<open>ws_history\<close>: signed calls carry their signer, unsigned calls have passed the
  pallet's validation in the state they meet, root reaches nothing, the block number counts
  the blocks, and a call has no effect only if it is refused or fails.
\<close>

theorem runtime_in_history: "ws_history E steps (rt_ws (rt_run E steps (rt_genesis E b cs)))"
proof (induction steps rule: rev_induct)
  case Nil
  then show ?case by (simp add: rt_genesis_def hist_genesis)
next
  case (snoc st steps)
  have "ws_block (rt_ws (rt_run E steps (rt_genesis E b cs))) = rt_block (rt_run E steps (rt_genesis E b cs))"
    using rt_reachable [of E steps b cs] by (simp add: rt_inv_def)
  from ws_history_step [OF snoc this, of st] show ?case
    by (simp add: run_calls_append rt_next_def)
qed

text \<open>
  So the model of the whole node (theory \<open>Job_System\<close>) covers the whole runtime: whatever
  the blocks do to the storage between two steps of the node is a run of the system, and what
  holds of every reachable state of the system holds on the real chain.
\<close>

lemma rt_exec_ws:
  assumes "rt_exec E st s = Ok s'"
  shows "\<exists>cs wsteps. rt_ws s' = ws_run (re_ws E) (re_externals E) cs wsteps (rt_ws s)"
proof (cases st)
  case New_block
  with assms have "rt_ws s' = ws_run (re_ws E) (re_externals E) [] [Inl (rt_block s + 1)] (rt_ws s)"
    by (auto simp: initialize_block_def)
  then show ?thesis by blast
next
  case (Extrinsic x)
  with assms obtain r where "apply_extrinsic E x s = Ok (r, s')" by auto
  then show ?thesis
  proof (cases rule: apply_extrinsic_cases)
    case (failed f)
    then have "rt_ws s' = ws_run (re_ws E) (re_externals E) [] [] (rt_ws s)" by simp
    then show ?thesis by blast
  next
    case (called f g orig call t)
    from called(1) show ?thesis
    proof (cases rule: runtime_dispatch_cases)
      case (ocw c p)
      with called(2) have "rt_ws s' = ws_run (re_ws E) (re_externals E) [] [] (rt_ws s)" by simp
      then show ?thesis by blast
    next
      case (ws c p)
      with called(2) have
        "rt_ws s' = ws_run (re_ws E) (re_externals E) (rt_collators s) [Inr (orig, c)] (rt_ws s)" by simp
      then show ?thesis by blast
    qed
  qed
next
  case (As_root c)
  with assms have "rt_ws s' = ws_run (re_ws E) (re_externals E) [] [] (rt_ws s)"
    using as_root_idle [of E c s s'] by simp
  then show ?thesis by blast
qed (use assms in \<open>auto intro!: exI [of _ "[]"]\<close>)

lemma runtime_in_system:
  assumes "system_reach (re_ws E) (re_externals E) run n" and "js_chain n = rt_ws s"
  shows "system_reach (re_ws E) (re_externals E) run (n\<lparr>js_chain := rt_ws (rt_run E steps s)\<rparr>)"
  using assms
proof (induction steps arbitrary: n s)
  case Nil
  then show ?case by (cases n) simp
next
  case (Cons st steps)
  let ?t = "case rt_exec E st s of Ok s' \<Rightarrow> s' | _ \<Rightarrow> s"
  have "\<exists>cs wsteps. rt_ws ?t = ws_run (re_ws E) (re_externals E) cs wsteps (rt_ws s)"
  proof (cases "rt_exec E st s")
    case (Ok s')
    with rt_exec_ws [OF this] show ?thesis by simp
  qed (simp_all add: exI [of _ "[] :: ws_step list"])
  then obtain cs wsteps where ws: "rt_ws ?t = ws_run (re_ws E) (re_externals E) cs wsteps (rt_ws s)"
    by blast
  have "system_reach (re_ws E) (re_externals E) run (n\<lparr>js_chain := rt_ws ?t\<rparr>)"
    using js_calls [OF Cons.prems(1), of cs wsteps] Cons.prems(2) by (simp add: ws)
  from Cons.IH [OF this, of ?t] show ?case by simp
qed

section \<open>The workers of the runtime\<close>

text \<open>
  A pool that takes from the node's own worker what the runtime validates in the state of the
  best block. Transactions exclude each other by their tags; those of the wasmstore pallet
  have none.
\<close>

definition runtime_pool :: "'b runtime_env \<Rightarrow> 'b runtime_state \<Rightarrow> pool" where
  "runtime_pool E s p c =
     (case validate_transaction E (Unsigned_extrinsic (WasmStorePallet c)) s of Ok v \<Rightarrow> True | _ \<Rightarrow> False)"

definition included_calls :: "ws_call list \<Rightarrow> 'b rt_step list" where
  "included_calls cs = map (\<lambda>c. Extrinsic (Unsigned_extrinsic (WasmStorePallet c))) cs"

text \<open>The signed extensions' checks of unsigned calls let those of the pallet pass.\<close>

definition extensions_pass :: "'b runtime_env \<Rightarrow> bool" where
  "extensions_pass E \<longleftrightarrow> (\<forall>c. re_pre_dispatch_unsigned E (WasmStorePallet c)
     \<and> re_unsigned_validity E (WasmStorePallet c) = Ok ())"

lemma extensions_passD:
  "extensions_pass E \<Longrightarrow> re_pre_dispatch_unsigned E (WasmStorePallet c)"
  "extensions_pass E \<Longrightarrow> re_unsigned_validity E (WasmStorePallet c) = Ok ()"
  by (simp_all add: extensions_pass_def)

lemma change_valid:
  assumes "h \<noteq> 0" "b \<le> ws_block (rt_ws s)"
  shows "\<exists>v. runtime_validate_unsigned E (WasmStorePallet (Change_job_state b h)) s = Ok v"
  using assms by (simp add: validate_unsiged_transaction_def not_less)

lemma change_included:
  assumes "h \<noteq> 0" "b \<le> ws_block (rt_ws s)" "jobs (rt_ws s) h = Some j" "extensions_pass E"
  shows "rt_exec E (Extrinsic (Unsigned_extrinsic (WasmStorePallet (Change_job_state b h)))) s
     = Ok (s\<lparr>rt_ws := (rt_ws s)\<lparr>jobs := (jobs (rt_ws s))(h \<mapsto> advance_job j)\<rparr>\<rparr>)"
  using change_valid [OF assms(1,2), of E] assms(3) extensions_passD(1) [OF assms(4)]
  by (auto simp: included_def on_balances_def change_job_state_def ensure_def)

lemma initialize_block_simps [simp]:
  "rt_block (initialize_block n s) = n" "ws_block (rt_ws (initialize_block n s)) = n"
  "jobs (rt_ws (initialize_block n s)) = jobs (rt_ws s)"
  "results (rt_ws (initialize_block n s)) = results (rt_ws s)"
  "initialize_block m (initialize_block n s) = initialize_block m s"
  by (simp_all add: initialize_block_def)

lemma change_run:
  assumes "h \<noteq> 0" "b \<le> ws_block (rt_ws s)" "jobs (rt_ws s) h = Some j" "extensions_pass E"
  shows "rt_run E (included_calls (Change_job_state b h # cs)) s = rt_run E (included_calls cs)
     (s\<lparr>rt_ws := (rt_ws s)\<lparr>jobs := (jobs (rt_ws s))(h \<mapsto> advance_job j)\<rparr>\<rparr>)"
  unfolding included_calls_def list.map run_calls.simps change_included [OF assms] by simp

lemma runtime_pool_change:
  assumes "h \<noteq> 0" "unat (rt_block s) + 1 < 2 ^ 32" "extensions_pass E"
  shows "runtime_pool E s p (Change_job_state (rt_block s) h)"
proof -
  have "rt_block s \<le> rt_block s + 1"
    using assms(2) by (simp add: word_le_nat_alt unat_word_ariths)
  with change_valid [OF assms(1), of "rt_block s" "initialize_block (rt_block s + 1) s" E] assms(3)
  show ?thesis by (auto simp: runtime_pool_def extensions_passD)
qed

lemma worker_submits_change:
  assumes "find active jl = Some (h, j)" "job_status j = Pending" "h \<noteq> 0"
    and "unat (rt_block s) + 1 < 2 ^ 32" "extensions_pass E" "wk_pool w = []"
    and "db_get (wk_db w) master_key = Some kl" "db_get (wk_db w) master_result_key = Some init_mark"
  shows "wk_pool (snd (runtime_offchain_worker E (runtime_pool E s) jl s w)) = [Change_job_state (rt_block s) h]"
  using assms(6) offchain_worker_accepted [where accept = "runtime_pool E s",
      OF assms(1,2) runtime_pool_change [OF assms(3-5)] assms(7,8)]
  by (simp add: runtime_offchain_worker_def handle_results_def ocw_do_handling_result_def)

text \<open>
  C6: The states of a job count inclusions, not work. A pending job at the head of the queue
  makes the worker of every block submit a state change of its own (the extensions let the
  calls of the pallet pass). When the first is
  included before the next worker runs, the job is processing, as intended. When it is
  included one block late, the next block's change is valid as well, and the two together
  finish the job although no result exists.
\<close>

theorem late_inclusion_finishes_job:
  assumes head: "iterates jl (rt_ws s)" "find active jl = Some (h, j)" "job_status j = Pending" "h \<noteq> 0"
    and block: "ws_block (rt_ws s) = rt_block s" "unat (rt_block s) + 2 < 2 ^ 32"
    and room: "extensions_pass E"
    and w1: "wk_pool w1 = []" "db_get (wk_db w1) master_key = Some kl1"
      "db_get (wk_db w1) master_result_key = Some init_mark"
    and w2: "wk_pool w2 = []" "db_get (wk_db w2) master_key = Some kl2"
      "db_get (wk_db w2) master_result_key = Some init_mark"
  shows "let s1 = initialize_block (rt_block s + 1) s;
       c1 = wk_pool (snd (runtime_offchain_worker E (runtime_pool E s) jl s w1));
       c2 = wk_pool (snd (runtime_offchain_worker E (runtime_pool E s1) jl s1 w2));
       timely = rt_run E (New_block # included_calls c1) s;
       late = rt_run E (New_block # New_block # included_calls (c1 @ c2)) s
     in map_option job_status (jobs (rt_ws timely) h) = Some Processing
       \<and> map_option job_status (jobs (rt_ws late) h) = Some Finish
       \<and> results (rt_ws late) = results (rt_ws s)"
proof -
  let ?n = "rt_block s"
  let ?s1 = "initialize_block (?n + 1) s"
  let ?s2 = "initialize_block (?n + 2) s"
  have blocks: "?n \<le> ?n + 1" "?n \<le> ?n + 2" "?n + 1 \<le> ?n + 2"
    using block(2) by (simp_all add: word_le_nat_alt unat_word_ariths)
  have job: "jobs (rt_ws s) h = Some j"
    by (rule find_iterates [OF head(1,2)])
  have c1: "wk_pool (snd (runtime_offchain_worker E (runtime_pool E s) jl s w1)) = [Change_job_state ?n h]"
    by (rule worker_submits_change [OF head(2-4) _ room w1]) (use block(2) in simp)
  have c2: "wk_pool (snd (runtime_offchain_worker E (runtime_pool E ?s1) jl ?s1 w2))
      = [Change_job_state (?n + 1) h]"
    using worker_submits_change [OF head(2-4) _ room w2, of ?s1] block(2) by (simp add: unat_word_ariths)
  have starts: "rt_run E (New_block # sts) t = rt_run E sts (initialize_block (rt_block t + 1) t)" for sts t
    by simp
  have "rt_run E (included_calls []) t = t" for t
    by (simp add: included_calls_def)
  then show ?thesis
    using blocks job head(3,4) room
    unfolding Let_def c1 c2 starts by (simp add: change_run advance_job_def add.commute)
qed

lemma sample_extensions: "extensions_pass sample_runtime"
  by (simp add: extensions_pass_def sample_runtime_def)

theorem late_inclusion_finishes_job_witness:
  "\<exists>s c1 c2. jobs (rt_ws s) = [9 \<mapsto> sample_job Pending]
     \<and> map_option job_status (jobs (rt_ws (rt_run sample_runtime
           (New_block # New_block # included_calls (c1 @ c2)) s)) 9) = Some Finish
     \<and> results (rt_ws (rt_run sample_runtime (New_block # New_block # included_calls (c1 @ c2)) s)) = Map.empty"
proof -
  let ?w = "sample_worker init_mark init_mark"
  obtain s :: "ledger runtime_state" where
      s: "rt_ws s = ws_genesis\<lparr>jobs := [9 \<mapsto> sample_job Pending]\<rparr>" "rt_block s = 0"
    by (rule that [of "rt_genesis sample_runtime \<lparr>lg_free = (\<lambda>_. 100), lg_reserved = (\<lambda>_. 0)\<rparr> []
          \<lparr>rt_ws := ws_genesis\<lparr>jobs := [9 \<mapsto> sample_job Pending]\<rparr>\<rparr>"]) (simp_all add: rt_genesis_def)
  then have state: "jobs (rt_ws s) = [9 \<mapsto> sample_job Pending]" "results (rt_ws s) = Map.empty"
      "ws_block (rt_ws s) = rt_block s" "unat (rt_block s) + 2 < 2 ^ 32"
    by (simp_all add: ws_genesis_def)
  have "iterates [(9, sample_job Pending)] (rt_ws s)"
    "find active [(9, sample_job Pending)] = Some (9, sample_job Pending)"
    "job_status (sample_job Pending) = Pending" "wk_pool ?w = []"
    using state(1) by (auto simp: iterates_def active_def sample_job_def sample_worker_def)
  from late_inclusion_finishes_job [OF this(1-3) _ state(3,4) sample_extensions this(4) _ _ this(4),
      unfolded Let_def] state(1,2)
  show ?thesis by (simp del: run_calls.simps) blast
qed

end
