(* ===== verification/Late_Delivery.thy ===== *)
theory Late_Delivery
  imports Runtime_Blocks
begin

text \<open>
  A job from request to result with nobody's help but a late inclusion: the program's own
  workers, node and runtime (theories \<open>Wasmstore_Worker\<close>, \<open>Exec_Manager\<close>,
  \<open>Runtime_Blocks\<close>), with the state changes of two consecutive blocks included together.
\<close>

section \<open>The worker in two blocks\<close>

text \<open>A worker that sees a pending job adds it to the keys that are listed already.\<close>

lemma worker_lists_again:
  assumes laws: "codec_laws C" and fits: "request_fits (job_request C h j)"
    and head: "find active jl = Some (h, j)" "job_status j = Pending"
    and pool: "accept (wk_pool w) (Change_job_state block h)"
    and lists: "db_get (wk_db w) master_key = Some (key_list_of ks)"
      "db_get (wk_db w) master_result_key = Some init_mark"
  shows "offchain_worker C accept block jl w = (Returned,
     w\<lparr>wk_pool := wk_pool w @ [Change_job_state block h], wk_events := wk_events w @ [UnsignedTx block],
       wk_db := db_set (enc_hash C h) (enc_request C (job_request C h j))
         (db_set master_key (key_list_of (ks @ [enc_hash C h])) (wk_db w))\<rparr>)"
  using offchain_worker_accepted [where accept = accept and C = C, OF head pool lists] lists(1)
  by (simp add: store_request_get [OF laws fits] odb.cas_eq key_list_of_append
      handle_results_def ocw_do_handling_result_def)

section \<open>The node\<close>

text \<open>One pass of the executor: the tasks of the monitor and the listener's writes.\<close>

definition executor_pass ::
  "payload_codecs \<Rightarrow> (rust_string \<Rightarrow> bytes \<Rightarrow> (string, bytes) outcome) \<Rightarrow> nat \<Rightarrow> pubkey
     \<Rightarrow> offchain_db \<Rightarrow> offchain_db" where
  "executor_pass C run elapsed pk db =
     (case monitor_round db of
        Ok (tasks, db') \<Rightarrow> fold (result_listener_round C pk) (task_results C run elapsed tasks) db'
      | _ \<Rightarrow> db)"

lemma task_results_replicate:
  assumes "executor_task C run elapsed p = Ok (Some r)"
  shows "task_results C run elapsed (map (\<lambda>k. (k, p)) ks) = replicate (length ks) r"
  using assms by (induction ks) (simp_all add: task_results_def map_filter_simps)

lemma listener_rounds:
  assumes "jr_job_id r \<noteq> master_result_key" "db_get db master_result_key = Some (init_mark @ concat ks)"
  shows "\<exists>db'. fold (result_listener_round C pk) (replicate (Suc n) r) db = db'
     \<and> db_get db' master_result_key = Some (init_mark @ concat (ks @ replicate (Suc n) (jr_job_id r)))
     \<and> db_get db' (jr_job_id r) = Some (enc_response C (response_of pk r))
     \<and> (jr_job_id r \<noteq> master_key \<longrightarrow> db_get db' master_key = db_get db master_key)"
  using assms(2)
proof (induction n arbitrary: db ks)
  case 0
  then show ?case
    using listener_db [OF assms(1) 0] assms(1) by (simp add: odb.get_put)
next
  case (Suc n)
  let ?db = "result_listener_round C pk r db"
  have db: "db_get ?db master_result_key = Some (init_mark @ concat (ks @ [jr_job_id r]))"
      "jr_job_id r \<noteq> master_key \<Longrightarrow> db_get ?db master_key = db_get db master_key"
    using listener_db [OF assms(1) Suc.prems] assms(1) by (simp_all add: odb.get_put)
  from Suc.IH [OF db(1)] db(2) show ?case
    by (simp add: replicate_append_same [symmetric] fold_commute_apply)
qed

lemma executor_pass_delivers:
  assumes laws: "codec_laws C" and fits: "request_fits (job_request C h j)"
    and script: "valid_utf8 (job_wasm_abi j)" "run (job_wasm_abi j) (job_wasm_code j) = Ok out"
    and db: "db_get db master_key = Some (key_list_of (replicate (Suc n) (enc_hash C h)))"
      "db_get db master_result_key = Some init_mark"
      "db_get db (enc_hash C h) = Some (enc_request C (job_request C h j))"
    and r_def: "r = \<lparr>jr_job_id = enc_hash C h, jr_result = out, jr_ext_time = subsec_millis elapsed\<rparr>"
  shows "db_get (executor_pass C run elapsed pk db) master_key = Some init_mark"
    and "db_get (executor_pass C run elapsed pk db) master_result_key
       = Some (init_mark @ concat (replicate (Suc n) (enc_hash C h)))"
    and "db_get (executor_pass C run elapsed pk db) (enc_hash C h) = Some (enc_response C (response_of pk r))"
proof -
  let ?k = "enc_hash C h"
  let ?db = "db_set master_key init_mark db"
  note keys = enc_hash_keys [OF laws, of h]
  have "hash_keys (replicate (Suc n) ?k)"
    using codec_lawsD(3) [OF laws] by (auto simp: hash_keys_def)
  from monitor_round_tasks [OF _ this, of db] db(1,3) have monitor: "monitor_round db
      = Ok (map (\<lambda>k. (k, Some (enc_request C (job_request C h j)))) (replicate (Suc n) ?k), ?db)"
    by simp
  have "executor_task C run elapsed (Some (enc_request C (job_request C h j))) = Ok (Some r)"
    using executor_task_Ok [OF laws fits, of run out elapsed] script by (simp add: job_request_def r_def)
  from task_results_replicate [OF this, of "replicate (Suc n) ?k"] have pass:
    "executor_pass C run elapsed pk db = fold (result_listener_round C pk) (replicate (Suc n) r) ?db"
    unfolding executor_pass_def monitor by simp
  have "jr_job_id r \<noteq> master_result_key" "db_get ?db master_result_key = Some (init_mark @ concat [])"
    using keys db(2) by (simp_all add: r_def odb.get_put)
  from listener_rounds [OF this, of C pk n] show
    "db_get (executor_pass C run elapsed pk db) master_key = Some init_mark"
    "db_get (executor_pass C run elapsed pk db) master_result_key
       = Some (init_mark @ concat (replicate (Suc n) ?k))"
    "db_get (executor_pass C run elapsed pk db) ?k = Some (enc_response C (response_of pk r))"
    using keys(1) unfolding pass by (simp_all add: r_def odb.get_put del: fold_replicate replicate_Suc)
qed

section \<open>The results\<close>

lemma submit_results_replicate:
  assumes "codec_laws C" "result_call C block (wk_db w) k = Some call" "\<And>p. accept p call"
  shows "wk_pool (snd (submit_results C accept block (replicate n k) w)) = wk_pool w @ replicate n call"
  using assms(2)
proof (induction n arbitrary: w)
  case (Suc n)
  then obtain raw res where raw: "db_get (wk_db w) k = Some raw" "dec_response C raw = Some res"
      "call = Submit_result_unsiged block (rs_job_id res) (rs_job_result res) (rs_address res) (rs_exe_time res)"
    by (auto simp: result_call_def split: option.splits)
  let ?w = "w\<lparr>wk_pool := wk_pool w @ [call], wk_events := wk_events w @ [UnsignedTx block]\<rparr>"
  have "submit_results C accept block (replicate (Suc n) k) w = submit_results C accept block (replicate n k) ?w"
    using raw assms(3) codec_lawsD(6) [OF assms(1)]
    by (simp add: ocw_do_submit_result_def submit_and_report_def submit_unsigned_transaction_def)
  with Suc.IH [of ?w] Suc.prems show ?case by simp
qed simp

lemma result_included:
  assumes "jobs (rt_ws s) h = Some j" "job_status j = Finish" "h \<noteq> 0" "b \<le> ws_block (rt_ws s)"
    and "dec_hash (ws_codecs (re_externals E)) key = Some h"
    and "length v \<le> unat (max_result_size (re_ws E))" "extensions_pass E"
  shows "rt_exec E (Extrinsic (Unsigned_extrinsic (WasmStorePallet (Submit_result_unsiged b key v p t)))) s
     = Ok (s\<lparr>rt_ws := (rt_ws s)\<lparr>results := (results (rt_ws s))((h, p) \<mapsto>
          \<lparr>result_data = v, ext_time = t\<rparr>)\<rparr>\<rparr>)"
proof -
  have "submit_result_unsiged (re_ws E) (re_externals E) Unsigned b key v p t (rt_ws s)
      = Ok ((rt_ws s)\<lparr>results := (results (rt_ws s))((h, p) \<mapsto> \<lparr>result_data = v, ext_time = t\<rparr>)\<rparr>)"
    using assms by (simp add: submit_Ok_iff)
  with assms extensions_passD(1) [OF assms(7)] show ?thesis
    by (auto simp: validate_unsiged_transaction_def included_def on_balances_def ensure_def)
qed

lemma results_run:
  assumes "jobs (rt_ws s) h = Some j" "job_status j = Finish" "h \<noteq> 0" "b \<le> ws_block (rt_ws s)"
    and "dec_hash (ws_codecs (re_externals E)) key = Some h"
    and "length v \<le> unat (max_result_size (re_ws E))" "extensions_pass E"
  shows "results (rt_ws (rt_run E (included_calls (replicate (Suc n) (Submit_result_unsiged b key v p t))) s)) (h, p)
     = Some \<lparr>result_data = v, ext_time = t\<rparr>"
  using assms(1,4)
proof (induction n arbitrary: s)
  case 0
  then show ?case
    unfolding included_calls_def replicate.simps list.map run_calls.simps
      result_included [OF 0(1) assms(2,3) 0(2) assms(5-7)] by simp
next
  case (Suc n)
  let ?s = "s\<lparr>rt_ws := (rt_ws s)\<lparr>results := (results (rt_ws s))((h, p) \<mapsto>
     \<lparr>result_data = v, ext_time = t\<rparr>)\<rparr>\<rparr>"
  from Suc.IH [of ?s] Suc.prems show ?case
    unfolding included_calls_def replicate.simps(2) [of "Suc n"] list.map run_calls.simps
      result_included [OF Suc.prems(1) assms(2,3) Suc.prems(2) assms(5-7)] by simp
qed

section \<open>Delivery\<close>

text \<open>A finished job at the head: the worker submits what the list announces for it.\<close>

lemma worker_submits_listed:
  assumes laws: "codec_laws C" and head: "find active jl = Some (h, j)" "job_status j = Finish"
    and db: "db_get (wk_db w) master_key = Some init_mark"
      "db_get (wk_db w) master_result_key = Some (init_mark @ concat (replicate (Suc n) (enc_hash C h)))"
      "db_get (wk_db w) (enc_hash C h) = Some (enc_response C (response_of pk r))"
    and r: "response_fits (response_of pk r)"
    and call: "call = Submit_result_unsiged block (jr_job_id r) (jr_result r) pk (jr_ext_time r)"
      "\<And>p. accept p call"
  shows "wk_pool (snd (offchain_worker C accept block jl w)) = wk_pool w @ replicate (Suc n) call"
proof -
  have result: "result_call C block (wk_db w) (enc_hash C h) = Some call"
    using db(3) codec_lawsD(2) [OF laws r] call(1) by (simp add: result_call_def response_of_def)
  have "chunks 32 (concat (replicate (Suc n) (enc_hash C h))) = replicate (Suc n) (enc_hash C h)"
    using codec_lawsD(3) [OF laws] by (intro chunks_concat) auto
  then have "offchain_worker C accept block jl w
      = submit_results C accept block (replicate (Suc n) (enc_hash C h)) w"
    using offchain_worker_finish [OF head, of C accept block w] db(1,2) enc_hash_keys [OF laws, of h]
    by (simp add: handle_results_def ocw_do_handling_result_def del: submit_results.simps)
  with submit_results_replicate [of C block w _ call accept "Suc n", OF laws result call(2)]
  show ?thesis by simp
qed

text \<open>The workers of two blocks that both see the pending job.\<close>

lemma two_workers_list:
  assumes laws: "codec_laws (ws_codecs (re_externals E))" and inv: "rt_inv E s"
    and room: "extensions_pass E" "unat (rt_block s) + 2 < 2 ^ 32"
    and head: "iterates jl (rt_ws s)" "find active jl = Some (h, j)" "job_status j = Pending" "h \<noteq> 0"
    and lists: "db_get (wk_db w) master_key = Some init_mark"
      "db_get (wk_db w) master_result_key = Some init_mark" "wk_pool w = []"
    and block0: "runtime_offchain_worker E (runtime_pool E s) jl s w = (e0, w0)"
    and block1: "s1 = rt_run E [New_block] s"
      "runtime_offchain_worker E (runtime_pool E s1) jl s1 (w0\<lparr>wk_pool := []\<rparr>) = (e1, w1)"
  shows "wk_pool w0 = [Change_job_state (rt_block s) h]" "wk_pool w1 = [Change_job_state (rt_block s + 1) h]"
    and "db_get (wk_db w1) master_key = Some (key_list_of (replicate (Suc 1) (enc_hash (ws_codecs (re_externals E)) h)))"
    and "db_get (wk_db w1) master_result_key = Some init_mark"
    and "db_get (wk_db w1) (enc_hash (ws_codecs (re_externals E)) h)
       = Some (enc_request (ws_codecs (re_externals E)) (job_request (ws_codecs (re_externals E)) h j))"
proof -
  let ?C = "ws_codecs (re_externals E)" and ?n = "rt_block s"
  let ?k = "enc_hash ?C h" and ?req = "enc_request ?C (job_request ?C h j)"
  note keys = enc_hash_keys [OF laws, of h]
  have s: "ws_inv (re_ws E) (re_externals E) (rt_ws s)" "ws_block (rt_ws s) = ?n"
    using inv by (simp_all add: rt_inv_def)
  have fits: "request_fits (job_request ?C h j)"
    by (rule job_request_fits [OF laws s(1) find_iterates [OF head(1,2)]])
  have nexts: "unat ?n + 1 < 2 ^ 32" "unat (?n + 1) + 1 < 2 ^ 32"
    using room(2) by (simp_all add: unat_word_ariths)
  have w0: "wk_pool w0 = [Change_job_state ?n h]"
      "wk_db w0 = db_set ?k ?req (db_set master_key (key_list_of [?k]) (wk_db w))"
    using block0 lists worker_lists_again [where C = ?C and accept = "runtime_pool E s" and ks = "[]",
        OF laws fits head(2,3) runtime_pool_change [OF head(4) nexts(1) room(1)]]
    by (auto simp: runtime_offchain_worker_def)
  have w1: "wk_pool w1 = [Change_job_state (?n + 1) h]"
      "wk_db w1 = db_set ?k ?req (db_set master_key (key_list_of (replicate (Suc 1) ?k)) (wk_db w0))"
    using block1(2) lists keys w0(2)
      worker_lists_again [where C = ?C and accept = "runtime_pool E s1" and ks = "[?k]"
        and w = "w0\<lparr>wk_pool := []\<rparr>", OF laws fits head(2,3) runtime_pool_change [OF head(4) _ room(1), of s1]]
      nexts(2)
    by (auto simp: runtime_offchain_worker_def block1(1) odb.get_put numeral_2_eq_2)
  show "wk_pool w0 = [Change_job_state ?n h]" "wk_pool w1 = [Change_job_state (?n + 1) h]"
    "db_get (wk_db w1) master_key = Some (key_list_of (replicate (Suc 1) ?k))"
    "db_get (wk_db w1) master_result_key = Some init_mark" "db_get (wk_db w1) ?k = Some ?req"
    using w0 w1 lists(2) keys by (simp_all add: odb.get_put)
qed

lemma two_changes_finish:
  assumes "jobs (rt_ws s) h = Some j" "h \<noteq> 0" "unat (rt_block s) + 2 < 2 ^ 32" "extensions_pass E"
    and "s2 = rt_run E (New_block # included_calls [Change_job_state (rt_block s) h,
       Change_job_state (rt_block s + 1) h]) (rt_run E [New_block] s)"
  shows "jobs (rt_ws s2) = (jobs (rt_ws s))(h \<mapsto> advance_job (advance_job j))"
    and "ws_block (rt_ws s2) = rt_block s + 2" "rt_block s2 = rt_block s + 2"
proof -
  have starts: "rt_run E (New_block # sts) t = rt_run E sts (initialize_block (rt_block t + 1) t)" for sts t
    by simp
  have stop: "rt_run E (included_calls []) t = t" for t
    by (simp add: included_calls_def)
  have "rt_block s \<le> rt_block s + 2" "rt_block s + 1 \<le> rt_block s + 2"
    using assms(3) by (simp_all add: word_le_nat_alt unat_word_ariths)
  then show "jobs (rt_ws s2) = (jobs (rt_ws s))(h \<mapsto> advance_job (advance_job j))"
    "ws_block (rt_ws s2) = rt_block s + 2" "rt_block s2 = rt_block s + 2"
    using assms(1,2,4) unfolding assms(5) starts run_calls.simps(1)
    by (simp_all add: change_run stop add.commute [of 2] del: run_calls.simps)
qed

text \<open>
  C7: How the program delivers without anyone's help, by a late inclusion: the workers of two
  consecutive blocks see the pending job and each submit a state change, the executor runs
  what they list, both changes are included together and finish the job, and the worker of
  that block submits the response that the node stored; its inclusion puts exactly the
  script's output on chain, under the job and the node's key. Every transaction on the way
  is one that the runtime validates.
\<close>

theorem late_inclusion_delivers:
  assumes laws: "codec_laws (ws_codecs (re_externals E))" and inv: "rt_inv E s"
    and blocks: "unat (rt_block s) + 3 < 2 ^ 32" and room: "extensions_pass E"
    and head: "iterates jl (rt_ws s)" "find active jl = Some (h, j)" "job_status j = Pending" "h \<noteq> 0"
    and script: "valid_utf8 (job_wasm_abi j)" "run (job_wasm_abi j) (job_wasm_code j) = Ok out"
    and size: "length out \<le> unat (max_result_size (re_ws E))"
    and lists: "db_get (wk_db w) master_key = Some init_mark"
      "db_get (wk_db w) master_result_key = Some init_mark" "wk_pool w = []"
    and block0: "runtime_offchain_worker E (runtime_pool E s) jl s w = (e0, w0)"
    and block1: "s1 = rt_run E [New_block] s"
      "runtime_offchain_worker E (runtime_pool E s1) jl s1 (w0\<lparr>wk_pool := []\<rparr>) = (e1, w1)"
    and node: "db = executor_pass (ws_codecs (re_externals E)) run elapsed pk (wk_db w1)"
    and block2: "s2 = rt_run E (New_block # included_calls (wk_pool w0 @ wk_pool w1)) s1"
      "iterates jl2 (rt_ws s2)" "find active jl2 = Some (h, j2)"
      "runtime_offchain_worker E (runtime_pool E s2) jl2 s2 (w1\<lparr>wk_pool := [], wk_db := db\<rparr>) = (e2, w2)"
    and block3: "s3 = rt_run E (New_block # included_calls (wk_pool w2)) s2"
  shows "results (rt_ws s3) (h, pk) = Some \<lparr>result_data = out, ext_time = subsec_millis elapsed\<rparr>"
proof -
  let ?C = "ws_codecs (re_externals E)"
  let ?k = "enc_hash ?C h"
  let ?r = "\<lparr>jr_job_id = ?k, jr_result = out, jr_ext_time = subsec_millis elapsed\<rparr>"
  let ?call = "Submit_result_unsiged (rt_block s + 2) ?k out pk (subsec_millis elapsed)"
  have two: "unat (rt_block s) + 2 < 2 ^ 32"
    using blocks by simp
  note work = two_workers_list [OF laws inv room two head lists block0 block1]
  have job: "jobs (rt_ws s) h = Some j"
    by (rule find_iterates [OF head(1,2)])
  have fits: "request_fits (job_request ?C h j)"
    using inv by (intro job_request_fits [OF laws _ job]) (auto simp: rt_inv_def)
  note db = executor_pass_delivers [where run = run and pk = pk and elapsed = elapsed,
      OF laws fits script work(3-5) refl, folded node]
  note s2 = two_changes_finish [OF job head(4) two room, of s2]
  have s2: "jobs (rt_ws s2) h = Some (advance_job (advance_job j))" "ws_block (rt_ws s2) = rt_block s + 2"
      "rt_block s2 = rt_block s + 2"
    using s2 block2(1) block1(1) by (simp_all add: work(1,2))
  have fin: "job_status (advance_job (advance_job j)) = Finish"
    using head(3) by (simp add: advance_job_def)
  have j2: "j2 = advance_job (advance_job j)"
    using find_iterates [OF block2(2,3)] s2(1) by simp
  have key: "dec_hash ?C ?k = Some h"
    by (rule codec_lawsD(4) [OF laws])
  have "unat (max_result_size (re_ws E)) < 2 ^ 32"
    using unsigned_less [of "max_result_size (re_ws E)", where 'a = nat] by simp
  then have rfits: "response_fits (response_of pk ?r)"
    using size codec_lawsD(3) [OF laws, of h] by (simp add: response_fits_def response_of_def fits_def)
  have le3: "rt_block s + 2 \<le> 3 + rt_block s"
    using blocks by (simp add: word_le_nat_alt unat_word_ariths)
  then have valid: "runtime_pool E s2 p ?call" for p
    using key head(4) s2(3) extensions_passD(2) [OF room]
    by (simp add: runtime_pool_def validate_unsiged_transaction_def add.commute)
  have "wk_pool (snd (offchain_worker ?C (runtime_pool E s2) (rt_block s + 2) jl2
      (w1\<lparr>wk_pool := [], wk_db := db\<rparr>))) = wk_pool (w1\<lparr>wk_pool := [], wk_db := db\<rparr>) @ replicate (Suc 1) ?call"
    by (rule worker_submits_listed [where r = ?r and pk = pk, OF laws block2(3)])
      (use db fin rfits valid in \<open>simp_all add: j2\<close>)
  then have w2: "wk_pool w2 = replicate (Suc 1) ?call"
    using block2(4) by (simp add: runtime_offchain_worker_def s2(3))
  from le3 show ?thesis
    using results_run [OF _ fin head(4) _ key size room, of "initialize_block (rt_block s2 + 1) s2"
        "rt_block s + 2" 1 pk "subsec_millis elapsed"] s2
    by (simp add: block3 w2)
qed

theorem late_inclusion_delivers_witness:
  "\<exists>s s3. jobs (rt_ws s) = [pipeline_job \<mapsto> sample_job Pending] \<and> results (rt_ws s) = Map.empty
     \<and> (\<exists>steps. s3 = rt_run sample_runtime steps s)
     \<and> results (rt_ws s3) (pipeline_job, 7) = Some \<lparr>result_data = [1, 2], ext_time = subsec_millis 5000000\<rparr>"
proof -
  let ?E = sample_runtime and ?C = "ws_codecs (re_externals sample_runtime)" and ?h = pipeline_job
  let ?s = "rt_genesis ?E \<lparr>lg_free = (\<lambda>_. 100), lg_reserved = (\<lambda>_. 0)\<rparr> [] \<lparr>rt_ws := pipeline_state\<rparr>"
  let ?jl = "\<lambda>st. [(?h, sample_job st)]" and ?w = "sample_worker init_mark init_mark"
  obtain s :: "ledger runtime_state" where s: "rt_inv ?E s" "rt_block s = 0" "rt_ws s = pipeline_state"
    using rt_reachable [of ?E "[]"] pipeline_state_inv
    by (intro that [of ?s]) (auto simp: rt_inv_def rt_genesis_def sample_runtime_def pipeline_state_def ws_genesis_def)
  have jobs: "jobs (rt_ws s) ?h = Some (sample_job Pending)" "jobs (rt_ws s) = [?h \<mapsto> sample_job Pending]"
      "results (rt_ws s) = Map.empty"
    using s(3) by (simp_all add: pipeline_state_def ws_genesis_def)
  have laws: "codec_laws ?C"
    using scale_codec_laws by (simp add: sample_runtime_def sample_externals_def)
  have "le_bytes 4 (5 :: h256) = [5, 0, 0, 0]"
    by code_simp
  then have h: "?h \<noteq> 0"
    by (simp add: pipeline_job_def sample_simps sample_job_def)
  have head: "iterates (?jl Pending) (rt_ws s)" "find active (?jl Pending) = Some (?h, sample_job Pending)"
      "job_status (sample_job Pending) = Pending" "wk_pool ?w = []"
    using jobs by (auto simp: iterates_def active_def sample_job_def sample_worker_def)
  obtain e0 w0 where w0: "runtime_offchain_worker ?E (runtime_pool ?E s) (?jl Pending) s ?w = (e0, w0)"
    by fastforce
  define s1 where "s1 = rt_run ?E [New_block] s"
  obtain e1 w1 where w1: "runtime_offchain_worker ?E (runtime_pool ?E s1) (?jl Pending) s1 (w0\<lparr>wk_pool := []\<rparr>) = (e1, w1)"
    by fastforce
  define db where "db = executor_pass ?C (\<lambda>_ _. Ok [1, 2]) 5000000 7 (wk_db w1)"
  define s2 where "s2 = rt_run ?E (New_block # included_calls (wk_pool w0 @ wk_pool w1)) s1"
  obtain e2 w2 where w2: "runtime_offchain_worker ?E (runtime_pool ?E s2) (?jl Finish) s2 (w1\<lparr>wk_pool := [], wk_db := db\<rparr>)
      = (e2, w2)"
    by fastforce
  define s3 where "s3 = rt_run ?E (New_block # included_calls (wk_pool w2)) s2"
  have "jobs (rt_ws s2) = [?h \<mapsto> sample_job Finish]"
    using two_changes_finish [OF jobs(1) h _ sample_extensions, of s2]
      two_workers_list [OF laws s(1) sample_extensions _ head(1-3) h _ _ head(4) w0 s1_def w1]
      jobs(2) s(2) by (simp add: s2_def s1_def advance_job_def sample_job_def del: run_calls.simps)
  then have head2: "iterates (?jl Finish) (rt_ws s2)" "find active (?jl Finish) = Some (?h, sample_job Finish)"
    by (auto simp: iterates_def active_def sample_job_def)
  have "results (rt_ws s3) (?h, 7) = Some \<lparr>result_data = [1, 2], ext_time = subsec_millis 5000000\<rparr>"
    by (rule late_inclusion_delivers [where run = "\<lambda>_ _. Ok [1, 2]", OF laws s(1) _ sample_extensions head(1-3) h _ refl _ _ _ head(4)
          w0 s1_def w1 db_def s2_def head2 w2 s3_def])
      (simp_all add: s(2) sample_job_def sample_runtime_def runtime_ws_config_def)
  moreover have "\<exists>steps. s3 = rt_run ?E steps s"
    unfolding s3_def s2_def s1_def run_calls_append [symmetric] by blast
  ultimately show ?thesis
    using jobs by blast
qed

end
