(* ===== verification/Node_Keys.thy ===== *)
theory Node_Keys
  imports Late_Delivery
begin

text \<open>
  Under which key a node stores its results: \<open>run_executor\<close> looks for a key of the type of
  BABE (\<open>node/src/scripts_exec_manager.rs\<close>), while the session keys that the runtime makes a
  node generate (\<open>SessionKeys\<close> in \<open>runtime/src/lib.rs\<close>) are keys of Aura only.
\<close>

definition KEY_TYPE_BABE :: string where
  "KEY_TYPE_BABE = ''babe''"

text \<open>
  The fields of \<open>SessionKeys\<close>, by the type under which the keystore keeps the key
  (\<open>key_types::AURA\<close> of the SDK is \<open>aura\<close>).
\<close>

definition session_key_types :: "string list" where
  "session_key_types = [''aura'']"

text \<open>A keystore that holds nothing but session keys of this runtime.\<close>

definition session_keystore :: "(string \<Rightarrow> pubkey list) \<Rightarrow> bool" where
  "session_keystore ks \<longleftrightarrow> (\<forall>t. t \<notin> set session_key_types \<longrightarrow> ks t = [])"

lemma session_keystore_key:
  assumes "session_keystore ks" "run_executor raw (ks KEY_TYPE_BABE) storage = Ok (db, pk)"
  shows "pk = 0"
proof -
  have "ks KEY_TYPE_BABE = []"
    using assms(1) by (simp add: session_keystore_def session_key_types_def KEY_TYPE_BABE_def)
  with assms(2) show ?thesis
    by (auto simp: run_executor_def get_processor_keypair_def Let_def outcome_simps)
qed

text \<open>Two results of a finished job, included one after the other.\<close>

lemma two_results_included:
  assumes job: "jobs (rt_ws s) h = Some j" "job_status j = Finish" "h \<noteq> 0"
    and blocks: "b1 \<le> ws_block (rt_ws s)" "b2 \<le> ws_block (rt_ws s)"
    and key: "dec_hash (ws_codecs (re_externals E)) key = Some h" and room: "extensions_pass E"
    and sizes: "length v1 \<le> unat (max_result_size (re_ws E))" "length v2 \<le> unat (max_result_size (re_ws E))"
  shows "results (rt_ws (rt_run E (included_calls
       [Submit_result_unsiged b1 key v1 p t1, Submit_result_unsiged b2 key v2 q t2]) s))
     = (results (rt_ws s))((h, p) \<mapsto> \<lparr>result_data = v1, ext_time = t1\<rparr>,
         (h, q) \<mapsto> \<lparr>result_data = v2, ext_time = t2\<rparr>)"
proof -
  let ?s = "s\<lparr>rt_ws := (rt_ws s)\<lparr>results := (results (rt_ws s))((h, p) \<mapsto>
     \<lparr>result_data = v1, ext_time = t1\<rparr>)\<rparr>\<rparr>"
  have first: "rt_exec E (Extrinsic (Unsigned_extrinsic (WasmStorePallet
      (Submit_result_unsiged b1 key v1 p t1)))) s = Ok ?s"
    by (rule result_included [OF job blocks(1) key sizes(1) room])
  have second: "rt_exec E (Extrinsic (Unsigned_extrinsic (WasmStorePallet
      (Submit_result_unsiged b2 key v2 q t2)))) ?s
    = Ok (?s\<lparr>rt_ws := (rt_ws ?s)\<lparr>results := (results (rt_ws ?s))((h, q) \<mapsto>
        \<lparr>result_data = v2, ext_time = t2\<rparr>)\<rparr>\<rparr>)"
    using job blocks key sizes room by (intro result_included) simp_all
  then show ?thesis
    unfolding included_calls_def list.map run_calls.simps first outcome.simps second by simp
qed

text \<open>
  C26: Results are kept per processor, but nodes that hold only the session keys of this
  runtime all submit under the zero key: whatever two such nodes
  computed for a finished job, both submissions are valid, both succeed (where the SDK's
  extensions let them pass), and they share one entry, in which the later replaces the earlier.
\<close>

theorem session_nodes_share_slot:
  assumes nodes: "session_keystore ks1" "run_executor raw (ks1 KEY_TYPE_BABE) st1 = Ok (db1, pk1)"
      "session_keystore ks2" "run_executor raw (ks2 KEY_TYPE_BABE) st2 = Ok (db2, pk2)"
    and job: "jobs (rt_ws s) h = Some j" "job_status j = Finish" "h \<noteq> 0"
    and blocks: "b1 \<le> ws_block (rt_ws s)" "b2 \<le> ws_block (rt_ws s)"
    and key: "dec_hash (ws_codecs (re_externals E)) key = Some h" and room: "extensions_pass E"
    and sizes: "length v1 \<le> unat (max_result_size (re_ws E))" "length v2 \<le> unat (max_result_size (re_ws E))"
  shows "results (rt_ws (rt_run E (included_calls
       [Submit_result_unsiged b1 key v1 pk1 t1, Submit_result_unsiged b2 key v2 pk2 t2]) s))
     = (results (rt_ws s))((h, 0) \<mapsto> \<lparr>result_data = v2, ext_time = t2\<rparr>)"
  using two_results_included [OF job blocks key room sizes, where p = pk1 and q = pk2]
    session_keystore_key [OF nodes(1,2)] session_keystore_key [OF nodes(3,4)]
  by simp

theorem session_nodes_share_slot_witness:
  "\<exists>s :: ledger runtime_state. job_status (the (jobs (rt_ws s) 9)) = Finish
     \<and> results (rt_ws (rt_run sample_runtime (included_calls
         [Submit_result_unsiged 0 (h256_bytes 9) [1] 0 3, Submit_result_unsiged 0 (h256_bytes 9) [2] 0 4]) s))
       = [(9, 0) \<mapsto> \<lparr>result_data = [2], ext_time = 4\<rparr>]"
proof -
  let ?ks = "\<lambda>t. if t = ''aura'' then [5 :: pubkey] else []"
  obtain s :: "ledger runtime_state" where s: "rt_ws s = ws_genesis\<lparr>jobs := [9 \<mapsto> sample_job Finish]\<rparr>"
    by (rule that [of "rt_genesis sample_runtime \<lparr>lg_free = (\<lambda>_. 100), lg_reserved = (\<lambda>_. 0)\<rparr> []
          \<lparr>rt_ws := ws_genesis\<lparr>jobs := [9 \<mapsto> sample_job Finish]\<rparr>\<rparr>"]) (simp add: rt_genesis_def)
  have ks: "session_keystore ?ks" "run_executor (\<lambda>_. []) (?ks KEY_TYPE_BABE) (Some Map.empty) = Ok (ho_db handover_start, 0)"
    using handover_start_run_executor by (simp_all add: session_keystore_def session_key_types_def KEY_TYPE_BABE_def)
  have "jobs (rt_ws s) 9 = Some (sample_job Finish)" "job_status (sample_job Finish) = Finish"
    "dec_hash (ws_codecs (re_externals sample_runtime)) (h256_bytes 9) = Some 9"
    using s dec_hash_sample by (simp_all add: sample_job_def sample_runtime_def)
  from session_nodes_share_slot [OF ks ks this(1,2) _ _ _ this(3) sample_extensions, of 0 0 "[1]" "[2]" 3 4] this(1,2) s
  show ?thesis
    by (intro exI [of _ s]) (simp add: sample_runtime_def runtime_ws_config_def ws_genesis_def del: run_calls.simps)
qed

end
