(* ===== verification/Node_Restart.thy ===== *)
theory Node_Restart
  imports Job_Queue
begin

text \<open>
  What a restart of the node does to jobs in progress. The off-chain database survives a
  restart, but \<open>run_executor\<close> (\<open>node/src/scripts_exec_manager.rs\<close>) resets both lists, while
  the chain keeps the job in its state. The relation \<open>restarted\<close> collects everything that
  can happen afterwards, in any order.
\<close>

inductive restarted ::
  "ws_config \<Rightarrow> ws_externals \<Rightarrow> pool \<Rightarrow> (pubkey \<Rightarrow> bytes) \<Rightarrow> pubkey list \<Rightarrow> ws_state \<Rightarrow> worker
     \<Rightarrow> ws_state \<Rightarrow> worker \<Rightarrow> (bytes \<times> bytes option) list \<Rightarrow> bool"
  for cfg X accept raw pks s0 w0 where
  restart: "run_executor raw pks (Some (wk_db w0)) = Ok (db, pk) \<Longrightarrow>
     restarted cfg X accept raw pks s0 w0 s0 (w0\<lparr>wk_db := db\<rparr>) []"
| chain: "restarted cfg X accept raw pks s0 w0 s w ts \<Longrightarrow>
     restarted cfg X accept raw pks s0 w0 (ws_run cfg X collators steps s) w ts"
| worker: "restarted cfg X accept raw pks s0 w0 s w ts \<Longrightarrow> iterates jl s \<Longrightarrow>
     restarted cfg X accept raw pks s0 w0 s (worker_run (ws_codecs X) accept (b, jl) w) ts"
| monitor: "restarted cfg X accept raw pks s0 w0 s w ts \<Longrightarrow> monitor_run w = (tasks, w') \<Longrightarrow>
     restarted cfg X accept raw pks s0 w0 s w' (ts @ tasks)"
| listener: "restarted cfg X accept raw pks s0 w0 s w ts \<Longrightarrow> jr_job_id r \<noteq> WASMSTORE_KEY_LIST \<Longrightarrow>
     restarted cfg X accept raw pks s0 w0 s
       (w\<lparr>wk_db := result_listener_round (ws_codecs X) pk' r (wk_db w)\<rparr>) ts"

section \<open>What the steps do to the key list\<close>

text \<open>The list holds keys of other jobs only.\<close>

definition lists_others :: "payload_codecs \<Rightarrow> h256 \<Rightarrow> worker \<Rightarrow> bool" where
  "lists_others C h w \<longleftrightarrow>
     (\<exists>hs. db_get (wk_db w) master_key = Some (key_list_of (map (enc_hash C) hs)) \<and> h \<notin> set hs)"

lemma store_request_list:
  assumes "codec_laws C" "request_fits p" "rq_job_id p \<noteq> master_key" "db_get db master_key = Some kl"
  shows "db_get (store_request C kl kl' (enc_request C p) db) master_key = Some kl'"
  using assms codec_lawsD(1) [OF assms(1,2)]
  by (simp add: store_request_def odb.get_put odb.cas_eq)

lemma handle_results_db: "wk_db (snd (handle_results C accept block rk w)) = wk_db w"
  using handle_results_calls by (metis prod.collapse)

text \<open>A run of the worker lists at most the key of the pending job that it found first.\<close>

lemma worker_run_list:
  assumes C: "codec_laws C" and kl: "db_get (wk_db w) master_key = Some kl"
    and fits: "\<And>h j. find active jl = Some (h, j) \<Longrightarrow> request_fits (job_request C h j)"
  shows "db_get (wk_db (worker_run C accept (b, jl) w)) master_key = Some kl
     \<or> (\<exists>h j. find active jl = Some (h, j) \<and> job_status j = Pending
          \<and> db_get (wk_db (worker_run C accept (b, jl) w)) master_key = Some (kl @ enc_hash C h))"
proof (cases "db_get (wk_db w) master_result_key")
  case None
  then show ?thesis
    using kl by (simp add: worker_run_def offchain_worker_def)
next
  case (Some rk)
  show ?thesis
  proof (cases "find active jl")
    case None
    then show ?thesis
      using kl Some by (simp add: worker_run_def offchain_worker_def handling_job_find)
  next
    case (Some hj)
    then obtain h j where head: "find active jl = Some (h, j)"
      by (cases hj) auto
    have id: "rq_job_id (job_request C h j) \<noteq> master_key" "rq_job_id default_request \<noteq> master_key"
      using enc_hash_keys(1) [OF C, of h] db_keys by (auto simp: job_request_def default_request_def)
    consider "job_status j = Finish" | "job_status j = Pending"
      using find_active_Some(2) [OF head] by blast
    then show ?thesis
    proof cases
      case 1
      then show ?thesis
        using offchain_worker_finish [OF head 1, of C accept b w] kl \<open>db_get _ master_result_key = _\<close>
        by (simp add: worker_run_def handle_results_db)
    next
      case 2
      then show ?thesis
        using offchain_worker_accepted [where accept = accept and C = C, OF head 2 _ kl \<open>db_get _ master_result_key = _\<close>]
          offchain_worker_refused [where accept = accept and C = C, OF head 2 _ kl \<open>db_get _ master_result_key = _\<close>]
          store_request_list [OF C fits [OF head] id(1) kl]
          store_request_list [OF C default_request_fits id(2) kl] head
        by (cases "accept (wk_pool w) (Change_job_state b h)")
          (auto simp: worker_run_def handle_results_db)
    qed
  qed
qed

lemma listener_list:
  assumes "jr_job_id r \<noteq> master_key"
  shows "db_get (result_listener_round C pk r db) master_key = db_get db master_key"
  using assms
  by (simp add: result_listener_round_def read_from_offchain_db_def Let_def odb.get_put
      split: option.split)

lemma monitor_run_list:
  assumes C: "codec_laws C" and "lists_others C h w" and run: "monitor_run w = (tasks, w')"
  shows "lists_others C h w'" "enc_hash C h \<notin> fst ` set tasks"
proof -
  obtain hs where kl: "db_get (wk_db w) master_key = Some (key_list_of (map (enc_hash C) hs))"
    and h: "h \<notin> set hs"
    using assms(2) by (auto simp: lists_others_def)
  have "monitor_run w = (map (\<lambda>g. (enc_hash C g, db_get (wk_db w) (enc_hash C g))) hs,
      w\<lparr>wk_db := db_set master_key list_init (wk_db w)\<rparr>)"
    using monitor_round_tasks [of "wk_db w" "map (enc_hash C) hs"] kl listed_requests_eq(2) [OF C kl]
    by (simp add: monitor_run_def o_def)
  then show "lists_others C h w'" "enc_hash C h \<notin> fst ` set tasks"
    using run h enc_hash_inject [OF C]
    by (auto simp: lists_others_def odb.get_put intro: exI [of _ "[]"])
qed

section \<open>The job is lost\<close>

lemma restarted_inv:
  assumes "restarted cfg X accept raw pks s0 w0 s w ts"
    and C: "codec_laws (ws_codecs X)" and "ws_inv cfg X s0"
    and "jobs s0 h = Some j0" "Processing \<le> job_status j0"
  shows "ws_inv cfg X s \<and> (\<exists>j. jobs s h = Some j \<and> Processing \<le> job_status j)
     \<and> lists_others (ws_codecs X) h w \<and> enc_hash (ws_codecs X) h \<notin> fst ` set ts"
  using assms(1)
proof induction
  case (restart db pk)
  then show ?case
    using run_executor_lists(1) [OF restart] assms(3-5)
    by (auto simp: lists_others_def intro: exI [of _ "[]"])
next
  case (chain s w ts collators steps)
  then show ?case
    using ws_progress_job [OF ws_flow.run_rel] ws_safe.run_inv by (fastforce intro: order_trans)
next
  case (worker s w ts jl b)
  let ?C = "ws_codecs X"
  let ?w = "worker_run ?C accept (b, jl) w"
  obtain hs where kl: "db_get (wk_db w) master_key = Some (key_list_of (map (enc_hash ?C) hs))"
    and h: "h \<notin> set hs"
    using worker.IH by (auto simp: lists_others_def)
  have "request_fits (job_request ?C g j)" if "find active jl = Some (g, j)" for g j
    using job_request_fits [OF C] worker.IH find_iterates [OF worker.hyps(2) that] by blast
  from worker_run_list [OF C kl this, of jl accept b]
  consider "db_get (wk_db ?w) master_key = Some (key_list_of (map (enc_hash ?C) hs))"
    | g j where "find active jl = Some (g, j)" "job_status j = Pending"
      "db_get (wk_db ?w) master_key = Some (key_list_of (map (enc_hash ?C) (hs @ [g])))"
    by (auto simp: key_list_of_append)
  then have "lists_others ?C h ?w"
  proof cases
    case 1
    then show ?thesis using h by (auto simp: lists_others_def)
  next
    case 2
    have "g \<noteq> h"
      using worker.IH find_iterates [OF worker.hyps(2) 2(1)] 2(2) by (auto simp: less_eq_job_state_def)
    then show ?thesis
      using 2(3) h by (auto simp: lists_others_def intro!: exI [of _ "hs @ [g]"])
  qed
  then show ?case using worker.IH by blast
next
  case (monitor s w ts tasks w')
  then show ?case
    using monitor_run_list [OF C, of h w tasks w'] by auto
next
  case (listener s w ts r pk')
  then show ?case
    by (simp add: lists_others_def listener_list)
qed

text \<open>
  C13: A restart of the node loses every job in progress: once the chain shows a job as
  processing (or further), after \<open>run_executor\<close> has reset the lists no task is ever started
  for it on this node, whatever calls and blocks the chain takes and however the worker,
  the monitor and the listener run.
\<close>

theorem restart_loses_job:
  assumes "codec_laws (ws_codecs X)" "ws_inv cfg X s0"
    and "jobs s0 h = Some j" "Processing \<le> job_status j"
    and "restarted cfg X accept raw pks s0 w0 s w tasks"
  shows "enc_hash (ws_codecs X) h \<notin> fst ` set tasks"
  using restarted_inv [OF assms(5,1-4)] by blast

definition restart_job :: h256 where
  "restart_job = job_key sample_externals (sample_job Pending)"

text \<open>A chain with one job in processing; the node has it in its list when it stops.\<close>

definition restart_state :: ws_state where
  "restart_state = ws_genesis\<lparr>jobs := [restart_job \<mapsto> sample_job Processing]\<rparr>"

lemma restart_state_ok:
  "ws_inv runtime_ws_config sample_externals restart_state"
  "jobs restart_state restart_job = Some (sample_job Processing)"
  by (simp_all add: ws_inv_def restart_state_def ws_genesis_def job_ok_def restart_job_def
      sample_job_def runtime_ws_config_def ascii_def less_eq_job_state_def)

theorem restart_loses_job_witness:
  "\<exists>w tasks. restarted runtime_ws_config sample_externals (\<lambda>_ _. True) h256_bytes [] restart_state
       (sample_worker (init_mark @ enc_hash scale_codecs restart_job) init_mark) restart_state w tasks
     \<and> enc_hash scale_codecs restart_job \<notin> fst ` set tasks"
proof -
  let ?w0 = "sample_worker (init_mark @ enc_hash scale_codecs restart_job) init_mark"
  let ?R = "restarted runtime_ws_config sample_externals (\<lambda>_ _. True) h256_bytes [] restart_state ?w0"
  obtain db pk where "run_executor h256_bytes [] (Some (wk_db ?w0)) = Ok (db, pk)"
    by (simp add: run_executor_def get_processor_keypair_def outcome_simps Let_def)
  from restarted.restart [OF this] have "?R restart_state (?w0\<lparr>wk_db := db\<rparr>) []" .
  then obtain w tasks where R: "?R restart_state w tasks"
    using restarted.monitor [of _ _ _ _ _ _ _ restart_state "?w0\<lparr>wk_db := db\<rparr>" "[]"]
    by (cases "monitor_run (?w0\<lparr>wk_db := db\<rparr>)") blast
  have "codec_laws (ws_codecs sample_externals)" "ws_codecs sample_externals = scale_codecs"
    by (simp_all add: sample_externals_def scale_codec_laws)
  then show ?thesis
    using restart_loses_job [OF _ restart_state_ok _ R] R by (auto simp: less_eq_job_state_def sample_job_def)
qed

end
