(* ===== verification/Script_Types.thy ===== *)
theory Script_Types
  imports Script_Output "HOL-Library.While_Combinator"
begin

text \<open>
  Two further facts about \<open>script-executor/src/runtime.rs\<close>: whatever a script does, a
  successful run returns bytes that a client can read back by the interface description
  alone; and the loop that scans the URL out of linear memory, written as the loop it is,
  always ends.
\<close>

section \<open>Reading an output by its types\<close>

datatype typed_value = Number bytes | String rust_string | Floats "bytes list" | Nothing_stored

text \<open>
  The reader a client would use: a number is its four or eight bytes, a text a
  length-prefixed UTF-8 string, an array of a class a length-prefixed vector of \<open>f32\<close>;
  any other type leaves nothing in the output.
\<close>

definition read_bytes :: "nat \<Rightarrow> bytes \<Rightarrow> (bytes \<times> bytes) option" where
  "read_bytes n bs = (if n \<le> length bs then Some (take n bs, drop n bs) else None)"

fun read_floats :: "nat \<Rightarrow> bytes \<Rightarrow> (bytes list \<times> bytes) option" where
  "read_floats 0 bs = Some ([], bs)"
| "read_floats (Suc n) bs =
     (case read_bytes 4 bs of None \<Rightarrow> None
      | Some (x, r) \<Rightarrow> map_option (\<lambda>(xs, r'). (x # xs, r')) (read_floats n r))"

definition array_class :: "(rust_string \<Rightarrow> bool) \<Rightarrow> rust_string \<Rightarrow> bool" where
  "array_class is_class t \<longleftrightarrow> starts_with t (ascii ''Array<'') \<and>
     (case strip_suffix (drop 6 t) (ascii ''>'') of None \<Rightarrow> False | Some c \<Rightarrow> is_class c)"

definition read_value ::
  "(rust_string \<Rightarrow> bool) \<Rightarrow> rust_string \<Rightarrow> bytes \<Rightarrow> (typed_value \<times> bytes) option" where
  "read_value is_class t bs =
     (case fixed_size t of
        Some n \<Rightarrow> map_option (\<lambda>(x, r). (Number x, r)) (read_bytes n bs)
      | None \<Rightarrow>
          if array_class is_class t then
            (case dec_compact bs of None \<Rightarrow> None
             | Some (n, r) \<Rightarrow> map_option (\<lambda>(xs, r'). (Floats xs, r')) (read_floats n r))
          else if t = ascii ''string'' then
            (case dec_vec bs of None \<Rightarrow> None
             | Some (s, r) \<Rightarrow> if valid_utf8 s then Some (String s, r) else None)
          else Some (Nothing_stored, bs))"

fun read_values ::
  "(rust_string \<Rightarrow> bool) \<Rightarrow> rust_string list \<Rightarrow> bytes \<Rightarrow> (typed_value list \<times> bytes) option" where
  "read_values is_class [] bs = Some ([], bs)"
| "read_values is_class (t # ts) bs =
     (case read_value is_class t bs of None \<Rightarrow> None
      | Some (v, r) \<Rightarrow> map_option (\<lambda>(vs, r'). (v # vs, r')) (read_values is_class ts r))"

section \<open>The decoder writes what the reader reads\<close>

lemma read_floats_concat:
  "\<forall>x \<in> set xs. length x = 4 \<Longrightarrow> read_floats (length xs) (concat xs @ r) = Some (xs, r)"
  by (induction xs) (simp_all add: read_bytes_def)

lemma array_values_length: "array_values mem p is = Ok vs \<Longrightarrow> length vs \<le> length is"
  by (induction "is" arbitrary: vs) (fastforce simp: outcome_simps split: if_splits)+

lemma read_array_length: "read_array mem p = Ok vs \<Longrightarrow> length vs < 2 ^ 32"
proof -
  assume "read_array mem p = Ok vs"
  then obtain cap :: u32 where "length vs \<le> unat cap"
    using array_values_length by (fastforce simp: read_array_def outcome_simps Let_def split: if_splits)
  moreover have "unat cap < 2 ^ 32"
    using unsigned_less [of cap, where 'a = nat] by simp
  ultimately show ?thesis by simp
qed

lemma utf8_string_length: "length (utf8_string cs) \<le> 4 * length cs"
  by (induction cs) (auto simp: utf8_string_def utf8_char_def)

lemma utf16_decode_length: "utf16_decode us = Some cs \<Longrightarrow> length cs \<le> length us"
  by (induction us arbitrary: cs rule: utf16_decode.induct)
    (auto split: if_splits list.splits intro: le_SucI)

lemma chunks_le_length: "0 < n \<Longrightarrow> length (chunks n xs) \<le> length xs"
proof (induction n xs rule: chunks.induct)
  case (1 n xs)
  then show ?case by (subst chunks.simps) (cases xs, auto)
qed

lemma read_utf16_ok:
  assumes "read_utf16_string mem p n = Ok s"
  shows "valid_utf8 s" "length s \<le> 8 * n"
proof -
  let ?us = "\<lambda>raw. takeWhile (\<lambda>u. u \<noteq> 0) (map of_le_bytes (chunks 2 raw)) :: u16 list"
  from assms obtain raw where raw: "length raw = n * 2" and s: "from_utf16 (?us raw) = Some s"
    by (auto simp: read_utf16_string_def outcome_simps dest: mem_read_length)
  then show "valid_utf8 s" by (simp add: from_utf16_valid)
  from s obtain cs where cs: "utf16_decode (?us raw) = Some cs" "s = utf8_string cs"
    by (auto simp: from_utf16_def)
  have "length cs \<le> length raw"
    using utf16_decode_length [OF cs(1)] length_takeWhile_le [of "\<lambda>u. u \<noteq> 0" "map of_le_bytes (chunks 2 raw) :: u16 list"]
      chunks_le_length [of 2 raw] by simp
  then show "length s \<le> 8 * n"
    using utf8_string_length [of cs] raw cs(2) by simp
qed

lemma valid_utf8_Nil [simp]: "valid_utf8 []"
  using valid_utf8_string [of "[]"] by (simp add: utf8_string_def)

lemma read_string_value:
  assumes "valid_utf8 s" "length s < 2 ^ 32"
  shows "read_value is_class (ascii ''string'') (enc_string s @ r) = Some (String s, r)"
  using assms vec.dec_enc [of s r]
  by (simp add: read_value_def fixed_size_def array_class_def starts_with_def enc_string_def
      enc_vec_def fits_def)

lemma read_array_value:
  assumes "array_class is_class t" "length vs < 2 ^ 32"
  shows "read_value is_class t (enc_f32_vec vs @ r) = Some (Floats (map (le_bytes 4) vs), r)"
proof -
  have "fixed_size t = None"
    using assms(1) by (auto simp: array_class_def fixed_size_def starts_with_def)
  then show ?thesis
    using assms dec_compact_enc [OF assms(2)] read_floats_concat [of "map (le_bytes 4) vs" r]
    by (simp add: read_value_def enc_f32_vec_def)
qed

text \<open>A text field: a string of bounded length, empty where none can be read.\<close>

lemma decode_text_bytes:
  assumes "decode_field is_class mem base off (ascii ''string'') = Ok (off', bs)"
  shows "\<exists>s. bs = enc_string s \<and> valid_utf8 s \<and> length s \<le> 8 * 1024"
proof -
  obtain p where p: "bs = enc_string (case read_utf16_string mem p 1024 of Ok s \<Rightarrow> s | _ \<Rightarrow> [])"
    using assms by (auto simp: decode_field_def starts_with_def outcome_simps Let_def)
  then show ?thesis
    using read_utf16_ok [of mem p 1024] by (cases "read_utf16_string mem p 1024") auto
qed

text \<open>An array field: a vector of numbers for a known class, and nothing otherwise.\<close>

lemma array_type_inner:
  assumes "starts_with t (ascii ''Array<'')"
  shows "Option.bind (strip_prefix t (ascii ''Array<'')) (\<lambda>s. strip_suffix s (ascii ''>''))
      = strip_suffix (drop 6 t) (ascii ''>'')"
    "t \<noteq> ascii ''i32''" "t \<noteq> ascii ''f32''" "t \<noteq> ascii ''i64''" "t \<noteq> ascii ''f64''"
    "t \<noteq> ascii ''string''"
  using assms by (auto simp: strip_prefix_def starts_with_def numeral_eq_Suc)

lemma decode_array_bytes:
  assumes "decode_field is_class mem base off t = Ok (off', bs)" "array_class is_class t"
  shows "\<exists>vs. bs = enc_f32_vec vs \<and> length vs < 2 ^ 32"
proof -
  have "starts_with t (ascii ''Array<'')"
    using assms(2) by (simp add: array_class_def)
  then show ?thesis
    using assms array_type_inner [of t]
    by (auto simp: decode_field_def array_class_def outcome_simps Let_def
        simp del: ascii_types split: option.splits) (use read_array_length in fastforce)
qed

lemma decode_array_typed:
  assumes "decode_field is_class mem base off t = Ok (off', bs)"
    and "fixed_size t = None" "starts_with t (ascii ''Array<'')"
  shows "\<exists>v. read_value is_class t (bs @ r) = Some (v, r)"
proof (cases "array_class is_class t")
  case True
  then show ?thesis
    using decode_array_bytes [OF assms(1) True] read_array_value [OF True] by blast
next
  case False
  then have "bs = []"
    using assms(1,3) array_type_inner [OF assms(3)]
    by (auto simp: decode_field_def array_class_def Let_def simp del: ascii_types split: option.splits)
  then show ?thesis
    using False assms(2) array_type_inner [OF assms(3)] by (simp add: read_value_def del: ascii_types)
qed

lemma decode_text_typed:
  assumes "decode_field is_class mem base off (ascii ''string'') = Ok (off', bs)"
  shows "\<exists>v. read_value is_class (ascii ''string'') (bs @ r) = Some (v, r)"
  using decode_text_bytes [OF assms] read_string_value [of _ is_class r] by fastforce

text \<open>One field: the bytes that the decoder appends are read back as one value of the type.\<close>

lemma decode_field_typed:
  assumes "decode_field is_class mem base off t = Ok (off', bs)"
  shows "\<exists>v. read_value is_class t (bs @ r) = Some (v, r)"
proof -
  consider (fixed) n where "fixed_size t = Some n"
    | (array) "fixed_size t = None" "starts_with t (ascii ''Array<'')"
    | (texts) "t = ascii ''string''"
    | (other) "fixed_size t = None" "\<not> starts_with t (ascii ''Array<'')" "t \<noteq> ascii ''string''"
    by (cases "fixed_size t") auto
  then show ?thesis
  proof cases
    case fixed
    then have "length bs = n"
      using assms by (auto simp: fixed_size_cases decode_field_def outcome_simps Let_def)
    with fixed show ?thesis
      by (simp add: read_value_def read_bytes_def)
  next
    case array
    then show ?thesis by (rule decode_array_typed [OF assms])
  next
    case texts
    then show ?thesis using assms decode_text_typed by blast
  next
    case other
    then have "bs = []" "\<not> array_class is_class t"
      using assms
      by (auto simp: decode_field_def fixed_size_def array_class_def outcome_simps Let_def
          simp del: ascii_types split: if_splits)
    with other show ?thesis
      by (simp add: read_value_def del: ascii_types)
  qed
qed

lemma decode_fields_typed:
  assumes "decode_fields is_class mem base off ps acc = Ok out"
  shows "\<exists>bs vs. out = acc @ bs \<and> read_values is_class (map pm_type ps) bs = Some (vs, [])"
  using assms
proof (induction ps arbitrary: off acc)
  case Nil
  then show ?case by simp
next
  case (Cons p ps)
  then obtain off' b where field: "decode_field is_class mem base off (pm_type p) = Ok (off', b)"
    and rest: "decode_fields is_class mem base off' ps (acc @ b) = Ok out"
    by (auto simp: outcome_simps)
  obtain bs vs where bs: "out = (acc @ b) @ bs"
      "read_values is_class (map pm_type ps) bs = Some (vs, [])"
    using Cons.IH [OF rest] by blast
  obtain v where "read_value is_class (pm_type p) (b @ bs) = Some (v, bs)"
    using decode_field_typed [OF field] by blast
  with bs have "out = acc @ (b @ bs) \<and>
      read_values is_class (map pm_type (p # ps)) (b @ bs) = Some (v # vs, [])"
    by simp
  then show ?case by blast
qed

text \<open>
  C18: A successful run is well typed: whatever the script computes and whatever it leaves in
  memory, the returned bytes are read back, completely and without a remainder, as one
  value for each field that the interface description declares for \<open>Output\<close>, numbers at
  their width, texts as valid UTF-8.
\<close>

theorem output_well_typed:
  assumes "wasmtime_runner E net bin reg = Ok out"
    and "classes_schema reg (ascii ''Output'') = Some ps"
  shows "\<exists>vs. read_values (\<lambda>c. classes_schema reg c \<noteq> None) (map pm_type ps) out = Some (vs, [])"
proof -
  obtain mem ptr where "decode_output reg mem ptr = Ok out"
    using assms(1) by (auto simp: wasmtime_runner_def outcome_simps split: wasm_val.split_asm)
      (metis wasm_val.exhaust)
  then show ?thesis
    using assms(2) decode_fields_typed by (fastforce simp: decode_output_def)
qed

text \<open>An engine whose script returns the address of an object of zeros.\<close>

definition zero_memory :: bytes where
  "zero_memory = 0 # 0 # replicate 19998 0"

definition zero_engine :: wasm_engine where
  "zero_engine = \<lparr>we_imports = (\<lambda>bin. Some [Imp_func]),
     we_instantiate = (\<lambda>bin es. Some \<lparr>wi_memory = Some zero_memory,
        wi_process = Some (\<lambda>mem a b. Some (mem, 0)), wi_url = Some (Val_i32 0)\<rparr>)\<rparr>"

definition number_registry :: selector_registry where
  "number_registry = \<lparr>reg_origin = [], reg_functions = Map.empty, reg_variables = Map.empty,
     classes_schema = [ascii ''Output'' \<mapsto> [\<lparr>pm_name = [], pm_type = ascii ''i32''\<rparr>]]\<rparr>"

lemma zero_engine_run:
  "wasmtime_runner zero_engine (\<lambda>u q. Some []) bin number_registry = Ok [0, 0, 0, 0]"
proof -
  have read: "mem_read zero_memory 0 4 = Some [0, 0, 0, 0]"
    by (simp add: mem_read_def zero_memory_def take_replicate) (simp add: numeral_2_eq_2)
  have "decode_output number_registry zero_memory 0 = Ok [0, 0, 0, 0]"
    using decode_field_four [of "ascii ''i32''" zero_memory 0 0 "[0, 0, 0, 0]"] read
    by (simp add: decode_output_def number_registry_def del: ascii_types)
  moreover have "mem_read zero_memory 0 10240 = Some (take 10240 zero_memory)"
    by (simp add: mem_read_def zero_memory_def)
  moreover have "url_units zero_memory = []"
    by (simp add: zero_memory_def)
  ultimately show ?thesis
    by (simp add: wasmtime_runner_def zero_engine_def scan_url_def mem_write_def utf8_string_def)
qed

theorem output_well_typed_witness:
  "\<exists>vs. read_values (\<lambda>c. classes_schema number_registry c \<noteq> None) [ascii ''i32''] [0, 0, 0, 0] = Some (vs, [])"
  using output_well_typed [OF zero_engine_run, of "[\<lparr>pm_name = [], pm_type = ascii ''i32''\<rparr>]"]
  by (simp add: number_registry_def)

section \<open>The scan of the URL\<close>

text \<open>
  The loop as the code has it: an index and the characters so far; it goes on while two
  bytes are left and they are not both zero. \<open>char::from_u32\<close> refuses surrogates.
\<close>

definition url_char :: "u16 \<Rightarrow> nat" where
  "url_char u = (if scalar (unat u) then unat u else 0x3F)"

text \<open>
  The index is a \<open>usize\<close>, whose arithmetic wraps as in a release build; \<open>memory_data[i]\<close>
  panics out of bounds. \<open>None\<close> would be a loop that does not end.
\<close>

definition url_more :: "bytes \<Rightarrow> u64 \<times> nat list \<Rightarrow> bool" where
  "url_more mem ic =
     (let i = fst ic in unat (i + 1) < length mem \<and> unat i < length mem
        \<and> \<not> (mem ! unat i = 0 \<and> mem ! unat (i + 1) = 0))"

definition url_body :: "bytes \<Rightarrow> u64 \<times> nat list \<Rightarrow> u64 \<times> nat list" where
  "url_body mem ic =
     (let (i, chars) = ic
      in (i + 2, chars @ [url_char (of_le_bytes [mem ! unat i, mem ! unat (i + 1)])]))"

definition url_loop :: "bytes \<Rightarrow> u64 \<Rightarrow> (string, rust_string) outcome option" where
  "url_loop mem url_value =
     map_option (\<lambda>(i, chars).
         if unat (i + 1) < length mem \<and> \<not> unat i < length mem then Panic else Ok (utf8_string chars))
       (while_option (url_more mem) (url_body mem) (url_value, []))"

lemma drop_two:
  "i + 1 < length xs \<Longrightarrow> drop i xs = xs ! i # xs ! (i + 1) # drop (i + 2) xs"
  by (metis Cons_nth_drop_Suc Suc_eq_plus1 add_2_eq_Suc' add_lessD1)

lemma url_units_stop:
  assumes "\<not> (i + 1 < length mem \<and> \<not> (mem ! i = 0 \<and> mem ! (i + 1) = 0))"
  shows "url_units (drop i mem) = []"
proof (cases "i + 1 < length mem")
  case True
  then show ?thesis using assms drop_two [OF True] by simp
next
  case False
  then have "length (drop i mem) \<le> 1" by simp
  then show ?thesis
    by (cases "drop i mem" rule: url_units.cases) auto
qed

lemma url_units_next:
  assumes "i + 1 < length mem" "\<not> (mem ! i = 0 \<and> mem ! (i + 1) = 0)"
  shows "url_units (drop i mem)
     = of_le_bytes [mem ! i, mem ! (i + 1)] # url_units (drop (i + 2) mem)"
  using assms drop_two [OF assms(1)] by (simp del: of_le_bytes.simps)

lemma unat_next: "i + 1 \<noteq> 0 \<Longrightarrow> unat (i + 1) = unat (i :: u64) + 1"
  by (simp add: unatSuc add.commute)

text \<open>Before a step neither index wraps, and neither does the next one.\<close>

lemma url_more_step:
  assumes "url_more mem (i, cs)" "i + 1 \<noteq> 0" "length mem < 2 ^ 63"
  shows "unat (i + 1) = unat i + 1" "unat (i + 2) = unat i + 2" "unat i + 1 < length mem" "i + 2 + 1 \<noteq> 0"
proof -
  show one: "unat (i + 1) = unat i + 1" by (rule unat_next [OF assms(2)])
  with assms(1) show less: "unat i + 1 < length mem" by (simp add: url_more_def Let_def)
  then have "unat i + 3 < 2 ^ LENGTH(64)" using assms(3) by simp
  then show "unat (i + 2) = unat i + 2" by (simp add: unat_word_ariths)
  then have "unat (i + 2 + 1) \<noteq> 0"
    using \<open>unat i + 3 < 2 ^ LENGTH(64)\<close> by (simp add: unat_word_ariths)
  then show "i + 2 + 1 \<noteq> 0" by auto
qed

lemma url_loop_runs:
  assumes "length mem < 2 ^ 63" "j + 1 \<noteq> 0"
  shows "\<exists>i. while_option (url_more mem) (url_body mem) (j, cs)
       = Some (i, cs @ map url_char (url_units (drop (unat j) mem))) \<and> i + 1 \<noteq> 0"
  using assms(2)
proof (induction "length mem - unat j" arbitrary: j cs rule: less_induct)
  case less
  show ?case
  proof (cases "url_more mem (j, cs)")
    case True
    note step = url_more_step [OF True less.prems assms(1)]
    have "length mem - unat (j + 2) < length mem - unat j" using step(2,3) by simp
    from less.hyps [OF this step(4), of "cs @ [url_char (of_le_bytes [mem ! unat j, mem ! unat (j + 1)])]"]
    show ?thesis
      using True step url_units_next [of "unat j" mem]
      by (subst while_option_unfold) (simp add: url_body_def url_more_def Let_def del: of_le_bytes.simps)
  next
    case False
    then have "\<not> (unat j + 1 < length mem \<and> \<not> (mem ! unat j = 0 \<and> mem ! (unat j + 1) = 0))"
      using unat_next [OF less.prems] by (simp add: url_more_def Let_def)
    from url_units_stop [OF this] False less.prems show ?thesis
      by (subst while_option_unfold) simp
  qed
qed

text \<open>
  C32: The scan for the URL always ends, whatever the memory holds (also with no terminator):
  with the characters of the two-byte units from the start up to the first zero unit or the
  end of memory, from any start but the last address of the machine. There, which is where a
  url of \<open>-1\<close> points, the wrapped bound check passes and the access panics. So the loop
  computes what \<open>scan_url\<close> says. The length of memory is that of a slice, below \<open>2 ^ 63\<close>.
\<close>

theorem url_scan_returns:
  assumes "length mem < 2 ^ 63"
  shows "url_loop mem url_value = Some (scan_url mem url_value)
     \<and> url_loop mem url_value =
         Some (if url_value + 1 = 0 \<and> mem \<noteq> [] then Panic
               else Ok (utf8_string (map url_char (url_units (drop (unat url_value) mem)))))"
proof -
  have loop: "url_loop mem url_value =
     Some (if url_value + 1 = 0 \<and> mem \<noteq> [] then Panic
           else Ok (utf8_string (map url_char (url_units (drop (unat url_value) mem)))))"
  proof (cases "url_value + 1 = 0")
    case True
    then have last: "unat url_value = 2 ^ 64 - 1"
      by (simp add: eq_neg_iff_add_eq_0 [symmetric] unsigned_minus_1_eq_mask mask_eq_exp_minus_1)
    then have "\<not> url_more mem (url_value, [])" "\<not> unat url_value < length mem"
      using assms by (simp_all add: url_more_def)
    then show ?thesis
      using True by (subst url_loop_def, subst while_option_unfold) (auto simp: last)
  next
    case False
    from url_loop_runs [OF assms this, of "[]"] obtain i where
      "while_option (url_more mem) (url_body mem) (url_value, [])
         = Some (i, map url_char (url_units (drop (unat url_value) mem)))" "i + 1 \<noteq> 0"
      by auto
    with False unat_next [of i] show ?thesis
      by (simp add: url_loop_def)
  qed
  moreover have "(\<lambda>u. if scalar (unat u) then unat u else 0x3F) = url_char"
    by (simp add: url_char_def fun_eq_iff)
  ultimately show ?thesis
    by (simp add: scan_url_def)
qed

theorem url_scan_returns_witness:
  "url_loop [97, 0, 98, 0, 0, 0] 0 = Some (Ok [97, 98]) \<and> url_loop [97, 0] (- 1) = Some Panic"
  using url_scan_returns [of "[97, 0, 98, 0, 0, 0]" 0] url_scan_returns [of "[97, 0]" "- 1"]
  by (simp add: utf8_string_def url_char_def scalar_def utf8_char_def byte_of_def scan_url_def)

end
