(* ===== verification/Script_Client.thy ===== *)
theory Script_Client
  imports Script_Types
begin

text \<open>
  What surrounds the run of a script: the HTTP client that fetches its input
  (\<open>script-executor/src/https.rs\<close>), and the two checks that \<open>runtime.rs\<close> carries for
  debugging, the hash of a script against the header of its interface description and the
  decoding of a result into the fixed type \<open>Output\<close>. The HTTP library is third-party: how it
  parses the names and values of headers and what it answers are arguments.
\<close>

section \<open>The HTTP client\<close>

text \<open>
  A header map holds one value per name here: the client only uses \<open>insert\<close>, which replaces.
  A request carries its address, its headers and its query, if one was given.
\<close>

record 'n http_request =
  hr_url :: rust_string
  hr_headers :: "'n \<rightharpoonup> bytes"
  hr_query :: "(rust_string \<times> rust_string) list option"

record 'n http_library =
  hl_name :: "rust_string \<Rightarrow> 'n option"
  hl_value :: "rust_string \<Rightarrow> bytes option"
  hl_user_agent :: 'n
  hl_send :: "'n http_request \<Rightarrow> rust_string option option"

text \<open>\<open>hl_send\<close>: no response, or a response with its text, if that can be read.\<close>

fun insert_headers ::
  "'n http_library \<Rightarrow> (rust_string \<times> rust_string) list \<Rightarrow> ('n \<rightharpoonup> bytes)
     \<Rightarrow> (string, 'n \<rightharpoonup> bytes) outcome" where
  "insert_headers H [] headers = Ok headers"
| "insert_headers H ((key, val) # hdrs) headers =
     and_then (expect (hl_name H key)) (\<lambda>name.
     and_then (expect (hl_value H val)) (\<lambda>v. insert_headers H hdrs (headers(name \<mapsto> v))))"

text \<open>The extra headers come in the order in which the hash map yields them.\<close>

definition fetch_with_query ::
  "'n http_library \<Rightarrow> rust_string \<Rightarrow> (rust_string \<times> rust_string) list option
     \<Rightarrow> (rust_string \<times> rust_string) list option \<Rightarrow> (string, rust_string) outcome" where
  "fetch_with_query H url params extra_headers =
     (let headers = [hl_user_agent H \<mapsto> ascii ''MyRustClient/0.1''] in
      and_then (case extra_headers of None \<Rightarrow> Ok headers
                | Some hdrs \<Rightarrow> insert_headers H hdrs headers) (\<lambda>headers.
      and_then (ok_or ''request failed''
        (hl_send H \<lparr>hr_url = url, hr_headers = headers, hr_query = params\<rparr>)) (\<lambda>res.
      ok_or ''unreadable body'' res)))"

text \<open>The call of the script runtime: its error ends the run, without extra headers.\<close>

definition http_net ::
  "'n http_library \<Rightarrow> rust_string \<Rightarrow> (rust_string \<times> rust_string) list \<Rightarrow> rust_string option" where
  "http_net H api_url params =
     (case fetch_with_query H api_url (Some params) None of Ok json \<Rightarrow> Some json | _ \<Rightarrow> None)"

section \<open>The hash of a script\<close>

definition hex_digit :: "nat \<Rightarrow> byte" where
  "hex_digit n = of_nat (if n < 10 then 48 + n else 87 + n)"

definition lower_hex :: "bytes \<Rightarrow> rust_string" where
  "lower_hex bs = concat (map (\<lambda>b. [hex_digit (unat b div 16), hex_digit (unat b mod 16)]) bs)"

text \<open>\<open>None\<close> is a file that cannot be opened or read.\<close>

definition check_header_hash ::
  "(bytes \<Rightarrow> bytes) \<Rightarrow> rust_string \<Rightarrow> bytes option \<Rightarrow> (string, bool) outcome" where
  "check_header_hash sha256 header wasm_file =
     and_then (expect wasm_file) (\<lambda>wasm_content.
     Ok (header = ascii ''0x'' @ lower_hex (sha256 wasm_content)))"

section \<open>The debugging type of a result\<close>

text \<open>A \<open>CryptoValue\<close> is a struct of one \<open>f32\<close>; floats and numbers are their bytes.\<close>

record output_struct =
  greater :: rust_string
  custom :: "bytes list"
  primi_i :: bytes
  pmimi_f :: bytes

definition dec_output :: "bytes \<Rightarrow> (output_struct \<times> bytes) option" where
  "dec_output bs =
     (case dec_vec bs of None \<Rightarrow> None
      | Some (s, r1) \<Rightarrow>
     if \<not> valid_utf8 s then None else
     (case dec_compact r1 of None \<Rightarrow> None
      | Some (n, r2) \<Rightarrow>
     (case read_floats n r2 of None \<Rightarrow> None
      | Some (fs, r3) \<Rightarrow>
     (case read_bytes 4 r3 of None \<Rightarrow> None
      | Some (i, r4) \<Rightarrow>
     (case read_bytes 4 r4 of None \<Rightarrow> None
      | Some (f, r5) \<Rightarrow>
          Some (\<lparr>greater = s, custom = fs, primi_i = i, pmimi_f = f\<rparr>, r5))))))"

definition enc_output :: "output_struct \<Rightarrow> bytes" where
  "enc_output o1 = enc_vec (greater o1) @ enc_compact (length (custom o1)) @ concat (custom o1)
     @ primi_i o1 @ pmimi_f o1"

text \<open>What it prints: the decoded value or a failure; bytes that are left over are ignored.\<close>

definition build_result :: "bytes \<Rightarrow> output_struct option" where
  "build_result val = map_option fst (dec_output (map (\<lambda>x. x AND 0xFF) val))"

section \<open>What the client does\<close>

definition headers_parse :: "'n http_library \<Rightarrow> (rust_string \<times> rust_string) list \<Rightarrow> bool" where
  "headers_parse H hdrs \<longleftrightarrow> list_all (\<lambda>(k, v). hl_name H k \<noteq> None \<and> hl_value H v \<noteq> None) hdrs"

definition parsed_headers :: "'n http_library \<Rightarrow> (rust_string \<times> rust_string) list \<Rightarrow> ('n \<times> bytes) list" where
  "parsed_headers H hdrs = map (\<lambda>(k, v). (the (hl_name H k), the (hl_value H v))) hdrs"

lemma insert_headers_spec:
  "insert_headers H hdrs m =
     (if headers_parse H hdrs then Ok (m ++ map_of (rev (parsed_headers H hdrs))) else Panic)"
proof (induction hdrs arbitrary: m)
  case (Cons e hdrs)
  obtain k v where "e = (k, v)" by (cases e)
  with Cons show ?case
    by (cases "hl_name H k"; cases "hl_value H v")
      (auto simp: headers_parse_def parsed_headers_def expect_def map_add_upds)
qed (simp add: headers_parse_def parsed_headers_def)

text \<open>
  The client panics exactly when an extra header does not parse, before anything is
  sent; whatever the network answers is a value or an error. Otherwise it sends one
  request: the address and the query as given, of headers that parse to the same name the
  last, and its own user agent unless an extra header names one.
\<close>

lemma fetch_with_query_outcome:
  "fetch_with_query H url params (Some hdrs) =
     (if \<not> headers_parse H hdrs then Panic
      else case hl_send H \<lparr>hr_url = url,
          hr_headers = [hl_user_agent H \<mapsto> ascii ''MyRustClient/0.1''] ++ map_of (rev (parsed_headers H hdrs)),
          hr_query = params\<rparr> of
        None \<Rightarrow> Err ''request failed''
      | Some None \<Rightarrow> Err ''unreadable body''
      | Some (Some body) \<Rightarrow> Ok body)
   \<and> fetch_with_query H url params None = fetch_with_query H url params (Some [])
   \<and> fetch_with_query H url params None \<noteq> Panic"
  by (auto simp: fetch_with_query_def insert_headers_spec headers_parse_def parsed_headers_def
      ok_or_def split: option.split)

section \<open>What the checks do\<close>

lemma unat_hex_digit: "n < 16 \<Longrightarrow> unat (hex_digit n) = (if n < 10 then 48 + n else 87 + n)"
  unfolding hex_digit_def by (rule unat_of_nat_small) simp

lemma hex_digit_inject: "a < 16 \<Longrightarrow> b < 16 \<Longrightarrow> hex_digit a = hex_digit b \<Longrightarrow> a = b"
  by (drule arg_cong [where f = unat]) (simp add: unat_hex_digit split: if_splits)

lemma byte_by_halves:
  assumes "hex_digit (unat a div 16) = hex_digit (unat b div 16)"
    and "hex_digit (unat a mod 16) = hex_digit (unat b mod 16)"
  shows "a = (b :: byte)"
proof -
  have "unat a div 16 < 16" "unat b div 16 < 16"
    using unsigned_less [of a, where 'a = nat] unsigned_less [of b, where 'a = nat] by simp_all
  then have "unat a div 16 = unat b div 16" "unat a mod 16 = unat b mod 16"
    using assms by (auto intro: hex_digit_inject)
  then have "unat a = unat b"
    by (metis div_mult_mod_eq)
  then show ?thesis
    by (simp only: word_unat_eq_iff)
qed

lemma lower_hex_length [simp]: "length (lower_hex bs) = 2 * length bs"
  by (induction bs) (auto simp: lower_hex_def)

lemma lower_hex_inject: "lower_hex as = lower_hex bs \<Longrightarrow> as = bs"
proof (induction as arbitrary: bs)
  case Nil
  then have "length (lower_hex bs) = 0" by (metis lower_hex_length list.size(3) mult_0_right)
  then show ?case by simp
next
  case (Cons a as)
  have "length (lower_hex bs) = 2 * length (a # as)"
    using Cons.prems by (metis lower_hex_length)
  then obtain b bs' where bs: "bs = b # bs'" by (cases bs) auto
  have parts: "hex_digit (unat a div 16) = hex_digit (unat b div 16)"
      "hex_digit (unat a mod 16) = hex_digit (unat b mod 16)" "lower_hex as = lower_hex bs'"
    using Cons.prems by (simp_all add: bs lower_hex_def)
  from byte_by_halves [OF parts(1,2)] Cons.IH [OF parts(3)] show ?case
    by (simp only: bs)
qed

text \<open>
  A header accepts the contents of one digest only. The runtime does not ask: the call of
  the check is commented out, and the header of a description changes nothing.
\<close>

lemma header_hash_binds:
  "check_header_hash sha256 h (Some a) = Ok True \<Longrightarrow> check_header_hash sha256 h (Some b) = Ok True
     \<Longrightarrow> sha256 a = sha256 b"
  by (auto simp: check_header_hash_def expect_def intro: lower_hex_inject)

lemma registry_fold_schema:
  "classes_schema (fold add_function fs reg) = classes_schema reg"
  "classes_schema (fold add_variable vs reg) = classes_schema reg"
proof -
  show "classes_schema (fold add_function fs reg) = classes_schema reg"
    by (induction fs arbitrary: reg) (simp_all add: add_function_def)
  show "classes_schema (fold add_variable vs reg) = classes_schema reg"
    by (induction vs arbitrary: reg) (simp_all add: add_variable_def)
qed

lemma class_fold_schema:
  "classes_schema reg = classes_schema reg' \<Longrightarrow>
     classes_schema (fold add_class cs reg) = classes_schema (fold add_class cs reg')"
  by (induction cs arbitrary: reg reg') (simp_all add: add_class_def registry_fold_schema)

lemma runner_by_schema:
  "classes_schema r1 = classes_schema r2 \<Longrightarrow> wasmtime_runner E net bin r1 = wasmtime_runner E net bin r2"
  by (simp only: wasmtime_runner_def decode_output_def)

lemma header_unchecked:
  assumes "\<And>s. parse' s = map_option (\<lambda>root. root\<lparr>rt_headers := h s\<rparr>) (parse s)"
  shows "abi_reader parse' E net abi code = abi_reader parse E net abi code"
proof -
  have "classes_schema (build_registry (root\<lparr>rt_headers := h s\<rparr>)) = classes_schema (build_registry root)" for root s
    unfolding build_registry_def by (simp add: registry_fold_schema) (rule class_fold_schema, simp add: registry_fold_schema)
  then have "wasmtime_runner E net bin (build_registry (root\<lparr>rt_headers := h s\<rparr>))
      = wasmtime_runner E net bin (build_registry root)" for root s bin
    by (rule runner_by_schema)
  then show ?thesis
    by (simp add: abi_reader_def assms ok_or_def split: option.split)
qed

lemma dec_enc_output:
  assumes "valid_utf8 (greater o1)" "fits (greater o1)" "\<forall>x \<in> set (custom o1). length x = 4"
    and "length (custom o1) < 2 ^ 32" "length (primi_i o1) = 4" "length (pmimi_f o1) = 4"
  shows "dec_output (enc_output o1 @ r) = Some (o1, r)"
  using assms vec.dec_enc [of "greater o1"] dec_compact_enc [of "length (custom o1)"]
    read_floats_concat [of "custom o1"]
  by (simp add: dec_output_def enc_output_def read_bytes_def)

lemma and_byte_mask: "x AND 0xFF = (x :: byte)"
proof -
  have "(0xFF :: byte) = - 1" by simp
  then show ?thesis by (simp only: and.right_neutral)
qed

text \<open>
  C19: The debugging type fits the runtime's output: if the interface description declares
  for \<open>Output\<close> a text, an array of a described class, an \<open>i32\<close> and an \<open>f32\<close>, in this order,
  then whatever a script does, the bytes of a successful run decode into that type, and
  encoding the decoded value gives the bytes back.
\<close>

theorem output_struct_roundtrip:
  assumes "wasmtime_runner E net bin reg = Ok out"
    and "classes_schema reg (ascii ''Output'') = Some ps"
    and "map pm_type ps = [ascii ''string'', t, ascii ''i32'', ascii ''f32'']"
    and "array_class (\<lambda>c. classes_schema reg c \<noteq> None) t"
  shows "\<exists>v. build_result out = Some v \<and> enc_output v = out"
proof -
  let ?C = "\<lambda>c. classes_schema reg c \<noteq> None"
  obtain mem base where "decode_output reg mem base = Ok out"
    using assms(1) by (auto simp: wasmtime_runner_def outcome_simps split: wasm_val.split_asm)
      (metis wasm_val.exhaust)
  moreover obtain p1 p2 p3 p4 where ps: "ps = [p1, p2, p3, p4]" "pm_type p1 = ascii ''string''"
      "pm_type p2 = t" "pm_type p3 = ascii ''i32''" "pm_type p4 = ascii ''f32''"
    using assms(3) by (auto simp: map_eq_Cons_conv simp del: ascii_types)
  ultimately obtain o1 o2 o3 o4 off1 off2 off3 off4 where
      f1: "decode_field ?C mem base 0 (ascii ''string'') = Ok (off1, o1)"
    and f2: "decode_field ?C mem base off1 t = Ok (off2, o2)"
    and f3: "decode_field ?C mem base off2 (ascii ''i32'') = Ok (off3, o3)"
    and f4: "decode_field ?C mem base off3 (ascii ''f32'') = Ok (off4, o4)"
    and out: "out = o1 @ o2 @ o3 @ o4"
    using assms(2) by (auto simp: decode_output_def outcome_simps simp del: ascii_types)
  obtain s where s: "o1 = enc_string s" "valid_utf8 s" "length s \<le> 8 * 1024"
    using decode_text_bytes [OF f1] by blast
  obtain vs where vs: "o2 = enc_f32_vec vs" "length vs < 2 ^ 32"
    using decode_array_bytes [OF f2 assms(4)] by blast
  have four: "length o3 = 4" "length o4 = 4"
    using f3 f4 by (auto simp: decode_field_def outcome_simps Let_def)
  let ?v = "\<lparr>greater = s, custom = map (le_bytes 4) vs, primi_i = o3, pmimi_f = o4\<rparr>"
  have enc: "enc_output ?v = out"
    by (simp add: enc_output_def out s(1) vs(1) enc_string_def enc_vec_def enc_f32_vec_def)
  have "dec_output (enc_output ?v @ []) = Some (?v, [])"
    using s vs(2) four by (intro dec_enc_output) (auto simp: fits_def)
  moreover have "map (\<lambda>x :: byte. x AND 0xFF) out = out"
    by (rule map_idI) (rule and_byte_mask)
  ultimately show ?thesis
    using enc by (auto simp: build_result_def)
qed

text \<open>A script that returns an object with an empty text, an empty array and two numbers.\<close>

definition struct_memory :: bytes where
  "struct_memory = [0, 0, 0, 0, 4, 0, 0, 0] @ replicate 19992 0"

definition struct_engine :: wasm_engine where
  "struct_engine = \<lparr>we_imports = (\<lambda>bin. Some []),
     we_instantiate = (\<lambda>bin es. Some \<lparr>wi_memory = Some struct_memory,
        wi_process = Some (\<lambda>mem a b. Some (mem, 16)), wi_url = Some (Val_i32 0)\<rparr>)\<rparr>"

definition struct_registry :: selector_registry where
  "struct_registry = \<lparr>reg_origin = [], reg_functions = Map.empty, reg_variables = Map.empty,
     classes_schema = [[67] \<mapsto> [],
       ascii ''Output'' \<mapsto> [\<lparr>pm_name = [], pm_type = ascii ''string''\<rparr>,
         \<lparr>pm_name = [], pm_type = ascii ''Array<C>''\<rparr>, \<lparr>pm_name = [], pm_type = ascii ''i32''\<rparr>,
         \<lparr>pm_name = [], pm_type = ascii ''f32''\<rparr>]]\<rparr>"

lemma struct_memory_read:
  "8 \<le> unat p \<Longrightarrow> unat p + n \<le> 20000 \<Longrightarrow> mem_read struct_memory p n = Some (replicate n 0)"
proof -
  assume p: "8 \<le> unat p" "unat p + n \<le> 20000"
  then have "drop (unat p) struct_memory = drop (unat p - 8) (replicate 19992 0)"
    by (simp only: struct_memory_def drop_append) simp
  moreover have "length struct_memory = 20000"
    by (simp add: struct_memory_def)
  ultimately show ?thesis
    using p by (simp add: mem_read_def min_def)
qed

lemma struct_text: "read_utf16_string struct_memory 0 1024 = Ok []"
proof -
  let ?raw = "take 2048 struct_memory"
  have "mem_read struct_memory 0 2048 = Some ?raw"
    by (simp add: mem_read_def struct_memory_def)
  moreover have "chunks 2 ?raw = [0, 0] # chunks 2 (drop 2 ?raw)"
    by (subst chunks.simps) (simp add: struct_memory_def)
  ultimately show ?thesis
    by (simp add: read_utf16_string_def from_utf16_def utf8_string_def)
qed

lemma struct_array: "read_array struct_memory 0 = Ok []"
proof -
  have "mem_read struct_memory 0 16 = Some ([0, 0, 0, 0, 4, 0, 0, 0] @ replicate 8 0)"
    by (simp add: mem_read_def struct_memory_def)
  then show ?thesis
    by (simp add: read_array_def) (simp add: numeral_eq_Suc)
qed

lemma struct_engine_run:
  "\<exists>out. wasmtime_runner struct_engine (\<lambda>u q. Some []) bin struct_registry = Ok out"
proof -
  have zero: "read_u32 struct_memory p = Ok 0" if "8 \<le> unat p" "unat p + 4 \<le> 20000" for p
    using struct_memory_read [OF that] by (simp add: read_u32_def) (simp add: numeral_eq_Suc)
  have inner: "Option.bind (strip_prefix (ascii ''Array<C>'') (ascii ''Array<''))
      (\<lambda>s. strip_suffix s (ascii ''>'')) = Some [67]" "starts_with (ascii ''Array<C>'') (ascii ''Array<'')"
    by (simp_all add: strip_prefix_def strip_suffix_def starts_with_def ascii_def)
  let ?C = "\<lambda>c. classes_schema struct_registry c \<noteq> None"
  have f1: "decode_field ?C struct_memory 16 0 (ascii ''string'') = Ok (4, enc_string [])"
    using zero [of 16] struct_text by (simp add: decode_field_def starts_with_def)
  have f2: "decode_field ?C struct_memory 16 4 (ascii ''Array<C>'') = Ok (8, enc_f32_vec [])"
    using zero [of 20] struct_array inner array_type_inner [OF inner(2)]
    by (simp add: decode_field_def struct_registry_def del: ascii_types)
  have f3: "decode_field ?C struct_memory 16 8 (ascii ''i32'') = Ok (12, [0, 0, 0, 0])"
    using struct_memory_read [of 24 4] by (simp add: decode_field_def) (simp add: numeral_eq_Suc)
  have f4: "decode_field ?C struct_memory 16 12 (ascii ''f32'') = Ok (16, [0, 0, 0, 0])"
    using struct_memory_read [of 28 4] by (simp add: decode_field_def) (simp add: numeral_eq_Suc)
  have "\<exists>out. decode_output struct_registry struct_memory 16 = Ok out"
    using f1 f2 f3 f4 by (simp add: decode_output_def struct_registry_def del: ascii_types)
  moreover have "mem_read struct_memory 0 10240 = Some (take 10240 struct_memory)"
    by (simp add: mem_read_def struct_memory_def)
  moreover have "url_units struct_memory = []"
    by (simp add: struct_memory_def)
  ultimately show ?thesis
    by (simp add: wasmtime_runner_def struct_engine_def scan_url_def mem_write_def utf8_string_def)
qed

theorem output_struct_roundtrip_witness:
  "\<exists>out v. wasmtime_runner struct_engine (\<lambda>u q. Some []) [] struct_registry = Ok out
     \<and> build_result out = Some v \<and> enc_output v = out"
proof -
  obtain out where run: "wasmtime_runner struct_engine (\<lambda>u q. Some []) [] struct_registry = Ok out"
    using struct_engine_run by blast
  let ?ps = "the (classes_schema struct_registry (ascii ''Output''))"
  have "classes_schema struct_registry (ascii ''Output'') = Some ?ps"
      "map pm_type ?ps = [ascii ''string'', ascii ''Array<C>'', ascii ''i32'', ascii ''f32'']"
      "array_class (\<lambda>c. classes_schema struct_registry c \<noteq> None) (ascii ''Array<C>'')"
    by (simp_all add: struct_registry_def array_class_def starts_with_def strip_suffix_def strip_prefix_def
        ascii_def)
  from output_struct_roundtrip [OF run this] run show ?thesis by blast
qed

end
