(* ===== verification/Chain_Extension.thy ===== *)
theory Chain_Extension
  imports Wasmstore_Props
begin

text \<open>
  \<open>chain-extensions/src/lib.rs\<close>: the chain extension by which a smart contract reads a script
  of the wasmstore pallet. The contract environment is third-party: \<open>ext_input\<close> is what
  \<open>read_as\<close> decodes from the contract's buffer (with the bound of its type), and writing
  to the output buffer can be refused.
\<close>

datatype ext_error = Ext_other string | Ext_decoding_failed | Ext_output_too_small

record ext_env =
  ext_func_id :: u16
  ext_input :: "bytes option"
  ext_output_cap :: nat

text \<open>The output buffer and the return value.\<close>

definition ext_call ::
  "ws_config \<Rightarrow> (script_detail \<Rightarrow> bytes) \<Rightarrow> ws_state \<Rightarrow> ext_env \<Rightarrow> (ext_error, bytes \<times> u32) outcome" where
  "ext_call cfg enc_script s env =
     (if ext_func_id env = 0 then
        and_then (ok_or Ext_decoding_failed
          (Option.bind (ext_input env) (bounded (max_script_key_len cfg)))) (\<lambda>key.
        and_then (ok_or (Ext_other ''KeyTooLong'') (bounded (max_script_key_len cfg) key)) (\<lambda>bounded_key.
        case scripts s bounded_key of
          Some script \<Rightarrow>
            let encoded = enc_script script in
            if length encoded \<le> ext_output_cap env then Ok (encoded, 0)
            else Err Ext_output_too_small
        | None \<Rightarrow> Err (Ext_other ''ScriptNotFound'')))
      else Err (Ext_other ''Unimplemented''))"

text \<open>
  A contract reads exactly what the pallet stores: for the key of an uploaded script the
  extension returns the encoding of the stored script with code 0 (if the buffer has room),
  an unknown key is an error, every other function id is unimplemented, and no call panics
  or changes the storage. The second length check cannot fail.
\<close>

lemma ext_call_spec:
  "ext_call cfg enc_script s env =
     (if ext_func_id env \<noteq> 0 then Err (Ext_other ''Unimplemented'')
      else case ext_input env of
        None \<Rightarrow> Err Ext_decoding_failed
      | Some key \<Rightarrow>
          if unat (max_script_key_len cfg) < length key then Err Ext_decoding_failed
          else (case scripts s key of
              None \<Rightarrow> Err (Ext_other ''ScriptNotFound'')
            | Some d \<Rightarrow> if length (enc_script d) \<le> ext_output_cap env then Ok (enc_script d, 0)
                        else Err Ext_output_too_small))"
  by (auto simp: ext_call_def bounded_def Let_def split: option.splits)

text \<open>
  A successful upload is visible to contracts: after \<open>upload_wasm\<close>, the extension called
  with the key of the prefixed name returns the encoding of the uploaded script.
\<close>

lemma ext_call_after_upload:
  assumes "upload_wasm cfg X (Signed who) name ty code abi s = Ok s'"
    and "ext_func_id env = 0" and "ext_input env = Some (script_key X (prefixed_name ty name))"
    and "length (enc_script (uploaded X who (prefixed_name ty name) ty code abi s)) \<le> ext_output_cap env"
  shows "ext_call cfg enc_script s' env
    = Ok (enc_script (uploaded X who (prefixed_name ty name) ty code abi s), 0)"
  using assms by (auto simp: ext_call_def upload_wasm_Ok_iff upload_sizes_ok_def bounded_def)

end
