(* ===== verification/Offchain_Utils.thy ===== *)
theory Offchain_Utils
  imports Offchain_Db
begin

text \<open>
  The HTTP helper of \<open>offchain-utils/src/fetcher.rs\<close>. The network is third-party: it is
  the function \<open>net\<close> from the request that is sent to what comes back.
\<close>

section \<open>The network\<close>

datatype http_error = DeadlineReached | IoError | UnknownError

text \<open>
  What sending a request and waiting for it can end in: \<open>send()\<close> fails; waiting ends
  with an error; the deadline passes while the request is still pending; a response.
\<close>

datatype http_reply = SendFailed | WaitFailed http_error | StillPending | Replied u16 bytes

record http_call =
  call_url :: rust_string
  call_headers :: "(rust_string \<times> rust_string) list"
  call_deadline :: u64

section \<open>HttpRequest\<close>

record http_request =
  req_url :: rust_string
  req_headers :: "(rust_string \<times> rust_string) list"

definition new_request :: "rust_string \<Rightarrow> http_request" where
  "new_request url = \<lparr>req_url = url, req_headers = []\<rparr>"

definition add_header :: "http_request \<Rightarrow> rust_string \<Rightarrow> rust_string \<Rightarrow> http_request" where
  "add_header r key value = r\<lparr>req_headers := req_headers r @ [(key, value)]\<rparr>"

section \<open>OffchainFetcher\<close>

text \<open>
  \<open>fetch\<close> builds the call header by header, with a deadline two seconds after \<open>now\<close>.
\<close>

definition build_call :: "u64 \<Rightarrow> http_request \<Rightarrow> http_call" where
  "build_call now r =
     foldl (\<lambda>c (k, v). c\<lparr>call_headers := call_headers c @ [(k, v)]\<rparr>)
       \<lparr>call_url = req_url r, call_headers = [], call_deadline = saturating_add now 2000\<rparr>
       (req_headers r)"

definition fetch ::
  "(http_call \<Rightarrow> http_reply) \<Rightarrow> u64 \<Rightarrow> http_request \<Rightarrow> (string, bytes) outcome" where
  "fetch net now r =
     (case net (build_call now r) of
        SendFailed \<Rightarrow> Err ''Failed to send HTTP request''
      | WaitFailed e \<Rightarrow> Err ''No response received''
      | StillPending \<Rightarrow> Err ''No response received''
      | Replied code body \<Rightarrow>
          if code \<noteq> 200 then Err ''Non-200 response code received'' else Ok body)"

definition fetch_string ::
  "(http_call \<Rightarrow> http_reply) \<Rightarrow> u64 \<Rightarrow> http_request \<Rightarrow> (string, rust_string) outcome" where
  "fetch_string net now r =
     and_then (fetch net now r)
       (\<lambda>b. ok_or ''Failed to parse response as UTF-8'' (from_utf8 b))"

lemma build_call_fold:
  "foldl (\<lambda>c (k, v). c\<lparr>call_headers := call_headers c @ [(k, v)]\<rparr>) c hs
     = c\<lparr>call_headers := call_headers c @ hs\<rparr>"
  by (induction hs arbitrary: c) auto

lemma build_call_eq:
  "build_call now r =
     \<lparr>call_url = req_url r, call_headers = req_headers r, call_deadline = saturating_add now 2000\<rparr>"
  by (simp add: build_call_def build_call_fold)

lemma fetch_Ok_iff:
  "fetch net now r = Ok body \<longleftrightarrow> net (build_call now r) = Replied 200 body"
  by (auto simp: fetch_def split: http_reply.splits if_splits)

lemma fetch_no_panic [simp]: "fetch net now r \<noteq> Panic"
  by (auto simp: fetch_def split: http_reply.splits)

lemma fetch_string_Ok_iff:
  "fetch_string net now r = Ok s \<longleftrightarrow>
     net (build_call now r) = Replied 200 s \<and> valid_utf8 s"
  by (auto simp: fetch_string_def fetch_Ok_iff outcome_simps)

lemma fetch_string_no_panic [simp]: "fetch_string net now r \<noteq> Panic"
  by (auto simp: fetch_string_def outcome_simps)

end
