(* ===== verification/Ocw_Worker.thy ===== *)
theory Ocw_Worker
  imports Ocw_Props Offchain_Utils Text_Encoding
begin

text \<open>
  The off-chain helpers of \<open>pallets/ocw-pallet/src/lib.rs\<close>: the choice of a transaction
  type under the grace-period lock, the HTTP fetch, the store of the response under a
  formatted key, the extraction of the price and the four ways to send it. The network, the
  JSON parser, the hash and its \<open>Debug\<close> form, and the SCALE form of a block number are
  arguments. The \<open>offchain_worker\<close> hook of the pallet is commented out, so no code calls
  these helpers at this commit.
\<close>

section \<open>Choosing a transaction type\<close>

datatype transaction_type = Tx_signed | Tx_unsigned_for_any | Tx_unsigned_for_all | Tx_raw | Tx_none

definition last_send_key :: bytes where
  "last_send_key = ascii ''ocw-pallet::last_send''"

text \<open>
  \<open>StorageValueRef::mutate\<close>: read and decode, apply the closure, write with compare-and-set
  against what was read. \<open>seen\<close> is the raw value at the read and \<open>db\<close> the database at the
  write; they differ when another worker writes in between. A value that does not decode is
  treated as absent.
\<close>

definition ocw_do_choose_transaction_type ::
  "(block_number \<Rightarrow> bytes) \<Rightarrow> (bytes \<Rightarrow> block_number option) \<Rightarrow> ocw_config
     \<Rightarrow> block_number \<Rightarrow> bytes option \<Rightarrow> offchain_db \<Rightarrow> transaction_type \<times> offchain_db" where
  "ocw_do_choose_transaction_type enc dec cfg block_number seen db =
     (let recently_sent =
        (case Option.bind seen dec of
           Some block \<Rightarrow> block_number < block + grace_period cfg
         | None \<Rightarrow> False)
      in if recently_sent then (Tx_none, db)
         else (case db_compare_and_set last_send_key seen (enc block_number) db of
             (True, db') \<Rightarrow>
               (let transaction_type = block_number mod 3 in
                if transaction_type = 0 then (Tx_signed, db')
                else if transaction_type = 1 then (Tx_unsigned_for_any, db')
                else if transaction_type = 2 then (Tx_unsigned_for_all, db')
                else (Tx_raw, db'))
           | (False, db') \<Rightarrow> (Tx_none, db')))"

lemma mod_three: "(n :: u32) mod 3 = 0 \<or> n mod 3 = 1 \<or> n mod 3 = 2"
proof -
  have "unat (n mod 3) < 3" by (simp add: unat_mod)
  then have "unat (n mod 3) = 0 \<or> unat (n mod 3) = 1 \<or> unat (n mod 3) = 2" by linarith
  then show ?thesis by (auto simp: word_unat_eq_iff)
qed

lemma choose_cases:
  "fst (ocw_do_choose_transaction_type enc dec cfg n seen db) \<noteq> Tx_none \<longleftrightarrow>
     \<not> (case Option.bind seen dec of Some b \<Rightarrow> n < b + grace_period cfg | None \<Rightarrow> False)
     \<and> db_get db last_send_key = seen"
  using mod_three [of n]
  by (auto simp: ocw_do_choose_transaction_type_def Let_def odb.cas_eq)

lemma choose_db:
  "fst (ocw_do_choose_transaction_type enc dec cfg n seen db) \<noteq> Tx_none \<Longrightarrow>
     snd (ocw_do_choose_transaction_type enc dec cfg n seen db) = db_set last_send_key (enc n) db"
  using mod_three [of n] choose_cases [of enc dec cfg n seen db]
  by (auto simp: ocw_do_choose_transaction_type_def Let_def odb.cas_eq)

text \<open>
  The grace-period lock admits one sender: of two workers that read the same value
  (the normal case of two concurrent runs), whatever blocks they run at, at most one is
  told to send, as long as the first one's block is a new value; and the raw transaction
  type is never chosen, since a remainder modulo three is 0, 1 or 2.
\<close>

lemma choose_one_sender:
  assumes "Some (enc n) \<noteq> seen"
    and "ocw_do_choose_transaction_type enc dec cfg n seen db = (t1, db1)"
    and "ocw_do_choose_transaction_type enc dec cfg n' seen db1 = (t2, db2)"
  shows "(t1 = Tx_none \<or> t2 = Tx_none) \<and> t1 \<noteq> Tx_raw \<and> t2 \<noteq> Tx_raw"
proof -
  have raw: "fst (ocw_do_choose_transaction_type enc dec cfg m sn d) \<noteq> Tx_raw" for m sn d
    using mod_three [of m]
    by (auto simp: ocw_do_choose_transaction_type_def Let_def split: prod.split bool.split)
  have "t2 = Tx_none" if "t1 \<noteq> Tx_none"
  proof -
    from that choose_db [of enc dec cfg n seen db] assms(2)
    have "db_get db1 last_send_key = Some (enc n)" by simp
    with assms(1,3) choose_cases [of enc dec cfg n' seen db1] show ?thesis by auto
  qed
  then show ?thesis
    using raw [of n seen db] raw [of n' seen db1] assms(2,3) by auto
qed

section \<open>Fetching\<close>

definition ocw_call_of :: "u64 \<Rightarrow> rust_string \<Rightarrow> u64 \<Rightarrow> http_call" where
  "ocw_call_of now url time_to_live =
     \<lparr>call_url = url, call_headers = [], call_deadline = saturating_add now time_to_live\<rparr>"

definition response_from_http_url ::
  "(http_call \<Rightarrow> http_reply) \<Rightarrow> u64 \<Rightarrow> rust_string \<Rightarrow> u64 \<Rightarrow> (http_error, bytes) outcome" where
  "response_from_http_url net now url time_to_live =
     (case net (ocw_call_of now url time_to_live) of
        SendFailed \<Rightarrow> Err IoError
      | StillPending \<Rightarrow> Err DeadlineReached
      | WaitFailed e \<Rightarrow> Err e
      | Replied code body \<Rightarrow> if code \<noteq> 200 then Err UnknownError else Ok body)"

section \<open>The key of a stored response\<close>

definition catfact_key :: "(h256 \<Rightarrow> bytes) \<Rightarrow> u64 \<Rightarrow> block_number \<Rightarrow> h256 \<Rightarrow> bytes" where
  "catfact_key debug_hash time_stamp block_height h =
     ascii ''ocw-pallet:catfact:'' @ dec_digits (unat time_stamp) @ ascii '':'' @
     dec_digits (unat block_height) @ ascii '':'' @ debug_hash h"

lemma catfact_key_length:
  assumes "length (debug_hash h) \<le> 66"
  shows "length (catfact_key debug_hash t b h) \<le> 256"
proof -
  have "unat t < 10 ^ Suc 19" "unat b < 10 ^ Suc 9"
    using unsigned_less [of t, where 'a = nat] unsigned_less [of b, where 'a = nat] by simp_all
  then have "length (dec_digits (unat t)) \<le> Suc 19" "length (dec_digits (unat b)) \<le> Suc 9"
    by (blast intro: dec_digits_length)+
  with assms show ?thesis
    by (simp add: catfact_key_def ascii_def)
qed

section \<open>Parsing\<close>

datatype json =
    J_object "(string \<times> json) list"
  | J_array "json list"
  | J_string string
  | J_number int
  | J_bool bool
  | J_null

text \<open>A number is represented by its integer part, the only field the code reads.\<close>

definition parse_data :: "(rust_string \<Rightarrow> json option) \<Rightarrow> rust_string \<Rightarrow> u32 option" where
  "parse_data parse_json price_str =
     (case parse_json price_str of
        Some (J_object obj) \<Rightarrow>
          (case find (\<lambda>(k, _). k = ''length'') obj of
             Some (_, J_number integer) \<Rightarrow> Some (word_of_int integer)
           | _ \<Rightarrow> None)
      | _ \<Rightarrow> None)"

section \<open>fetch_data\<close>

record ocw_env =
  env_net :: "http_call \<Rightarrow> http_reply"
  env_now :: u64
  env_hash :: "bytes \<Rightarrow> h256"
  env_debug_hash :: "h256 \<Rightarrow> bytes"
  env_parse_json :: "rust_string \<Rightarrow> json option"

text \<open>The database of each kind of storage; what a key holds before is only logged.\<close>

datatype storage_kind = Persistent_storage | Local_storage

definition build_local_storage_for_http_response ::
  "storage_kind \<Rightarrow> bytes \<Rightarrow> bytes \<Rightarrow> (storage_kind \<Rightarrow> offchain_db) \<Rightarrow> storage_kind \<Rightarrow> offchain_db" where
  "build_local_storage_for_http_response storage_type key data dbs =
     (case storage_type of
        Persistent_storage \<Rightarrow> dbs(Persistent_storage := db_set key data (dbs Persistent_storage))
      | Local_storage \<Rightarrow> dbs(Local_storage := db_set key data (dbs Local_storage)))"

definition to_bounded_vec :: "u32 \<Rightarrow> bytes \<Rightarrow> (string, bytes) outcome" where
  "to_bounded_vec n input = ok_or ''Input data is too large'' (bounded n input)"

text \<open>Fetching only touches the persistent storage, the one that the job hand-over shares.\<close>

definition store_response :: "bytes \<Rightarrow> bytes \<Rightarrow> offchain_db \<Rightarrow> offchain_db" where
  "store_response key data db =
     build_local_storage_for_http_response Persistent_storage key data
       (\<lambda>k. if k = Persistent_storage then db else Map.empty) Persistent_storage"

lemma store_response [simp]: "store_response key data db = db_set key data db"
  by (simp add: store_response_def build_local_storage_for_http_response_def)

definition fetch_data ::
  "ocw_env \<Rightarrow> rust_string \<Rightarrow> 'b ocw_state \<Rightarrow> offchain_db
     \<Rightarrow> (http_error, u32) outcome \<times> 'b ocw_state \<times> offchain_db" where
  "fetch_data E url s db =
     (case response_from_http_url (env_net E) (env_now E) url 5000 of
        Err e \<Rightarrow> (Err e, s, db)
      | Panic \<Rightarrow> (Panic, s, db)
      | Ok body \<Rightarrow>
     (case from_utf8 body of
        None \<Rightarrow> (Err UnknownError, s, db)
      | Some body_str \<Rightarrow>
     (let key = catfact_key (env_debug_hash E) (env_now E) (ocw_block s) (env_hash E body) in
      case bounded 256 key of
        None \<Rightarrow> (Panic, s, db)
      | Some key_as_bytes \<Rightarrow>
     (let (s', db') =
        (if hash_store s key_as_bytes = None
         then (s\<lparr>hash_store := (hash_store s)(key_as_bytes \<mapsto> env_hash E body)\<rparr>,
               store_response key body db)
         else (s, db))
      in (ok_or UnknownError (parse_data (env_parse_json E) body_str), s', db')))))"

definition catfact_url :: rust_string where
  "catfact_url = ascii ''https://catfact.ninja/fact''"

text \<open>
  Fetching never panics when the hash prints as at most 66 characters: the formatted
  key then fits its 256-byte bound for every time and block number, so the \<open>expect\<close> on it
  cannot fail.
\<close>

lemma fetch_data_never_panics:
  assumes "\<And>h. length (env_debug_hash E h) \<le> 66"
  shows "fst (fetch_data E url s db) \<noteq> Panic"
proof -
  have "\<not> 256 < length (catfact_key (env_debug_hash E) t b h)" for t b h
    using catfact_key_length [OF assms] by (simp add: not_less)
  moreover have "response_from_http_url (env_net E) (env_now E) url 5000 \<noteq> Panic"
    by (auto simp: response_from_http_url_def split: http_reply.splits)
  ultimately show ?thesis
    by (auto simp: fetch_data_def Let_def split: outcome.splits option.splits prod.splits)
qed

text \<open>
  What a successful fetch leaves behind: the body is UTF-8, its hash is stored for the
  formatted key, and the price is the response's \<open>length\<close> number truncated to 32 bits, so
  lengths that differ by \<open>2 ^ 32\<close> give the same price.
\<close>

lemma fetch_data_result:
  assumes "fetch_data E url s db = (Ok price, s', db')"
  shows "\<exists>body obj k n. env_net E (ocw_call_of (env_now E) url 5000) = Replied 200 body
     \<and> valid_utf8 body \<and> env_parse_json E body = Some (J_object obj)
     \<and> find (\<lambda>(k, _). k = ''length'') obj = Some (k, J_number n) \<and> uint price = n mod 2 ^ 32
     \<and> hash_store s' (catfact_key (env_debug_hash E) (env_now E) (ocw_block s) (env_hash E body)) \<noteq> None"
proof -
  from assms obtain body where body: "response_from_http_url (env_net E) (env_now E) url 5000 = Ok body"
    and utf: "valid_utf8 body"
    and parse: "parse_data (env_parse_json E) body = Some price"
    and stored: "hash_store s' (catfact_key (env_debug_hash E) (env_now E) (ocw_block s) (env_hash E body)) \<noteq> None"
    by (auto simp: fetch_data_def Let_def split: outcome.splits option.splits if_splits)
  have "env_net E (ocw_call_of (env_now E) url 5000) = Replied 200 body"
    using body by (auto simp: response_from_http_url_def split: http_reply.splits if_splits)
  moreover obtain obj k n where "env_parse_json E body = Some (J_object obj)"
      "find (\<lambda>(k, _). k = ''length'') obj = Some (k, J_number n)" "price = word_of_int n"
    using parse by (auto simp: parse_data_def split: option.splits json.splits prod.splits)
  moreover have "uint price = n mod 2 ^ 32"
    using \<open>price = word_of_int n\<close> by (simp add: uint_word_of_int)
  ultimately show ?thesis
    using utf stored by blast
qed

section \<open>Sending\<close>

datatype ocw_submission =
    Sub_signed pubkey u32
  | Sub_unsigned block_number u32
  | Sub_payload price_payload

text \<open>
  \<open>accounts\<close> are the keys of the local keystore that can sign; \<open>accept\<close> is the pool.
\<close>

definition submit_all ::
  "(ocw_submission \<Rightarrow> bool) \<Rightarrow> ocw_submission list \<Rightarrow> (ocw_submission \<times> bool) list" where
  "submit_all accept subs = map (\<lambda>x. (x, accept x)) subs"

definition fetch_price :: "ocw_env \<Rightarrow> 'b ocw_state \<Rightarrow> offchain_db
     \<Rightarrow> (string, u32) outcome \<times> 'b ocw_state \<times> offchain_db" where
  "fetch_price E s db =
     (case fetch_data E catfact_url s db of
        (Ok price, r) \<Rightarrow> (Ok price, r)
      | (Err e, r) \<Rightarrow> (Err ''Failed to fetch price'', r)
      | (Panic, r) \<Rightarrow> (Panic, r))"

definition ocw_do_fetch_price_and_send_signed ::
  "ocw_env \<Rightarrow> pubkey list \<Rightarrow> (ocw_submission \<Rightarrow> bool) \<Rightarrow> 'b ocw_state \<Rightarrow> offchain_db
     \<Rightarrow> (string, ocw_submission list) outcome" where
  "ocw_do_fetch_price_and_send_signed E accounts accept s db =
     (if accounts = [] then
        Err ''No local accounts available. Consider adding one via `author_insertKey` RPC.''
      else and_then (fst (fetch_price E s db)) (\<lambda>price.
        Ok (map fst (filter snd (submit_all accept (map (\<lambda>a. Sub_signed a price) accounts))))))"

definition too_early :: "block_number \<Rightarrow> 'b ocw_state \<Rightarrow> bool" where
  "too_early block s \<longleftrightarrow> next_unsigned_at s > block"

definition ocw_do_fetch_price_and_send_raw_unsigned ::
  "ocw_env \<Rightarrow> (ocw_submission \<Rightarrow> bool) \<Rightarrow> block_number \<Rightarrow> 'b ocw_state \<Rightarrow> offchain_db
     \<Rightarrow> (string, ocw_submission list) outcome" where
  "ocw_do_fetch_price_and_send_raw_unsigned E accept block s db =
     (if too_early block s then Err ''Too early to send unsigned transaction''
      else and_then (fst (fetch_price E s db)) (\<lambda>price.
        if accept (Sub_unsigned block price) then Ok [Sub_unsigned block price]
        else Err ''Unable to submit unsigned transaction.''))"

definition payload_for :: "block_number \<Rightarrow> u32 \<Rightarrow> pubkey \<Rightarrow> ocw_submission" where
  "payload_for block price a =
     Sub_payload \<lparr>pp_block_number = block, pp_price = price, pp_public = a\<rparr>"

definition ocw_do_fetch_price_and_send_unsigned_for_any_account ::
  "ocw_env \<Rightarrow> pubkey list \<Rightarrow> (ocw_submission \<Rightarrow> bool) \<Rightarrow> block_number \<Rightarrow> 'b ocw_state \<Rightarrow> offchain_db
     \<Rightarrow> (string, ocw_submission list) outcome" where
  "ocw_do_fetch_price_and_send_unsigned_for_any_account E accounts accept block s db =
     (if too_early block s then Err ''Too early to send unsigned transaction''
      else and_then (fst (fetch_price E s db)) (\<lambda>price.
        case accounts of
          [] \<Rightarrow> Err ''No local accounts accounts available.''
        | a # _ \<Rightarrow>
            if accept (payload_for block price a) then Ok [payload_for block price a]
            else Err ''Unable to submit transaction''))"

definition ocw_do_fetch_price_and_send_unsigned_for_all_accounts ::
  "ocw_env \<Rightarrow> pubkey list \<Rightarrow> (ocw_submission \<Rightarrow> bool) \<Rightarrow> block_number \<Rightarrow> 'b ocw_state \<Rightarrow> offchain_db
     \<Rightarrow> (string, ocw_submission list) outcome" where
  "ocw_do_fetch_price_and_send_unsigned_for_all_accounts E accounts accept block s db =
     (if too_early block s then Err ''Too early to send unsigned transaction''
      else and_then (fst (fetch_price E s db)) (\<lambda>price.
        let transaction_results = submit_all accept (map (payload_for block price) accounts) in
        if \<exists>r \<in> set transaction_results. \<not> snd r then Err ''Unable to submit transaction''
        else Ok (map fst transaction_results)))"

definition fetch_data_and_store_hash ::
  "ocw_env \<Rightarrow> block_number \<Rightarrow> 'b ocw_state \<Rightarrow> offchain_db
     \<Rightarrow> (string, unit) outcome \<times> 'b ocw_state \<times> offchain_db" where
  "fetch_data_and_store_hash E block s db =
     (if too_early block s then (Err ''Too early to send unsigned transaction'', s, db)
      else (case fetch_price E s db of
          (Ok price, r) \<Rightarrow> (Ok (), r)
        | (Err e, r) \<Rightarrow> (Err e, r)
        | (Panic, r) \<Rightarrow> (Panic, r)))"

text \<open>
  What the worker sends passes the runtime's own validation: an unsigned price that the
  raw helper submits for the current block is accepted by \<open>validate_unsigned\<close> in the state
  the worker read.
\<close>

lemma raw_unsigned_is_valid:
  assumes "ocw_do_fetch_price_and_send_raw_unsigned E accept (ocw_block s) s db = Ok subs"
  shows "\<exists>price v. subs = [Sub_unsigned (ocw_block s) price]
     \<and> ocw_validate_unsigned verify cfg (Submit_price_unsigned (ocw_block s) price) s = Ok v"
proof -
  from assms obtain price where "\<not> too_early (ocw_block s) s"
      "subs = [Sub_unsigned (ocw_block s) price]"
    by (auto simp: ocw_do_fetch_price_and_send_raw_unsigned_def and_then_Ok split: if_splits)
  then show ?thesis
    by (simp add: too_early_def validate_transaction_parameters_def Let_def)
qed
end
