(* ===== verification/Node_Service.thy ===== *)
theory Node_Service
  imports Job_Handover
begin

text \<open>
  The start of a node (\<open>node/src/service.rs\<close>): what \<open>new_partial\<close>, \<open>start_consensus\<close> and
  \<open>start_parachain_node\<close> start, in which order and under which conditions. Every call into
  the Polkadot SDK is a field of the record \<open>sdk\<close> that says how it ends. What is started
  before a later call fails has been started, so a start returns its outcome and the list of
  what it started.
\<close>

section \<open>Configuration, calls and effects\<close>

datatype service_error = Sdk_error string | Application_error string

datatype heap_strategy = Default_heap | Static_heap u32

datatype da_profile = Da_collator | Da_full_node

record node_config =
  nc_authority :: bool
  nc_offchain_worker :: bool
  nc_telemetry_endpoints :: "string list option"
  nc_default_heap_pages :: "u64 option"

record aura_params =
  ap_para_id :: u32
  ap_slot_secs :: nat
  ap_authoring_millis :: nat
  ap_collator_key :: pubkey

datatype start_event =
    Spawned string
  | Service_tasks
  | Hardware_warning
  | Relay_tasks u32 da_profile nat
  | Aura aura_params
  | Executor offchain_db pubkey
  | Network_started

text \<open>\<open>sdk_relay\<close> gives the collator key, which the SDK makes for collators only.\<close>

record 'hw sdk =
  sdk_prepare :: "node_config \<Rightarrow> node_config"
  sdk_telemetry_worker :: "string list \<Rightarrow> (string, unit) outcome"
  sdk_full_parts :: "heap_strategy \<Rightarrow> (string, unit) outcome"
  sdk_relay :: "(string, pubkey option) outcome"
  sdk_network :: "u32 \<Rightarrow> (string, unit) outcome"
  sdk_spawn_tasks :: "(string, unit) outcome"
  sdk_hardware_ok :: "'hw \<Rightarrow> bool"
  sdk_overseer :: "(string, unit) outcome"
  sdk_relay_tasks :: "(string, unit) outcome"
  sdk_offchain_storage :: "offchain_db option"
  sdk_babe_keys :: "pubkey list"
  sdk_raw :: "pubkey \<Rightarrow> bytes"

type_synonym 'a start = "(service_error, 'a) outcome \<times> start_event list"

definition started :: "'a \<Rightarrow> 'v list \<Rightarrow> ('e, 'a) outcome \<times> 'v list" where
  "started a evs = (Ok a, evs)"

definition followed ::
  "('e, 'a) outcome \<times> 'v list \<Rightarrow> ('a \<Rightarrow> ('e, 'b) outcome \<times> 'v list) \<Rightarrow> ('e, 'b) outcome \<times> 'v list" where
  "followed m f =
     (case fst m of
        Ok a \<Rightarrow> (fst (f a), snd m @ snd (f a))
      | Err e \<Rightarrow> (Err e, snd m)
      | Panic \<Rightarrow> (Panic, snd m))"

text \<open>A call into the SDK: what it starts when it succeeds, and how its error is wrapped.\<close>

definition sdk_call ::
  "(string \<Rightarrow> service_error) \<Rightarrow> (string, 'a) outcome \<Rightarrow> start_event list \<Rightarrow> 'a start" where
  "sdk_call wrap r evs =
     (case r of Ok a \<Rightarrow> (Ok a, evs) | Err e \<Rightarrow> (Err (wrap e), []) | Panic \<Rightarrow> (Panic, []))"

section \<open>The start\<close>

definition heap_pages :: "node_config \<Rightarrow> heap_strategy" where
  "heap_pages config =
     (case nc_default_heap_pages config of None \<Rightarrow> Default_heap | Some h \<Rightarrow> Static_heap (ucast h))"

text \<open>Whether there is telemetry: some endpoints are configured and the list is not empty.\<close>

definition telemetry_endpoints :: "node_config \<Rightarrow> string list option" where
  "telemetry_endpoints config =
     (case nc_telemetry_endpoints config of
        None \<Rightarrow> None | Some x \<Rightarrow> if x = [] then None else Some x)"

definition new_partial :: "'hw sdk \<Rightarrow> node_config \<Rightarrow> bool start" where
  "new_partial sdk config =
     followed (case telemetry_endpoints config of
         None \<Rightarrow> started False []
       | Some endpoints \<Rightarrow> followed (sdk_call Sdk_error (sdk_telemetry_worker sdk endpoints) [])
           (\<lambda>_. started True [])) (\<lambda>telemetry.
     followed (sdk_call Sdk_error (sdk_full_parts sdk (heap_pages config)) []) (\<lambda>_.
     started telemetry (if telemetry then [Spawned ''telemetry''] else [])))"

definition start_consensus :: "u32 \<Rightarrow> nat \<Rightarrow> pubkey \<Rightarrow> unit start" where
  "start_consensus para_id relay_chain_slot_duration collator_key =
     started () [Aura \<lparr>ap_para_id = para_id, ap_slot_secs = relay_chain_slot_duration,
       ap_authoring_millis = 2000, ap_collator_key = collator_key\<rparr>]"

definition start_executor :: "'hw sdk \<Rightarrow> unit start" where
  "start_executor sdk =
     (case run_executor (sdk_raw sdk) (sdk_babe_keys sdk) (sdk_offchain_storage sdk) of
        Ok (db, pk) \<Rightarrow> started () [Executor db pk]
      | Err e \<Rightarrow> (Panic, [])
      | Panic \<Rightarrow> (Panic, []))"

text \<open>The report on the benchmark of the hardware, when there is one.\<close>

definition report_hardware :: "'hw sdk \<Rightarrow> bool \<Rightarrow> bool \<Rightarrow> 'hw option \<Rightarrow> unit start" where
  "report_hardware sdk validator telemetry hwbench =
     (case hwbench of
        None \<Rightarrow> started () []
      | Some hw \<Rightarrow> started ()
          ((if \<not> sdk_hardware_ok sdk hw \<and> validator then [Hardware_warning] else [])
           @ (if telemetry then [Spawned ''telemetry_hwbench''] else [])))"

text \<open>
  The last part of a start: the tasks that follow the relay chain, block authoring on a
  collator, the executor, and the network.
\<close>

definition start_on_relay_chain :: "'hw sdk \<Rightarrow> bool \<Rightarrow> u32 \<Rightarrow> pubkey option \<Rightarrow> unit start" where
  "start_on_relay_chain sdk validator para_id collator_key =
     (let relay_chain_slot_duration = 6 in
      followed (sdk_call Application_error (sdk_overseer sdk) []) (\<lambda>_.
      followed (sdk_call Sdk_error (sdk_relay_tasks sdk)
         [Relay_tasks para_id (if validator then Da_collator else Da_full_node) relay_chain_slot_duration]) (\<lambda>_.
      followed (if validator then
           (case collator_key of
              None \<Rightarrow> (Panic, [])
            | Some key \<Rightarrow> start_consensus para_id relay_chain_slot_duration key)
         else started () []) (\<lambda>_.
      followed (start_executor sdk) (\<lambda>_.
      started () [Network_started])))))"

definition start_parachain_node :: "'hw sdk \<Rightarrow> node_config \<Rightarrow> u32 \<Rightarrow> 'hw option \<Rightarrow> unit start" where
  "start_parachain_node sdk config0 para_id hwbench =
     (let config = sdk_prepare sdk config0; validator = nc_authority config in
      followed (new_partial sdk config) (\<lambda>telemetry.
      followed (sdk_call Application_error (sdk_relay sdk) []) (\<lambda>collator_key.
      followed (sdk_call Sdk_error (sdk_network sdk para_id) []) (\<lambda>_.
      followed (started () (if nc_offchain_worker config then [Spawned ''offchain-workers-runner''] else [])) (\<lambda>_.
      followed (sdk_call Sdk_error (sdk_spawn_tasks sdk) [Service_tasks]) (\<lambda>_.
      followed (report_hardware sdk validator telemetry hwbench) (\<lambda>_.
      start_on_relay_chain sdk validator para_id collator_key)))))))"

section \<open>The RPC extensions\<close>

text \<open>
  \<open>rpc.rs\<close>: the node's own RPC methods, merged into an empty module; the modules and their
  merging are the library's. A merge fails when a method is registered already.
\<close>

record 'm rpc_library =
  rpc_new :: 'm
  rpc_merge :: "'m \<Rightarrow> 'm \<Rightarrow> (string, 'm) outcome"
  rpc_system :: 'm
  rpc_payment :: 'm

definition create_full :: "'m rpc_library \<Rightarrow> (string, 'm) outcome" where
  "create_full L =
     and_then (rpc_merge L (rpc_new L) (rpc_system L)) (\<lambda>module.
     and_then (rpc_merge L module (rpc_payment L)) (\<lambda>module. Ok module))"

text \<open>With modules as sets of method names, the node serves the methods of both.\<close>

definition method_library :: "string set \<Rightarrow> string set \<Rightarrow> string set rpc_library" where
  "method_library system payment =
     \<lparr>rpc_new = {}, rpc_merge = (\<lambda>a b. if a \<inter> b = {} then Ok (a \<union> b) else Err ''method already registered''),
      rpc_system = system, rpc_payment = payment\<rparr>"

lemma create_full_methods:
  "create_full (method_library system payment) =
     (if system \<inter> payment = {} then Ok (system \<union> payment) else Err ''method already registered'')"
  by (simp add: create_full_def method_library_def)

section \<open>What is started\<close>

lemma followed_Ok:
  "followed m f = (Ok b, evs) \<longleftrightarrow>
     (\<exists>a evs1 evs2. m = (Ok a, evs1) \<and> f a = (Ok b, evs2) \<and> evs = evs1 @ evs2)"
  by (cases m; cases "fst m") (auto simp: followed_def prod_eq_iff)

lemma started_Ok: "started a evs = (Ok b, evs') \<longleftrightarrow> a = b \<and> evs = evs'"
  by (simp add: started_def)

lemma sdk_call_Ok: "sdk_call wrap r evs = (Ok b, evs') \<longleftrightarrow> r = Ok b \<and> evs' = evs"
  by (cases r) (auto simp: sdk_call_def)

lemma start_executor_Ok:
  "start_executor sdk = (Ok u, evs) \<longleftrightarrow>
     (\<exists>db pk. run_executor (sdk_raw sdk) (sdk_babe_keys sdk) (sdk_offchain_storage sdk) = Ok (db, pk)
        \<and> evs = [Executor db pk])"
  by (cases "run_executor (sdk_raw sdk) (sdk_babe_keys sdk) (sdk_offchain_storage sdk)")
    (auto simp: start_executor_def started_def)

lemma telemetry_nonempty: "telemetry_endpoints config = Some es \<Longrightarrow> es \<noteq> []"
  by (auto simp: telemetry_endpoints_def split: option.splits if_splits)

lemma new_partial_Ok:
  "new_partial sdk config = (Ok telemetry, evs) \<longleftrightarrow>
     telemetry = (telemetry_endpoints config \<noteq> None)
     \<and> (case telemetry_endpoints config of None \<Rightarrow> True | Some es \<Rightarrow> sdk_telemetry_worker sdk es = Ok ())
     \<and> sdk_full_parts sdk (heap_pages config) = Ok ()
     \<and> evs = (if telemetry then [Spawned ''telemetry''] else [])"
  by (cases "telemetry_endpoints config")
    (auto simp: new_partial_def followed_Ok started_Ok sdk_call_Ok)

lemmas start_Ok_iffs = followed_Ok started_Ok sdk_call_Ok start_executor_Ok new_partial_Ok

text \<open>What a start has started when it comes to the executor.\<close>

definition before_executor :: "'hw sdk \<Rightarrow> node_config \<Rightarrow> u32 \<Rightarrow> 'hw option \<Rightarrow> pubkey option \<Rightarrow> start_event list" where
  "before_executor sdk config para_id hwbench key =
     (let telemetry = telemetry_endpoints config \<noteq> None in
        (if telemetry then [Spawned ''telemetry''] else [])
        @ (if nc_offchain_worker config then [Spawned ''offchain-workers-runner''] else [])
        @ [Service_tasks]
        @ snd (report_hardware sdk (nc_authority config) telemetry hwbench)
        @ [Relay_tasks para_id (if nc_authority config then Da_collator else Da_full_node) 6]
        @ (if nc_authority config then snd (start_consensus para_id 6 (the key)) else []))"

lemma report_hardware_Ok: "\<exists>u. report_hardware sdk a b hw = (Ok u, snd (report_hardware sdk a b hw))"
  by (simp add: report_hardware_def started_def split: option.split)

lemma report_hardware_events:
  "e \<in> set (snd (report_hardware sdk a b hw)) \<Longrightarrow> e = Hardware_warning \<or> e = Spawned ''telemetry_hwbench''"
  by (auto simp: report_hardware_def started_def split: option.splits if_splits)

lemma start_Ok:
  assumes "start_parachain_node sdk config0 para_id hwbench = (Ok u, evs)"
  shows "\<exists>key db pk. run_executor (sdk_raw sdk) (sdk_babe_keys sdk) (sdk_offchain_storage sdk) = Ok (db, pk)
     \<and> sdk_relay sdk = Ok key \<and> (nc_authority (sdk_prepare sdk config0) \<longrightarrow> key \<noteq> None)
     \<and> evs = before_executor sdk (sdk_prepare sdk config0) para_id hwbench key
         @ [Executor db pk, Network_started]"
proof -
  let ?config = "sdk_prepare sdk config0"
  obtain u' where hw: "report_hardware sdk (nc_authority ?config) (telemetry_endpoints ?config \<noteq> None) hwbench
      = (Ok u', snd (report_hardware sdk (nc_authority ?config) (telemetry_endpoints ?config \<noteq> None) hwbench))"
    using report_hardware_Ok by blast
  from assms obtain key evs9 where key: "sdk_relay sdk = Ok key"
    and aura: "(if nc_authority ?config then
           (case key of None \<Rightarrow> (Panic, []) | Some k \<Rightarrow> start_consensus para_id 6 k)
         else started () []) = (Ok (), evs9)"
    and exec: "\<exists>db pk. run_executor (sdk_raw sdk) (sdk_babe_keys sdk) (sdk_offchain_storage sdk) = Ok (db, pk)
       \<and> evs = (if telemetry_endpoints ?config \<noteq> None then [Spawned ''telemetry''] else [])
        @ (if nc_offchain_worker ?config then [Spawned ''offchain-workers-runner''] else [])
        @ [Service_tasks]
        @ snd (report_hardware sdk (nc_authority ?config) (telemetry_endpoints ?config \<noteq> None) hwbench)
        @ [Relay_tasks para_id (if nc_authority ?config then Da_collator else Da_full_node) 6]
        @ evs9 @ [Executor db pk, Network_started]"
    unfolding start_parachain_node_def start_on_relay_chain_def Let_def
    by (simp only: start_Ok_iffs) (fastforce simp: hw)
  show ?thesis
    using key aura exec
    by (cases "nc_authority ?config"; cases key)
      (auto simp: before_executor_def Let_def started_def start_consensus_def)
qed

text \<open>
  What a successful start of a node has started, and in which order: block authoring
  exactly on a collator (with the collator key), the runner of off-chain workers exactly
  when they are enabled, and in every case the executor, on a database whose two lists are
  empty, after all of these; the network comes last.
\<close>

lemma node_start_order:
  assumes "start_parachain_node sdk config0 para_id hwbench = (Ok u, evs)"
  shows "\<exists>pre db pk. evs = pre @ [Executor db pk, Network_started]
     \<and> (\<forall>d e. Executor d e \<notin> set pre) \<and> Network_started \<notin> set pre
     \<and> db_get db WASMSTORE_KEY_LIST = Some list_init \<and> db_get db WASMSTORE_RESULT_LIST = Some list_init
     \<and> ((\<exists>p. Aura p \<in> set pre) \<longleftrightarrow> nc_authority (sdk_prepare sdk config0))
     \<and> (\<forall>p. Aura p \<in> set pre \<longrightarrow> sdk_relay sdk = Ok (Some (ap_collator_key p)) \<and> ap_para_id p = para_id)
     \<and> (Spawned ''offchain-workers-runner'' \<in> set pre \<longleftrightarrow> nc_offchain_worker (sdk_prepare sdk config0))"
proof -
  let ?config = "sdk_prepare sdk config0"
  obtain key db pk where run: "run_executor (sdk_raw sdk) (sdk_babe_keys sdk) (sdk_offchain_storage sdk) = Ok (db, pk)"
    and key: "sdk_relay sdk = Ok key" "nc_authority ?config \<longrightarrow> key \<noteq> None"
    and evs: "evs = before_executor sdk ?config para_id hwbench key @ [Executor db pk, Network_started]"
    using start_Ok [OF assms] by blast
  show ?thesis
    by (intro exI [of _ "before_executor sdk ?config para_id hwbench key"] exI [of _ db] exI [of _ pk])
      (use run_executor_lists [OF run] key evs in
        \<open>auto simp: before_executor_def start_consensus_def started_def Let_def dest: report_hardware_events\<close>)
qed

text \<open>A collator with off-chain workers, for the closed instances.\<close>

definition sample_sdk :: "unit sdk" where
  "sample_sdk = \<lparr>sdk_prepare = (\<lambda>c. c), sdk_telemetry_worker = (\<lambda>_. Ok ()), sdk_full_parts = (\<lambda>_. Ok ()),
     sdk_relay = Ok (Some 7), sdk_network = (\<lambda>_. Ok ()), sdk_spawn_tasks = Ok (),
     sdk_hardware_ok = (\<lambda>_. True), sdk_overseer = Ok (), sdk_relay_tasks = Ok (),
     sdk_offchain_storage = Some Map.empty, sdk_babe_keys = [], sdk_raw = h256_bytes\<rparr>"

definition sample_node :: node_config where
  "sample_node = \<lparr>nc_authority = True, nc_offchain_worker = True,
     nc_telemetry_endpoints = None, nc_default_heap_pages = None\<rparr>"

lemma sample_start:
  "start_parachain_node sample_sdk sample_node 1000 None =
     (Ok (), snd (start_parachain_node sample_sdk sample_node 1000 None))"
  by (simp add: start_parachain_node_def start_on_relay_chain_def sample_sdk_def sample_node_def followed_def new_partial_def
      started_def sdk_call_def telemetry_endpoints_def heap_pages_def report_hardware_def
      start_consensus_def start_executor_def run_executor_def get_processor_keypair_def expect_def Let_def)

text \<open>
  C33: The workers' runner is started before the executor has created the two lists: a
  worker that runs on a database in which either list is missing panics and does nothing,
  whatever else the database holds and whatever is queued, while on the database that the
  executor leaves no run panics.
\<close>

theorem worker_needs_executor:
  assumes "start_parachain_node sdk config0 para_id hwbench = (Ok u, evs)"
    and "nc_offchain_worker (sdk_prepare sdk config0)"
  shows "\<exists>pre mid db pk. evs = pre @ Spawned ''offchain-workers-runner'' # mid @ [Executor db pk, Network_started]
     \<and> (\<forall>w. db_get (wk_db w) WASMSTORE_KEY_LIST = None \<or> db_get (wk_db w) WASMSTORE_RESULT_LIST = None \<longrightarrow>
          offchain_worker C accept block jl w = (Panicked, w))
     \<and> (\<forall>w. wk_db w = db \<longrightarrow> fst (offchain_worker C accept block jl w) = Returned)"
proof -
  let ?config = "sdk_prepare sdk config0"
  obtain key db pk where run: "run_executor (sdk_raw sdk) (sdk_babe_keys sdk) (sdk_offchain_storage sdk) = Ok (db, pk)"
    and evs: "evs = before_executor sdk ?config para_id hwbench key @ [Executor db pk, Network_started]"
    using start_Ok [OF assms(1)] by blast
  have "Spawned ''offchain-workers-runner'' \<in> set (before_executor sdk ?config para_id hwbench key)"
    using assms(2) by (simp add: before_executor_def Let_def)
  then obtain pre mid where
    "before_executor sdk ?config para_id hwbench key = pre @ Spawned ''offchain-workers-runner'' # mid"
    by (meson split_list)
  moreover have "fst (offchain_worker C accept block jl w) = Returned" if "wk_db w = db" for w
    using run_executor_lists [OF run] that
    by (simp add: offchain_worker_def handling_job_find shared_keys split: option.split)
  moreover have "offchain_worker C accept block jl w = (Panicked, w)"
    if "db_get (wk_db w) WASMSTORE_KEY_LIST = None \<or> db_get (wk_db w) WASMSTORE_RESULT_LIST = None" for w
    using that by (auto simp: offchain_worker_def split: option.split)
  ultimately show ?thesis
    using evs by auto
qed

theorem worker_needs_executor_witness:
  "\<exists>pre mid db pk. snd (start_parachain_node sample_sdk sample_node 1000 None)
       = pre @ Spawned ''offchain-workers-runner'' # mid @ [Executor db pk, Network_started]
     \<and> (\<forall>w. wk_db w = db \<longrightarrow> fst (offchain_worker scale_codecs (\<lambda>_ _. True) 1 [] w) = Returned)"
  using worker_needs_executor [OF sample_start, of scale_codecs "\<lambda>_ _. True" 1 "[]"]
  by (simp add: sample_sdk_def sample_node_def) blast

end
