(* ===== verification/Runtime_Genesis.thy ===== *)
theory Runtime_Genesis
  imports Byte_Views
begin

text \<open>
  The constants of \<open>runtime/src/lib.rs\<close>, the genesis presets of
  \<open>runtime/src/genesis_config_presets.rs\<close> and the location filter of
  \<open>runtime/src/configs/xcm.rs\<close>. The derivation of an account or a collator key from a
  seed is third-party: \<open>account_of\<close> and \<open>aura_of\<close>; so is the conversion of the genesis
  configuration to JSON, so a preset is its configuration.
\<close>

section \<open>Units, time and deposits\<close>

definition MILLISECS_PER_BLOCK :: u64 where "MILLISECS_PER_BLOCK = 6000"
definition MINUTES :: block_number where "MINUTES = 60000 div ucast MILLISECS_PER_BLOCK"
definition HOURS :: block_number where "HOURS = MINUTES * 60"
definition DAYS :: block_number where "DAYS = HOURS * 24"

definition UNIT :: balance where "UNIT = 1000000000000"
definition CENTIUNIT :: balance where "CENTIUNIT = 10000000000"
definition MILLIUNIT :: balance where "MILLIUNIT = 1000000000"
definition MICROUNIT :: balance where "MICROUNIT = 1000000"
definition EXISTENTIAL_DEPOSIT :: balance where "EXISTENTIAL_DEPOSIT = MILLIUNIT"

definition deposit :: "u32 \<Rightarrow> u32 \<Rightarrow> balance" where
  "deposit items bytes = (ucast items * UNIT + ucast bytes * (5 * MILLIUNIT div 100)) div 10"

text \<open>
  The deposit for stored items and bytes never overflows: for every pair of 32-bit
  arguments it is exactly a tenth of one unit per item and 0.05 milliunits per byte,
  computed without wrap-around.
\<close>

lemma deposit_exact:
  "unat (deposit items bytes) = (unat items * 1000000000000 + unat bytes * 50000000) div 10"
proof -
  have bounds: "unat items < 4294967296" "unat bytes < 4294967296"
    using unsigned_less [of items, where 'a = nat] unsigned_less [of bytes, where 'a = nat] by simp_all
  have u: "unat (ucast w :: balance) = unat w" for w :: u32
    by (simp add: unsigned_ucast_eq take_bit_nat_eq_self unsigned_less [THEN less_le_trans])
  have i: "unat (ucast items * UNIT :: balance) = unat items * 1000000000000"
    using bounds by (subst unat_mult_lem [THEN iffD1]) (simp_all add: u UNIT_def)
  have b: "unat (ucast bytes * (5 * MILLIUNIT div 100) :: balance) = unat bytes * 50000000"
    using bounds by (subst unat_mult_lem [THEN iffD1]) (simp_all add: u MILLIUNIT_def unat_div)
  have "unat (ucast items * UNIT + ucast bytes * (5 * MILLIUNIT div 100) :: balance)
      = unat items * 1000000000000 + unat bytes * 50000000"
    using bounds i b by (subst unat_add_lem [THEN iffD1]) simp_all
  then show ?thesis
    by (simp add: deposit_def unat_div)
qed

text \<open>
  The weight-to-fee polynomial: one milliunit tenth for a hundred extrinsic base weights,
  as an integer and a fractional coefficient. \<open>perbill\<close> is \<open>Perbill::from_rational\<close> and
  \<open>base_ref_time\<close> the third-party base weight.
\<close>

record fee_coefficient =
  fc_degree :: nat
  fc_negative :: bool
  fc_frac :: nat
  fc_integer :: balance

definition weight_to_fee :: "(balance \<Rightarrow> balance \<Rightarrow> nat) \<Rightarrow> u64 \<Rightarrow> fee_coefficient list" where
  "weight_to_fee perbill base_ref_time =
     (let p = MILLIUNIT div 10; q = 100 * ucast base_ref_time in
      [\<lparr>fc_degree = 1, fc_negative = False, fc_frac = perbill (p mod q) q, fc_integer = p div q\<rparr>])"

section \<open>Genesis\<close>

record genesis_config =
  gc_balances :: "(account \<times> balance) list"
  gc_parachain_id :: u32
  gc_invulnerables :: "account list"
  gc_candidacy_bond :: balance
  gc_session_keys :: "(account \<times> account \<times> pubkey) list"
  gc_safe_xcm_version :: "u32 option"
  gc_sudo :: "account option"

definition template_session_keys :: "pubkey \<Rightarrow> pubkey" where
  "template_session_keys keys = keys"

definition testnet_genesis ::
  "u32 \<Rightarrow> (account \<times> pubkey) list \<Rightarrow> account list \<Rightarrow> account \<Rightarrow> u32 \<Rightarrow> genesis_config" where
  "testnet_genesis xcm_version invulnerables endowed_accounts root para_id =
     \<lparr>gc_balances = map (\<lambda>k. (k, push_bit 60 1)) endowed_accounts,
      gc_parachain_id = para_id,
      gc_invulnerables = map fst invulnerables,
      gc_candidacy_bond = EXISTENTIAL_DEPOSIT * 16,
      gc_session_keys = map (\<lambda>(acc, aura). (acc, acc, template_session_keys aura)) invulnerables,
      gc_safe_xcm_version = Some xcm_version,
      gc_sudo = Some root\<rparr>"

definition endowed_seeds :: "string list" where
  "endowed_seeds = [''Alice'', ''Bob'', ''Charlie'', ''Dave'', ''Eve'', ''Ferdie'',
     ''Alice//stash'', ''Bob//stash'', ''Charlie//stash'', ''Dave//stash'', ''Eve//stash'',
     ''Ferdie//stash'']"

definition local_testnet_genesis ::
  "u32 \<Rightarrow> (string \<Rightarrow> account) \<Rightarrow> (string \<Rightarrow> pubkey) \<Rightarrow> genesis_config" where
  "local_testnet_genesis xcm_version account_of aura_of =
     testnet_genesis xcm_version
       [(account_of ''Alice'', aura_of ''Alice''), (account_of ''Bob'', aura_of ''Bob'')]
       (map account_of endowed_seeds) (account_of ''Alice'') 2000"

definition development_config_genesis ::
  "u32 \<Rightarrow> (string \<Rightarrow> account) \<Rightarrow> (string \<Rightarrow> pubkey) \<Rightarrow> genesis_config" where
  "development_config_genesis xcm_version account_of aura_of =
     testnet_genesis xcm_version
       [(account_of ''Alice'', aura_of ''Alice''), (account_of ''Bob'', aura_of ''Bob'')]
       (map account_of endowed_seeds) (account_of ''Alice'') 2000"

definition DEV_RUNTIME_PRESET :: string where "DEV_RUNTIME_PRESET = ''development''"
definition LOCAL_TESTNET_RUNTIME_PRESET :: string where
  "LOCAL_TESTNET_RUNTIME_PRESET = ''local_testnet''"

definition get_preset ::
  "u32 \<Rightarrow> (string \<Rightarrow> account) \<Rightarrow> (string \<Rightarrow> pubkey) \<Rightarrow> string \<Rightarrow> genesis_config option" where
  "get_preset xcm_version account_of aura_of preset_id =
     (if preset_id = LOCAL_TESTNET_RUNTIME_PRESET
      then Some (local_testnet_genesis xcm_version account_of aura_of)
      else if preset_id = DEV_RUNTIME_PRESET
      then Some (development_config_genesis xcm_version account_of aura_of)
      else None)"

definition preset_names :: "string list" where
  "preset_names = [DEV_RUNTIME_PRESET, LOCAL_TESTNET_RUNTIME_PRESET]"

text \<open>
  A named preset is a genesis the chain can start from: the listed names are exactly the
  ones with a preset, and in each every invulnerable collator is endowed above the
  candidacy bond and has session keys, and the sudo account is endowed.
\<close>

lemma presets_well_formed:
  "(get_preset v account_of aura_of preset_id \<noteq> None) = (preset_id \<in> set preset_names)
   \<and> (case get_preset v account_of aura_of preset_id of None \<Rightarrow> True
      | Some g \<Rightarrow>
          list_all (\<lambda>a. list_ex (\<lambda>(k, b). k = a \<and> gc_candidacy_bond g < b) (gc_balances g)
            \<and> list_ex (\<lambda>(k, v, keys). k = a \<and> v = a) (gc_session_keys g)) (gc_invulnerables g)
          \<and> (\<exists>a. gc_sudo g = Some a \<and> a \<in> fst ` set (gc_balances g)))"
proof -
  have "EXISTENTIAL_DEPOSIT * 16 < push_bit 60 1"
    by (simp add: EXISTENTIAL_DEPOSIT_def MILLIUNIT_def push_bit_eq_mult)
  then show ?thesis
    by (auto simp: get_preset_def preset_names_def local_testnet_genesis_def
        development_config_genesis_def testnet_genesis_def endowed_seeds_def)
qed

section \<open>Locations with free execution\<close>

datatype body_id = Unit_body | Executive | Technical | Legislative | Judicial | Other_body
datatype junction = Parachain u32 | Account_id32 h256 | Plurality body_id | Other_junction

record xcm_location =
  loc_parents :: nat
  loc_interior :: "junction list"

definition parent_or_parents_executive_plurality :: "xcm_location \<Rightarrow> bool" where
  "parent_or_parents_executive_plurality l =
     (case (loc_parents l, loc_interior l) of
        (Suc 0, []) \<Rightarrow> True
      | (Suc 0, [Plurality Executive]) \<Rightarrow> True
      | _ \<Rightarrow> False)"

text \<open>
  Only the relay chain and its executive body get free execution of messages: no
  sibling parachain, no account and no local origin passes the filter.
\<close>

lemma free_execution_only_parent:
  "parent_or_parents_executive_plurality l \<longleftrightarrow>
     loc_parents l = 1 \<and> (loc_interior l = [] \<or> loc_interior l = [Plurality Executive])"
  by (auto simp: parent_or_parents_executive_plurality_def
      split: nat.splits list.splits junction.splits body_id.splits)

end
