(* ===== verification/Node_Config.thy ===== *)
theory Node_Config
  imports Runtime_Genesis
begin

text \<open>
  Chain specifications and the choice of one (\<open>node/src/chain_spec.rs\<close>, \<open>load_spec\<close> in
  \<open>node/src/command.rs\<close>), and the relay-chain command line derived from the parachain's
  configuration (\<open>node/src/cli.rs\<close>, \<open>node/src/command.rs\<close>). Reading a specification from a
  JSON file is an argument.
\<close>

section \<open>Chain specifications\<close>

record extensions =
  relay_chain :: string
  para_id :: u32

datatype chain_type = Development | Local | Live

datatype property_value = Text_property string | Number_property nat

record chain_spec =
  spec_extensions :: "extensions option"
  spec_name :: string
  spec_id :: string
  spec_chain_type :: chain_type
  spec_preset :: "string option"
  spec_protocol_id :: "string option"
  spec_properties :: "(string \<times> property_value) list"

definition token_properties :: "(string \<times> property_value) list" where
  "token_properties = [(''tokenSymbol'', Text_property ''UNIT''),
     (''tokenDecimals'', Number_property 12), (''ss58Format'', Number_property 42)]"

text \<open>The development specification builds the properties too, but does not attach them.\<close>

definition development_config :: chain_spec where
  "development_config =
     \<lparr>spec_extensions = Some \<lparr>relay_chain = ''rococo-local'', para_id = 1000\<rparr>,
      spec_name = ''Development'', spec_id = ''dev'', spec_chain_type = Development,
      spec_preset = Some DEV_RUNTIME_PRESET, spec_protocol_id = None, spec_properties = []\<rparr>"

definition local_testnet_config :: chain_spec where
  "local_testnet_config =
     \<lparr>spec_extensions = Some \<lparr>relay_chain = ''rococo-local'', para_id = 1000\<rparr>,
      spec_name = ''Local Testnet'', spec_id = ''local_testnet'', spec_chain_type = Local,
      spec_preset = Some LOCAL_TESTNET_RUNTIME_PRESET, spec_protocol_id = Some ''template-local'',
      spec_properties = token_properties\<rparr>"

definition load_spec ::
  "(string \<Rightarrow> (string, chain_spec) outcome) \<Rightarrow> string \<Rightarrow> (string, chain_spec) outcome" where
  "load_spec from_json_file spec =
     (if spec = ''dev'' then Ok development_config
      else if spec = ''template-rococo'' then Ok local_testnet_config
      else if spec = '''' \<or> spec = ''local'' then Ok local_testnet_config
      else from_json_file spec)"

section \<open>The relay-chain command line\<close>

record 'cmd relay_chain_cli =
  rc_base :: 'cmd
  rc_chain_id :: "string option"
  rc_base_path :: "string option"

definition relay_chain_cli_new ::
  "(string list \<Rightarrow> 'cmd) \<Rightarrow> chain_spec \<Rightarrow> string \<Rightarrow> string list \<Rightarrow> 'cmd relay_chain_cli" where
  "relay_chain_cli_new parse para_spec para_base_path relay_chain_args =
     \<lparr>rc_base = parse relay_chain_args,
      rc_chain_id = map_option relay_chain (spec_extensions para_spec),
      rc_base_path = Some (para_base_path @ ''/polkadot'')\<rparr>"

definition relay_chain_id :: "('cmd \<Rightarrow> string) \<Rightarrow> 'cmd relay_chain_cli \<Rightarrow> string" where
  "relay_chain_id base_chain_id c =
     (let chain_id = base_chain_id (rc_base c) in
      if chain_id = [] then (case rc_chain_id c of Some s \<Rightarrow> s | None \<Rightarrow> []) else chain_id)"

definition relay_base_path :: "('cmd \<Rightarrow> string option) \<Rightarrow> 'cmd relay_chain_cli \<Rightarrow> string option" where
  "relay_base_path shared_base_path c =
     (case shared_base_path (rc_base c) of Some p \<Rightarrow> Some p | None \<Rightarrow> rc_base_path c)"

text \<open>The para id the node registers under: the extension of its chain specification.\<close>

definition node_para_id :: "chain_spec \<Rightarrow> (string, u32) outcome" where
  "node_para_id spec =
     ok_or ''Could not find parachain ID in chain-spec.'' (map_option para_id (spec_extensions spec))"

text \<open>The two built-in specifications: their para id, and the genesis they name.\<close>

lemma builtin_specs:
  "node_para_id development_config = Ok 1000" "node_para_id local_testnet_config = Ok 1000"
  "\<exists>g. Option.bind (spec_preset development_config) (get_preset v account_of aura_of) = Some g
     \<and> gc_parachain_id g = 2000"
  "\<exists>g. Option.bind (spec_preset local_testnet_config) (get_preset v account_of aura_of) = Some g
     \<and> gc_parachain_id g = 2000"
  by (simp_all add: node_para_id_def development_config_def local_testnet_config_def
      get_preset_def DEV_RUNTIME_PRESET_def LOCAL_TESTNET_RUNTIME_PRESET_def
      local_testnet_genesis_def development_config_genesis_def testnet_genesis_def)

text \<open>
  The relay chain follows the parachain's specification unless the operator says
  otherwise: without a chain argument it is the relay chain of the specification, with
  the default base path below the parachain's, and an explicit argument wins for both.
\<close>

lemma relay_chain_defaults:
  "relay_chain_id base_chain_id (relay_chain_cli_new parse spec path args) =
     (if base_chain_id (parse args) \<noteq> [] then base_chain_id (parse args)
      else case spec_extensions spec of Some e \<Rightarrow> relay_chain e | None \<Rightarrow> [])
   \<and> relay_base_path shared (relay_chain_cli_new parse spec path args) =
     (case shared (parse args) of Some p \<Rightarrow> Some p | None \<Rightarrow> Some (path @ ''/polkadot''))"
  by (simp add: relay_chain_id_def relay_chain_cli_new_def relay_base_path_def split: option.split)

end
