(* ===== verification/Node_Command.thy ===== *)
theory Node_Command
  imports Node_Service Node_Config
begin

text \<open>
  The command line of the node (\<open>node/src/command.rs\<close>): the dispatch of \<open>run\<close> to the
  sub-commands and to the start of a node, and the configuration that the relay-chain
  command line derives from its base (\<open>CliConfiguration\<close>). The sub-commands themselves and
  the creation of a configuration belong to the Polkadot SDK; the record \<open>cli_env\<close> says how
  they end. Effects are listed in the order they happen.
\<close>

section \<open>Commands\<close>

datatype benchmark_cmd = Bench_pallet | Bench_block | Bench_storage | Bench_machine | Bench_other

datatype subcommand =
    BuildSpec | CheckBlock | ExportBlocks | ExportState | ImportBlocks | Revert | PurgeChain
  | ExportGenesisHead | ExportGenesisWasm "string option" | Benchmark benchmark_cmd

text \<open>What a sub-command is given to work on.\<close>

datatype input =
    In_chain_spec chain_spec | In_network | In_client | In_import_queue | In_database | In_backend
  | In_config | In_relay_config | In_hardware | In_db | In_storage

record run_config =
  rn_spec :: chain_spec
  rn_base_path :: string
  rn_database_path :: "string option"
  rn_node :: node_config

record cli =
  cl_subcommand :: "subcommand option"
  cl_no_hardware_benchmarks :: bool
  cl_relay_chain_args :: "string list"

datatype cli_error = Cli_error string | Service_failed service_error

datatype run_event =
    Created_dir string
  | Gathered_benchmark string
  | Command subcommand "input list"
  | Node_started start_event

type_synonym run_result = "(cli_error, unit) outcome \<times> run_event list"

text \<open>
  \<open>ce_benchmarks\<close> is the feature \<open>runtime-benchmarks\<close>; \<open>ce_gather\<close> the measurement of the
  hardware at a database path.
\<close>

record ('cmd, 'hw) cli_env =
  ce_runner :: "(string, run_config) outcome"
  ce_sdk :: "'hw sdk"
  ce_command :: "subcommand \<Rightarrow> input list \<Rightarrow> (string, unit) outcome"
  ce_parse_relay :: "string list \<Rightarrow> 'cmd"
  ce_relay_config :: "'cmd relay_chain_cli \<Rightarrow> (string, unit) outcome"
  ce_executable_name :: string
  ce_from_json_file :: "string \<Rightarrow> (string, chain_spec) outcome"
  ce_gather :: "string \<Rightarrow> 'hw"
  ce_benchmarks :: bool

section \<open>What the command lines say of themselves\<close>

text \<open>The version and the authors are taken from the environment of the build.\<close>

record cli_texts =
  ct_impl_name :: string
  ct_impl_version :: string
  ct_description :: string
  ct_author :: string
  ct_support_url :: string
  ct_copyright_start_year :: int

definition parachain_cli_texts :: "string \<Rightarrow> string \<Rightarrow> string \<Rightarrow> cli_texts" where
  "parachain_cli_texts version authors executable_name =
     \<lparr>ct_impl_name = ''Parachain Collator Template'', ct_impl_version = version,
      ct_description = ''Parachain Collator Template'' @ replicate 2 (CHR 0x0A)
        @ ''The command-line arguments provided first will be passed to the parachain node, ''
        @ ''while the arguments provided after -- will be passed to the relay chain node.''
        @ replicate 2 (CHR 0x0A) @ executable_name @ '' <parachain-args> -- <relay-chain-args>'',
      ct_author = authors,
      ct_support_url = ''https://github.com/paritytech/polkadot-sdk/issues/new'',
      ct_copyright_start_year = 2020\<rparr>"

definition relay_cli_texts :: "string \<Rightarrow> string \<Rightarrow> string \<Rightarrow> cli_texts" where
  "relay_cli_texts version authors executable_name =
     \<lparr>ct_impl_name = ''Parachain Collator Template'', ct_impl_version = version,
      ct_description = ''Parachain Collator Template'' @ replicate 2 (CHR 0x0A)
        @ ''The command-line arguments provided first will be passed to the parachain node, ''
        @ ''while the arguments provided after -- will be passed to the relay chain node.''
        @ replicate 2 (CHR 0x0A) @ executable_name @ '' <parachain-args> -- <relay-chain-args>'',
      ct_author = authors,
      ct_support_url = ''https://github.com/paritytech/polkadot-sdk/issues/new'',
      ct_copyright_start_year = 2020\<rparr>"

text \<open>The relay-chain command line introduces itself as the parachain's does.\<close>

lemma cli_texts_agree: "relay_cli_texts = parachain_cli_texts"
  by (simp add: fun_eq_iff relay_cli_texts_def parachain_cli_texts_def)

section \<open>The dispatch\<close>

definition map_error :: "('e \<Rightarrow> 'f) \<Rightarrow> ('e, 'a) outcome \<Rightarrow> ('f, 'a) outcome" where
  "map_error f x = (case x of Ok a \<Rightarrow> Ok a | Err e \<Rightarrow> Err (f e) | Panic \<Rightarrow> Panic)"

definition quiet :: "('e, 'a) outcome \<Rightarrow> ('e, 'a) outcome \<times> 'v list" where
  "quiet x = (x, [])"

definition create_runner :: "('cmd, 'hw) cli_env \<Rightarrow> (cli_error, run_config) outcome \<times> run_event list" where
  "create_runner env = quiet (map_error Cli_error (ce_runner env))"

definition partial_components :: "('cmd, 'hw) cli_env \<Rightarrow> run_config \<Rightarrow> run_result" where
  "partial_components env config =
     (let (r, evs) = new_partial (ce_sdk env) (rn_node config)
      in (map_error Service_failed (and_then r (\<lambda>_. Ok ())), map Node_started evs))"

definition command_run :: "('cmd, 'hw) cli_env \<Rightarrow> subcommand \<Rightarrow> input list \<Rightarrow> run_result" where
  "command_run env sub inputs =
     (map_error Cli_error (ce_command env sub inputs), [Command sub inputs])"

definition construct_async_run ::
  "('cmd, 'hw) cli_env \<Rightarrow> subcommand \<Rightarrow> (run_config \<Rightarrow> input list) \<Rightarrow> run_result" where
  "construct_async_run env sub inputs =
     followed (create_runner env) (\<lambda>config.
     followed (partial_components env config) (\<lambda>_.
     command_run env sub (inputs config)))"

definition relay_chain_cli_of :: "('cmd, 'hw) cli_env \<Rightarrow> cli \<Rightarrow> run_config \<Rightarrow> 'cmd relay_chain_cli" where
  "relay_chain_cli_of env cli config =
     relay_chain_cli_new (ce_parse_relay env) (rn_spec config) (rn_base_path config)
       (ce_executable_name env # cl_relay_chain_args cli)"

definition polkadot_config ::
  "('cmd, 'hw) cli_env \<Rightarrow> cli \<Rightarrow> run_config \<Rightarrow> (cli_error, unit) outcome \<times> run_event list" where
  "polkadot_config env cli config =
     quiet (map_error (\<lambda>err. Cli_error (''Relay chain argument error: '' @ err))
       (ce_relay_config env (relay_chain_cli_of env cli config)))"

fun run_benchmark :: "('cmd, 'hw) cli_env \<Rightarrow> benchmark_cmd \<Rightarrow> run_config \<Rightarrow> run_result" where
  "run_benchmark env Bench_pallet config =
     (if ce_benchmarks env
      then command_run env (Benchmark Bench_pallet) [In_chain_spec (rn_spec config)]
      else quiet (Err (Cli_error (''Benchmarking wasn't enabled when building the node. ''
        @ ''You can enable it with `--features runtime-benchmarks`.''))))"
| "run_benchmark env Bench_block config =
     followed (partial_components env config) (\<lambda>_. command_run env (Benchmark Bench_block) [In_client])"
| "run_benchmark env Bench_storage config =
     (if ce_benchmarks env
      then followed (partial_components env config) (\<lambda>_.
        command_run env (Benchmark Bench_storage) [In_config, In_client, In_db, In_storage])
      else quiet (Err (Cli_error ''Compile with --features=runtime-benchmarks to enable storage benchmarks.'')))"
| "run_benchmark env Bench_machine config =
     command_run env (Benchmark Bench_machine) [In_config, In_hardware]"
| "run_benchmark env Bench_other config =
     quiet (Err (Cli_error ''Benchmarking sub-command unsupported''))"

text \<open>
  \<open>(!flag).then_some(e).flatten()\<close>: the argument of \<open>then_some\<close> is evaluated before the
  flag is looked at, so the directory is made and the hardware measured in both cases.
\<close>

definition hardware_benchmark ::
  "('cmd, 'hw) cli_env \<Rightarrow> cli \<Rightarrow> run_config \<Rightarrow> (cli_error, 'hw option) outcome \<times> run_event list" where
  "hardware_benchmark env cli config =
     (case rn_database_path config of
        None \<Rightarrow> started None []
      | Some path \<Rightarrow>
          started (if cl_no_hardware_benchmarks cli then None else Some (ce_gather env path))
            [Created_dir path, Gathered_benchmark path])"

definition run_node :: "('cmd, 'hw) cli_env \<Rightarrow> cli \<Rightarrow> run_config \<Rightarrow> run_result" where
  "run_node env cli config =
     followed (hardware_benchmark env cli config) (\<lambda>hwbench.
     followed (quiet (map_error Cli_error (node_para_id (rn_spec config)))) (\<lambda>para_id.
     followed (polkadot_config env cli config) (\<lambda>_.
       (let (r, evs) = start_parachain_node (ce_sdk env) (rn_node config) para_id hwbench
        in (map_error Service_failed r, map Node_started evs)))))"

definition run :: "('cmd, 'hw) cli_env \<Rightarrow> cli \<Rightarrow> run_result" where
  "run env cli =
     (case cl_subcommand cli of
        Some BuildSpec \<Rightarrow> followed (create_runner env) (\<lambda>config.
          command_run env BuildSpec [In_chain_spec (rn_spec config), In_network])
      | Some CheckBlock \<Rightarrow> construct_async_run env CheckBlock (\<lambda>config. [In_client, In_import_queue])
      | Some ExportBlocks \<Rightarrow> construct_async_run env ExportBlocks (\<lambda>config. [In_client, In_database])
      | Some ExportState \<Rightarrow> construct_async_run env ExportState
          (\<lambda>config. [In_client, In_chain_spec (rn_spec config)])
      | Some ImportBlocks \<Rightarrow> construct_async_run env ImportBlocks (\<lambda>config. [In_client, In_import_queue])
      | Some Revert \<Rightarrow> construct_async_run env Revert (\<lambda>config. [In_client, In_backend])
      | Some PurgeChain \<Rightarrow> followed (create_runner env) (\<lambda>config.
          followed (polkadot_config env cli config) (\<lambda>_.
          command_run env PurgeChain [In_config, In_relay_config]))
      | Some ExportGenesisHead \<Rightarrow> followed (create_runner env) (\<lambda>config.
          followed (partial_components env config) (\<lambda>_.
          command_run env ExportGenesisHead [In_client]))
      | Some (ExportGenesisWasm chain) \<Rightarrow> followed (create_runner env) (\<lambda>config.
          followed (quiet (map_error Cli_error (load_spec (ce_from_json_file env)
              (case chain of None \<Rightarrow> [] | Some c \<Rightarrow> c)))) (\<lambda>spec.
          command_run env (ExportGenesisWasm chain) [In_chain_spec spec]))
      | Some (Benchmark cmd) \<Rightarrow> followed (create_runner env) (run_benchmark env cmd)
      | None \<Rightarrow> followed (create_runner env) (run_node env cli))"

section \<open>The relay-chain configuration\<close>

text \<open>
  The getters of \<open>CliConfiguration\<close> that the relay-chain command line answers, as a record of
  their results over the arguments they take. \<open>'x\<close> stands for the SDK types that are only
  passed through.
\<close>

record 'x cli_configuration =
  cc_shared_params :: 'x
  cc_import_params :: "'x option"
  cc_network_params :: "'x option"
  cc_keystore_params :: "'x option"
  cc_base_path :: "(string, string option) outcome"
  cc_rpc_addr :: "u16 \<Rightarrow> (string, 'x option) outcome"
  cc_prometheus_config :: "u16 \<Rightarrow> (string, 'x option) outcome"
  cc_init :: "(string, unit) outcome"
  cc_chain_id :: "bool \<Rightarrow> (string, string) outcome"
  cc_role :: "bool \<Rightarrow> (string, 'x) outcome"
  cc_transaction_pool :: "bool \<Rightarrow> (string, 'x) outcome"
  cc_trie_cache_maximum_size :: "(string, nat option) outcome"
  cc_rpc_methods :: "(string, 'x) outcome"
  cc_rpc_max_connections :: "(string, u32) outcome"
  cc_rpc_cors :: "bool \<Rightarrow> (string, string list option) outcome"
  cc_default_heap_pages :: "(string, u64 option) outcome"
  cc_force_authoring :: "(string, bool) outcome"
  cc_disable_grandpa :: "(string, bool) outcome"
  cc_max_runtime_instances :: "(string, nat option) outcome"
  cc_announce_block :: "(string, bool) outcome"
  cc_telemetry_endpoints :: "(string, 'x option) outcome"
  cc_node_name :: "(string, string) outcome"

text \<open>
  \<open>base\<close> is the configuration of the inner \<open>polkadot_cli::RunCmd\<close>. Four getters do more than
  delegate: the base path and the chain id have defaults, \<open>init\<close> is unreachable, and
  \<open>node_name\<close> panics where the base reports an error.
\<close>

definition relay_cli_configuration ::
  "'x cli_configuration \<Rightarrow> 'cmd relay_chain_cli \<Rightarrow> 'x cli_configuration" where
  "relay_cli_configuration base c =
     \<lparr>cc_shared_params = cc_shared_params base,
      cc_import_params = cc_import_params base,
      cc_network_params = cc_network_params base,
      cc_keystore_params = cc_keystore_params base,
      cc_base_path = and_then (cc_base_path base) (\<lambda>p.
         Ok (case p of Some p \<Rightarrow> Some p | None \<Rightarrow> rc_base_path c)),
      cc_rpc_addr = cc_rpc_addr base,
      cc_prometheus_config = cc_prometheus_config base,
      cc_init = Panic,
      cc_chain_id = (\<lambda>is_dev. and_then (cc_chain_id base is_dev) (\<lambda>chain_id.
         Ok (if chain_id = [] then (case rc_chain_id c of Some i \<Rightarrow> i | None \<Rightarrow> []) else chain_id))),
      cc_role = cc_role base,
      cc_transaction_pool = cc_transaction_pool base,
      cc_trie_cache_maximum_size = cc_trie_cache_maximum_size base,
      cc_rpc_methods = cc_rpc_methods base,
      cc_rpc_max_connections = cc_rpc_max_connections base,
      cc_rpc_cors = cc_rpc_cors base,
      cc_default_heap_pages = cc_default_heap_pages base,
      cc_force_authoring = cc_force_authoring base,
      cc_disable_grandpa = cc_disable_grandpa base,
      cc_max_runtime_instances = cc_max_runtime_instances base,
      cc_announce_block = cc_announce_block base,
      cc_telemetry_endpoints = cc_telemetry_endpoints base,
      cc_node_name = (case cc_node_name base of Ok n \<Rightarrow> cc_node_name base | _ \<Rightarrow> Panic)\<rparr>"

text \<open>The ports the relay chain listens on unless told otherwise.\<close>

definition relay_p2p_listen_port :: u16 where "relay_p2p_listen_port = 30334"
definition relay_rpc_listen_port :: u16 where "relay_rpc_listen_port = 9945"
definition relay_prometheus_listen_port :: u16 where "relay_prometheus_listen_port = 9616"

section \<open>Lemmas\<close>

lemma quiet_Ok: "quiet x = (Ok a, evs) \<longleftrightarrow> x = Ok a \<and> evs = []"
  by (auto simp: quiet_def)

lemma map_error_Ok: "map_error f x = Ok a \<longleftrightarrow> x = Ok a"
  by (cases x) (auto simp: map_error_def)

lemma followed_snd: "\<exists>evs. snd (followed m f) = snd m @ evs"
  by (simp add: followed_def split: outcome.split)

lemma followed_fst_Ok: "fst m = Ok a \<Longrightarrow> followed m f = (fst (f a), snd m @ snd (f a))"
  by (simp add: followed_def)

lemma run_starts_node:
  assumes "cl_subcommand cli = None" "ce_runner env = Ok config"
  shows "run env cli = run_node env cli config"
  using assms by (simp add: run_def create_runner_def quiet_def map_error_def followed_def)

text \<open>A node that has been started.\<close>

lemma run_node_Ok:
  assumes "run_node env cli config = (Ok (), evs)"
  obtains para_id hwbench pre sevs where "node_para_id (rn_spec config) = Ok para_id"
    "start_parachain_node (ce_sdk env) (rn_node config) para_id hwbench = (Ok (), sevs)"
    "evs = pre @ map Node_started sevs"
proof -
  from assms obtain hw evs1 para_id evs2 evs3 evs4 where
    "node_para_id (rn_spec config) = Ok para_id" "evs = evs1 @ evs2 @ evs3 @ evs4"
    and start: "(let (r, es) = start_parachain_node (ce_sdk env) (rn_node config) para_id hw
        in (map_error Service_failed r, map Node_started es)) = (Ok (), evs4)"
    unfolding run_node_def followed_Ok quiet_Ok map_error_Ok by blast
  moreover obtain r es where "start_parachain_node (ce_sdk env) (rn_node config) para_id hw = (r, es)"
    by (cases "start_parachain_node (ce_sdk env) (rn_node config) para_id hw")
  ultimately show thesis
    using that [of para_id hw es "evs1 @ evs2 @ evs3"] by (simp add: map_error_Ok)
qed

section \<open>Properties\<close>

text \<open>
  The option \<open>--no-hardware-benchmarks\<close> does not stop the benchmark: with a database on
  disk the node makes the directory and measures the hardware first in any case; the option
  only drops the measurement, so that the start of the node does not see it.
\<close>

lemma hardware_option_ignored:
  assumes "cl_subcommand cli = None" "ce_runner env = Ok config" "rn_database_path config = Some path"
  shows "\<forall>b. \<exists>r evs. run env (cli\<lparr>cl_no_hardware_benchmarks := b\<rparr>)
         = (r, [Created_dir path, Gathered_benchmark path] @ evs)
       \<and> fst (hardware_benchmark env (cli\<lparr>cl_no_hardware_benchmarks := b\<rparr>) config)
         = Ok (if b then None else Some (ce_gather env path))"
proof
  fix b
  let ?cli = "cli\<lparr>cl_no_hardware_benchmarks := b\<rparr>"
  have run: "run env ?cli = run_node env ?cli config"
    by (rule run_starts_node) (simp_all add: assms)
  have hw: "hardware_benchmark env ?cli config =
      (Ok (if b then None else Some (ce_gather env path)), [Created_dir path, Gathered_benchmark path])"
    by (simp add: hardware_benchmark_def assms(3) started_def)
  then obtain evs where "snd (run env ?cli) = [Created_dir path, Gathered_benchmark path] @ evs"
    using followed_snd [of "hardware_benchmark env ?cli config"] unfolding run run_node_def
    by (metis snd_conv)
  then show "\<exists>r evs. run env ?cli = (r, [Created_dir path, Gathered_benchmark path] @ evs)
       \<and> fst (hardware_benchmark env ?cli config) = Ok (if b then None else Some (ce_gather env path))"
    by (intro exI [of _ "fst (run env ?cli)"] exI [of _ evs]) (simp add: prod_eq_iff hw)
qed

text \<open>
  The node and its runtime disagree about the parachain: a node that is started with a
  built-in chain specification joins the relay chain as parachain 1000, while the genesis
  that the same specification names gives the runtime the id 2000.
\<close>

lemma node_joins_other_para:
  assumes "run env cli = (Ok (), evs)" "cl_subcommand cli = None" "ce_runner env = Ok config"
    and "load_spec (ce_from_json_file env) spec = Ok (rn_spec config)"
    and "spec = ''dev'' \<or> spec = ''local'' \<or> spec = ''template-rococo'' \<or> spec = []"
  shows "\<exists>profile g. Node_started (Relay_tasks 1000 profile 6) \<in> set evs
     \<and> Option.bind (spec_preset (rn_spec config)) (get_preset v account_of aura_of) = Some g
     \<and> gc_parachain_id g = 2000"
proof -
  have "rn_spec config = development_config \<or> rn_spec config = local_testnet_config"
    using assms(4,5) by (auto simp: load_spec_def)
  then have para: "node_para_id (rn_spec config) = Ok 1000"
    and "\<exists>g. Option.bind (spec_preset (rn_spec config)) (get_preset v account_of aura_of) = Some g
        \<and> gc_parachain_id g = 2000"
    using builtin_specs by auto
  moreover from assms(1) obtain para_id hw pre sevs where "node_para_id (rn_spec config) = Ok para_id"
      and start: "start_parachain_node (ce_sdk env) (rn_node config) para_id hw = (Ok (), sevs)"
      and evs: "evs = pre @ map Node_started sevs"
    unfolding run_starts_node [OF assms(2,3)] by (rule run_node_Ok)
  moreover have "\<exists>profile. Relay_tasks 1000 profile 6 \<in> set sevs"
    using start_Ok [OF start] para \<open>node_para_id (rn_spec config) = Ok para_id\<close>
    by (auto simp: before_executor_def Let_def)
  ultimately show ?thesis by auto
qed

text \<open>An environment in which every call succeeds.\<close>

definition sample_env :: "(unit, unit) cli_env" where
  "sample_env = \<lparr>ce_runner = Ok \<lparr>rn_spec = development_config, rn_base_path = ''/data'',
       rn_database_path = Some ''/data/db'', rn_node = sample_node\<rparr>,
     ce_sdk = sample_sdk, ce_command = (\<lambda>_ _. Ok ()), ce_parse_relay = (\<lambda>_. ()),
     ce_relay_config = (\<lambda>_. Ok ()), ce_executable_name = ''node'', ce_from_json_file = (\<lambda>_. Panic),
     ce_gather = (\<lambda>_. ()), ce_benchmarks = False\<rparr>"

definition sample_cli :: cli where
  "sample_cli = \<lparr>cl_subcommand = None, cl_no_hardware_benchmarks = True, cl_relay_chain_args = []\<rparr>"

lemma sample_run: "run sample_env sample_cli = (Ok (), snd (run sample_env sample_cli))"
proof -
  have "fst (start_parachain_node sample_sdk sample_node 1000 None) = Ok ()"
    using sample_start by (metis fst_conv)
  then show ?thesis
    by (simp add: run_def create_runner_def run_node_def sample_env_def sample_cli_def followed_def quiet_def
        map_error_def hardware_benchmark_def started_def node_para_id_def development_config_def
        polkadot_config_def case_prod_beta prod_eq_iff ok_or_def)
qed

end
