(* ===== verification/Runtime_Limits.thy ===== *)
theory Runtime_Limits
  imports Runtime_Genesis
begin

text \<open>
  Weights, block limits and the parameters of the runtime: the constants of
  \<open>runtime/src/lib.rs\<close>, the weights of \<open>runtime/src/weights\<close>, the parameter blocks of
  \<open>runtime/src/configs/mod.rs\<close>, \<open>contracts.rs\<close>, \<open>revive.rs\<close> and \<open>xcm.rs\<close>, and the order of
  the pallets. The numbers and the arithmetic that the code takes from the SDK are the
  record \<open>sdk_numbers\<close>; \<open>sdk_numbers_ok\<close> states their documented values.
\<close>

section \<open>Weights\<close>

record weight =
  ref_time :: u64
  proof_size :: u64

definition from_parts :: "u64 \<Rightarrow> u64 \<Rightarrow> weight" where
  "from_parts r p = \<lparr>ref_time = r, proof_size = p\<rparr>"

definition saturating_mul :: "'a::len word \<Rightarrow> 'a word \<Rightarrow> 'a word" where
  "saturating_mul a b = (if unat a * unat b < 2 ^ LENGTH('a) then a * b else - 1)"

definition weight_saturating_div :: "weight \<Rightarrow> u64 \<Rightarrow> weight" where
  "weight_saturating_div w n = from_parts (ref_time w div n) (proof_size w div n)"

definition weight_le :: "weight \<Rightarrow> weight \<Rightarrow> bool" where
  "weight_le a b \<longleftrightarrow> ref_time a \<le> ref_time b \<and> proof_size a \<le> proof_size b"

text \<open>
  A \<open>Perbill\<close> is its number of billionths; \<open>sn_mul\<close> is its product with an integer, which
  rounds to the nearest.
\<close>

record sdk_numbers =
  sn_per_second :: u64
  sn_per_millis :: u64
  sn_per_micros :: u64
  sn_per_nanos :: u64
  sn_max_pov_size :: u32
  sn_mul :: "nat \<Rightarrow> u64 \<Rightarrow> u64"
  sn_block_hash_count :: u32

definition sdk_numbers_ok :: "sdk_numbers \<Rightarrow> bool" where
  "sdk_numbers_ok N \<longleftrightarrow> sn_per_second N = 1000000000000 \<and> sn_per_millis N = 1000000000
     \<and> sn_per_micros N = 1000000 \<and> sn_per_nanos N = 1000
     \<and> (\<forall>p x. p \<le> 1000000000 \<longrightarrow> unat x * p div 1000000000 \<le> unat (sn_mul N p x)
          \<and> unat (sn_mul N p x) \<le> (unat x * p + 999999999) div 1000000000)"

definition weight_mul :: "sdk_numbers \<Rightarrow> nat \<Rightarrow> weight \<Rightarrow> weight" where
  "weight_mul N p w = from_parts (sn_mul N p (ref_time w)) (sn_mul N p (proof_size w))"

definition perbill_from_percent :: "nat \<Rightarrow> nat" where
  "perbill_from_percent x = min x 100 * 10000000"

definition block_execution_weight :: "sdk_numbers \<Rightarrow> weight" where
  "block_execution_weight N = from_parts (saturating_mul (sn_per_nanos N) 5000000) 0"

definition extrinsic_base_weight :: "sdk_numbers \<Rightarrow> weight" where
  "extrinsic_base_weight N = from_parts (saturating_mul (sn_per_nanos N) 125000) 0"

record db_weight =
  db_read :: u64
  db_write :: u64

definition rocks_db_weight :: "sdk_numbers \<Rightarrow> db_weight" where
  "rocks_db_weight N = \<lparr>db_read = 25000 * sn_per_nanos N, db_write = 100000 * sn_per_nanos N\<rparr>"

definition parity_db_weight :: "sdk_numbers \<Rightarrow> db_weight" where
  "parity_db_weight N = \<lparr>db_read = 8000 * sn_per_nanos N, db_write = 50000 * sn_per_nanos N\<rparr>"

section \<open>Blocks\<close>

definition SLOT_DURATION :: u64 where "SLOT_DURATION = MILLISECS_PER_BLOCK"
definition AVERAGE_ON_INITIALIZE_RATIO :: nat where "AVERAGE_ON_INITIALIZE_RATIO = perbill_from_percent 5"
definition NORMAL_DISPATCH_RATIO :: nat where "NORMAL_DISPATCH_RATIO = perbill_from_percent 75"

definition MAXIMUM_BLOCK_WEIGHT :: "sdk_numbers \<Rightarrow> weight" where
  "MAXIMUM_BLOCK_WEIGHT N = from_parts (saturating_mul (sn_per_second N) 2) (ucast (sn_max_pov_size N))"

definition UNINCLUDED_SEGMENT_CAPACITY :: u32 where "UNINCLUDED_SEGMENT_CAPACITY = 3"
definition BLOCK_PROCESSING_VELOCITY :: u32 where "BLOCK_PROCESSING_VELOCITY = 1"
definition RELAY_CHAIN_SLOT_DURATION_MILLIS :: u32 where "RELAY_CHAIN_SLOT_DURATION_MILLIS = 6000"

text \<open>What the builder of the block weights is told, per dispatch class.\<close>

datatype dispatch_class = Normal | Operational | Mandatory

record class_weights =
  cw_base_extrinsic :: weight
  cw_max_total :: "weight option"
  cw_reserved :: "weight option"

record block_weights =
  bw_base_block :: weight
  bw_class :: "dispatch_class \<Rightarrow> class_weights"
  bw_avg_initialization :: nat

definition weight_minus :: "weight \<Rightarrow> weight \<Rightarrow> weight" where
  "weight_minus a b = from_parts (ref_time a - ref_time b) (proof_size a - proof_size b)"

definition runtime_block_weights :: "sdk_numbers \<Rightarrow> block_weights" where
  "runtime_block_weights N =
     (let all = \<lparr>cw_base_extrinsic = extrinsic_base_weight N, cw_max_total = None, cw_reserved = None\<rparr>;
          normal = weight_mul N NORMAL_DISPATCH_RATIO (MAXIMUM_BLOCK_WEIGHT N)
      in \<lparr>bw_base_block = block_execution_weight N,
          bw_class = (\<lambda>c. case c of
             Normal \<Rightarrow> all\<lparr>cw_max_total := Some normal\<rparr>
           | Operational \<Rightarrow> all\<lparr>cw_max_total := Some (MAXIMUM_BLOCK_WEIGHT N),
               cw_reserved := Some (weight_minus (MAXIMUM_BLOCK_WEIGHT N) normal)\<rparr>
           | Mandatory \<Rightarrow> all),
          bw_avg_initialization = AVERAGE_ON_INITIALIZE_RATIO\<rparr>)"

text \<open>The arguments of \<open>BlockLength::max_with_normal_ratio\<close>.\<close>

definition runtime_block_length :: "u32 \<times> nat" where
  "runtime_block_length = (5 * 1024 * 1024, NORMAL_DISPATCH_RATIO)"

definition reserved_xcmp_weight :: "sdk_numbers \<Rightarrow> weight" where
  "reserved_xcmp_weight N = weight_saturating_div (MAXIMUM_BLOCK_WEIGHT N) 4"

definition reserved_dmp_weight :: "sdk_numbers \<Rightarrow> weight" where
  "reserved_dmp_weight N = weight_saturating_div (MAXIMUM_BLOCK_WEIGHT N) 4"

definition message_queue_service_weight :: "sdk_numbers \<Rightarrow> weight \<Rightarrow> weight" where
  "message_queue_service_weight N max_block = weight_mul N (perbill_from_percent 35) max_block"

section \<open>Parameters of the pallets\<close>

definition TransactionByteFee :: balance where "TransactionByteFee = 10 * MICROUNIT"
definition Period :: u32 where "Period = 6 * HOURS"
definition Offset :: u32 where "Offset = 0"
definition SessionLength :: block_number where "SessionLength = 6 * HOURS"

record election_params =
  el_desired_members :: u32
  el_desired_runners_up :: u32
  el_max_voters :: u32
  el_max_votes_per_voter :: u32
  el_term_duration :: block_number
  el_max_candidates :: u32
  el_candidacy_bond :: balance
  el_voting_bond_base :: balance
  el_voting_bond_factor :: balance

definition election_parameters :: election_params where
  "election_parameters = \<lparr>el_desired_members = 10, el_desired_runners_up = 10,
     el_max_voters = 10 * 1000, el_max_votes_per_voter = 16, el_term_duration = 5,
     el_max_candidates = 1000, el_candidacy_bond = MICROUNIT, el_voting_bond_base = MICROUNIT,
     el_voting_bond_factor = MICROUNIT\<rparr>"

text \<open>
  What the runtime gives the elections pallet: two of the parameters are configured as \<open>()\<close>,
  which reads as zero, instead of the declared constants.
\<close>

definition election_config :: election_params where
  "election_config = election_parameters\<lparr>el_desired_runners_up := 0, el_max_votes_per_voter := 0\<rparr>"

record collator_params =
  cp_max_candidates :: u32
  cp_min_eligible_collators :: u32
  cp_max_invulnerables :: u32
  cp_kick_threshold :: block_number

definition collator_config :: collator_params where
  "collator_config = \<lparr>cp_max_candidates = 100, cp_min_eligible_collators = 4,
     cp_max_invulnerables = 20, cp_kick_threshold = Period\<rparr>"

record version_params =
  rv_spec_name :: string
  rv_impl_name :: string
  rv_authoring_version :: u32
  rv_spec_version :: u32
  rv_impl_version :: u32
  rv_transaction_version :: u32
  rv_state_version :: byte

definition VERSION :: version_params where
  "VERSION = \<lparr>rv_spec_name = ''parachain-template-runtime'', rv_impl_name = ''parachain-template-runtime'',
     rv_authoring_version = 1, rv_spec_version = 1, rv_impl_version = 0, rv_transaction_version = 1,
     rv_state_version = 1\<rparr>"

record deposit_params =
  dp_per_item :: balance
  dp_per_byte :: balance
  dp_default_limit :: balance
  dp_code_hash_lockup :: nat
  dp_max_delegate_dependencies :: u32

definition contracts_deposits :: deposit_params where
  "contracts_deposits = \<lparr>dp_per_item = deposit 1 0, dp_per_byte = deposit 0 1,
     dp_default_limit = deposit 1024 (1024 * 1024), dp_code_hash_lockup = perbill_from_percent 0,
     dp_max_delegate_dependencies = 32\<rparr>"

text \<open>\<open>revive.rs\<close> has units and a deposit function of its own.\<close>

definition revive_deposit :: "u32 \<Rightarrow> u32 \<Rightarrow> balance" where
  "revive_deposit items bytes =
     (ucast items * 1000000000000 + ucast bytes * (5 * 1000000000 div 100)) div 10"

definition revive_deposits :: deposit_params where
  "revive_deposits = \<lparr>dp_per_item = revive_deposit 1 0, dp_per_byte = revive_deposit 0 1,
     dp_default_limit = revive_deposit 1024 (1024 * 1024), dp_code_hash_lockup = perbill_from_percent 0,
     dp_max_delegate_dependencies = 32\<rparr>"

text \<open>The memory limits of the contracts schedule: the runtime's and the validator's.\<close>

definition schedule_limits :: "nat \<times> nat" where
  "schedule_limits = (1024 * 1024 * 1024, 1024 * 1024 * 1024 * 2)"

text \<open>The call depth of a contract, and its limits in bytes.\<close>

definition contracts_call_stack :: nat where "contracts_call_stack = 23"

record contract_limits =
  cl_max_code_len :: u32
  cl_max_storage_key_len :: u32
  cl_max_transient_storage :: u32
  cl_max_debug_buffer_len :: u32
  cl_unsafe_unstable :: bool

definition contracts_limits :: contract_limits where
  "contracts_limits = \<lparr>cl_max_code_len = 256 * 1024, cl_max_storage_key_len = 128,
     cl_max_transient_storage = 1024 * 1024, cl_max_debug_buffer_len = 2 * 1024 * 1024,
     cl_unsafe_unstable = True\<rparr>"

record revive_limits =
  rl_max_code_len :: u32
  rl_runtime_memory :: u32
  rl_pvf_memory :: u32
  rl_unsafe_unstable :: bool

definition revive_config :: revive_limits where
  "revive_config = \<lparr>rl_max_code_len = 128 * 1024, rl_runtime_memory = 128 * 1024 * 1024,
     rl_pvf_memory = 512 * 1024 * 1024, rl_unsafe_unstable = True\<rparr>"

datatype balances_call = Transfer_allow_death | Other_balances_call
datatype runtime_call = Call_balances balances_call | Call_other

definition contracts_call_filter :: "runtime_call \<Rightarrow> bool" where
  "contracts_call_filter call = (case call of Call_balances Transfer_allow_death \<Rightarrow> True | _ \<Rightarrow> False)"

definition revive_call_filter :: "runtime_call \<Rightarrow> bool" where
  "revive_call_filter call = (case call of Call_balances Transfer_allow_death \<Rightarrow> True | _ \<Rightarrow> False)"

definition dummy_random :: "bytes \<Rightarrow> h256 \<times> block_number" where
  "dummy_random subject = (0, 0)"

definition unit_weight_cost :: weight where
  "unit_weight_cost = from_parts 1000000000 (64 * 1024)"

section \<open>The pallets of the runtime\<close>

definition runtime_pallets :: "(nat \<times> string) list" where
  "runtime_pallets =
     [(0, ''System''), (1, ''ParachainSystem''), (2, ''Timestamp''), (3, ''ParachainInfo''),
      (10, ''Balances''), (11, ''TransactionPayment''), (15, ''Sudo''),
      (20, ''Authorship''), (21, ''CollatorSelection''), (22, ''Session''), (23, ''Aura''),
      (24, ''AuraExt''), (30, ''XcmpQueue''), (31, ''PolkadotXcm''), (32, ''CumulusXcm''),
      (33, ''MessageQueue''), (40, ''Contracts''), (41, ''Revive''), (42, ''OcwPallet''),
      (43, ''WasmStorePallet''), (44, ''PalletElection'')]"

section \<open>Properties\<close>

text \<open>The pallets have pairwise different indices and names, in the order of the indices.\<close>

lemma runtime_pallets_distinct:
  "distinct (map fst runtime_pallets)" "distinct (map snd runtime_pallets)"
  "sorted (map fst runtime_pallets)"
  by (simp_all add: runtime_pallets_def)

text \<open>The sanity conditions that the weight files test: base weights and database weights.\<close>

lemma weights_sane:
  assumes "sdk_numbers_ok N"
  shows "100 * sn_per_micros N \<le> ref_time (block_execution_weight N)"
    "ref_time (block_execution_weight N) \<le> 50 * sn_per_millis N"
    "10 * sn_per_micros N \<le> ref_time (extrinsic_base_weight N)"
    "ref_time (extrinsic_base_weight N) \<le> sn_per_millis N"
    "sn_per_micros N \<le> db_read (rocks_db_weight N)" "db_write (rocks_db_weight N) \<le> sn_per_millis N"
    "sn_per_micros N \<le> db_read (parity_db_weight N)" "db_write (parity_db_weight N) \<le> sn_per_millis N"
  using assms
  by (simp_all add: sdk_numbers_ok_def block_execution_weight_def extrinsic_base_weight_def
      rocks_db_weight_def parity_db_weight_def from_parts_def saturating_mul_def)

text \<open>The two copies of the deposit function and of the call filter agree.\<close>

lemma deposit_copies_agree: "revive_deposit = deposit" "revive_deposits = contracts_deposits"
  by (simp_all add: revive_deposit_def deposit_def UNIT_def MILLIUNIT_def revive_deposits_def
      contracts_deposits_def fun_eq_iff)

lemma call_filters_agree: "contracts_call_filter = revive_call_filter"
  by (simp add: contracts_call_filter_def revive_call_filter_def fun_eq_iff)

text \<open>A ratio of at most one does not enlarge a weight.\<close>

lemma sn_mul_le: "sdk_numbers_ok N \<Longrightarrow> p \<le> 1000000000 \<Longrightarrow> sn_mul N p x \<le> x"
proof -
  assume N: "sdk_numbers_ok N" "p \<le> 1000000000"
  then have "unat (sn_mul N p x) \<le> (unat x * p + 999999999) div 1000000000"
    by (simp add: sdk_numbers_ok_def)
  also have "\<dots> \<le> (unat x * 1000000000 + 999999999) div 1000000000"
    using N(2) by (intro div_le_mono) simp
  also have "\<dots> = unat x" by simp
  finally show ?thesis by (simp add: word_le_nat_alt)
qed

text \<open>
  Operational extrinsics keep a reserve: what normal ones may use and the reserve make up
  the whole block, the normal share does not exceed it, and the reserve is a quarter of the
  block up to one unit of rounding.
\<close>

lemma operational_reserve:
  assumes "sdk_numbers_ok N"
  defines "full \<equiv> MAXIMUM_BLOCK_WEIGHT N"
    and "normal \<equiv> the (cw_max_total (bw_class (runtime_block_weights N) Normal))"
    and "reserve \<equiv> the (cw_reserved (bw_class (runtime_block_weights N) Operational))"
  shows "weight_le normal full"
    and "ref_time normal + ref_time reserve = ref_time full"
    and "proof_size normal + proof_size reserve = proof_size full"
  using sn_mul_le [OF assms(1), of "750000000"]
  by (simp_all add: runtime_block_weights_def Let_def full_def normal_def reserve_def weight_mul_def
      weight_minus_def from_parts_def weight_le_def NORMAL_DISPATCH_RATIO_def perbill_from_percent_def)

text \<open>
  The elections pallet is configured with other numbers than the declared parameters: no
  account may vote for anybody, and there are no runners-up.
\<close>

lemma election_config_differs:
  "el_max_votes_per_voter election_parameters = 16" "el_max_votes_per_voter election_config = 0"
  "el_desired_runners_up election_parameters = 10" "el_desired_runners_up election_config = 0"
  by (simp_all add: election_config_def election_parameters_def)

text \<open>Collators are kicked after a multiple of a session, and candidates can cover the minimum.\<close>

lemma collator_config_consistent:
  "unat SessionLength dvd unat (cp_kick_threshold collator_config)"
  "cp_min_eligible_collators collator_config \<le> cp_max_candidates collator_config"
  by (simp_all add: collator_config_def SessionLength_def Period_def)

text \<open>
  The fee for the base weight of an extrinsic, by the polynomial of \<open>weight_to_fee\<close>: one
  microunit, a thousandth of a milliunit, where the comment in the code promises a tenth of one.
\<close>

lemma base_weight_fee:
  assumes "sdk_numbers_ok N" and "\<And>p q. perbill p q = unat p * 1000000000 div unat q"
  shows "\<exists>c. weight_to_fee perbill (ref_time (extrinsic_base_weight N)) = [c]
     \<and> fc_integer c = 0
     \<and> unat (ref_time (extrinsic_base_weight N)) * fc_frac c div 1000000000 = unat MICROUNIT"
  using assms
  by (simp add: weight_to_fee_def Let_def MILLIUNIT_def MICROUNIT_def extrinsic_base_weight_def
      sdk_numbers_ok_def from_parts_def saturating_mul_def unat_div unat_mod)

end
