(* ===== verification/Runtime_Apis.thy ===== *)
theory Runtime_Apis
  imports Runtime_Limits
begin

text \<open>
  What the runtime offers to its node: the signing of the off-chain workers' transactions
  (\<open>create_transaction\<close>, twice in \<open>runtime/src/configs/mod.rs\<close>) and the calls of
  \<open>runtime/src/apis.rs\<close> that fill in defaults. The extensions, the signature scheme and the
  contract pallets are third-party: parameters.
\<close>

section \<open>Signed transactions of the off-chain workers\<close>

text \<open>The tuple \<open>SignedExtra\<close>, with the data of the extensions that carry any.\<close>

datatype 'era signed_extension =
    CheckNonZeroSender | CheckSpecVersion | CheckTxVersion | CheckGenesis | CheckEra 'era
  | CheckNonce u32 | CheckWeight | ChargeTransactionPayment balance | StorageWeightReclaim
  | CheckMetadataHash bool

type_synonym 'era signed_extra = "'era signed_extension list"

text \<open>
  \<open>sg_mortal\<close> is \<open>Era::mortal\<close>; \<open>sg_payload\<close> is \<open>SignedPayload::new\<close>, which adds to call
  and extensions the data that every extension contributes to what is signed, or fails;
  \<open>sg_sign\<close> encodes a payload and signs it with the key.
\<close>

record ('call, 'era, 'add, 'pub, 'sig) signing =
  sg_block_hash_count :: u32
  sg_mortal :: "u64 \<Rightarrow> u64 \<Rightarrow> 'era"
  sg_payload :: "'call \<Rightarrow> 'era signed_extra \<Rightarrow> (string, 'call \<times> 'era signed_extra \<times> 'add) outcome"
  sg_sign :: "'call \<times> 'era signed_extra \<times> 'add \<Rightarrow> 'pub \<Rightarrow> 'sig option"

definition ocw_create_transaction ::
  "('call, 'era, 'add, 'pub, 'sig) signing \<Rightarrow> block_number \<Rightarrow> 'call \<Rightarrow> 'pub \<Rightarrow> account \<Rightarrow> u32
    \<Rightarrow> ('call \<times> account \<times> 'sig \<times> 'era signed_extra) option" where
  "ocw_create_transaction G block_number call public account nonce =
     (let period = ucast (sg_block_hash_count G);
          current_block = (if (ucast block_number :: u64) = 0 then 0 else ucast block_number - 1);
          tip = 0;
          extra = [CheckNonZeroSender, CheckSpecVersion, CheckTxVersion, CheckGenesis,
            CheckEra (sg_mortal G period current_block), CheckNonce nonce, CheckWeight,
            ChargeTransactionPayment tip, StorageWeightReclaim, CheckMetadataHash True]
      in case sg_payload G call extra of
           Ok raw_payload \<Rightarrow>
             (case sg_sign G raw_payload public of
                None \<Rightarrow> None
              | Some signature \<Rightarrow>
                  (case raw_payload of (call, extra, _) \<Rightarrow> Some (call, account, signature, extra)))
         | _ \<Rightarrow> None)"

definition ws_create_transaction ::
  "('call, 'era, 'add, 'pub, 'sig) signing \<Rightarrow> block_number \<Rightarrow> 'call \<Rightarrow> 'pub \<Rightarrow> account \<Rightarrow> u32
    \<Rightarrow> ('call \<times> account \<times> 'sig \<times> 'era signed_extra) option" where
  "ws_create_transaction G block_number call public account nonce =
     (let period = ucast (sg_block_hash_count G);
          current_block = (if (ucast block_number :: u64) = 0 then 0 else ucast block_number - 1);
          tip = 0;
          extra = [CheckNonZeroSender, CheckSpecVersion, CheckTxVersion, CheckGenesis,
            CheckEra (sg_mortal G period current_block), CheckNonce nonce, CheckWeight,
            ChargeTransactionPayment tip, StorageWeightReclaim, CheckMetadataHash True]
      in case sg_payload G call extra of
           Ok raw_payload \<Rightarrow>
             (case sg_sign G raw_payload public of
                None \<Rightarrow> None
              | Some signature \<Rightarrow>
                  (case raw_payload of (call, extra, _) \<Rightarrow> Some (call, account, signature, extra)))
         | _ \<Rightarrow> None)"

text \<open>The two copies agree.\<close>

lemma create_transaction_copies_agree: "ws_create_transaction = ocw_create_transaction"
  by (simp add: fun_eq_iff ws_create_transaction_def ocw_create_transaction_def)

text \<open>
  What a created transaction carries, given that a payload keeps the call and the extensions
  it is made of: the call, the address and the nonce asked for, no tip, and a signature over
  exactly the call and the extensions that are sent.
\<close>

lemma created_transaction:
  assumes payload: "\<And>k x k' x' add. sg_payload G k x = Ok (k', x', add) \<Longrightarrow> k' = k \<and> x' = x"
    and made: "ocw_create_transaction G n call public account nonce = Some (c, a, sig, extra)"
  shows "c = call \<and> a = account \<and> CheckNonce nonce \<in> set extra
    \<and> ChargeTransactionPayment 0 \<in> set extra \<and> CheckMetadataHash True \<in> set extra
    \<and> (\<exists>add. sg_payload G call extra = Ok (call, extra, add)
         \<and> sg_sign G (call, extra, add) public = Some sig)"
proof -
  define era where "era = sg_mortal G (ucast (sg_block_hash_count G))
    (if (ucast n :: u64) = 0 then 0 else ucast n - 1)"
  define e where "e = [CheckNonZeroSender, CheckSpecVersion, CheckTxVersion, CheckGenesis,
    CheckEra era, CheckNonce nonce, CheckWeight, ChargeTransactionPayment 0, StorageWeightReclaim,
    CheckMetadataHash True]"
  have made': "(case sg_payload G call e of
      Ok p \<Rightarrow> (case sg_sign G p public of None \<Rightarrow> None
        | Some s \<Rightarrow> (case p of (k, x, _) \<Rightarrow> Some (k, account, s, x))) | _ \<Rightarrow> None)
    = Some (c, a, sig, extra)"
    using made by (simp add: ocw_create_transaction_def Let_def e_def era_def)
  then obtain add where add: "sg_payload G call e = Ok (call, e, add)"
    using payload [of call e] by (cases "sg_payload G call e") (auto split: option.splits prod.splits)
  with made' have "sg_sign G (call, e, add) public = Some sig \<and> c = call \<and> a = account \<and> extra = e"
    by (auto split: option.splits)
  with add show ?thesis by (auto simp: e_def)
qed

text \<open>
  The extension for the metadata hash is always switched on. In a runtime that is built
  without the hash (\<open>build.rs\<close> embeds it only under the feature \<open>metadata-hash\<close>) the data it
  contributes cannot be computed, and the worker's signed transactions are never created.
\<close>

lemma no_transaction_without_metadata_hash:
  assumes "\<And>k x k' x' add. sg_payload G k x = Ok (k', x', add) \<Longrightarrow> k' = k \<and> x' = x"
    and "\<And>k x. CheckMetadataHash True \<in> set x \<Longrightarrow> \<exists>e. sg_payload G k x = Err e"
  shows "ocw_create_transaction G n call public account nonce = None"
proof (cases "ocw_create_transaction G n call public account nonce")
  case (Some t)
  then obtain c a sig extra where
    "ocw_create_transaction G n call public account nonce = Some (c, a, sig, extra)"
    by (cases t) auto
  from created_transaction [OF _ this] assms(1)
  obtain add where "CheckMetadataHash True \<in> set extra" "sg_payload G call extra = Ok (call, extra, add)"
    by blast
  with assms(2) [of extra call] show ?thesis by auto
qed

section \<open>Runtime calls\<close>

definition slot_duration :: "(u64 \<Rightarrow> 'd) \<Rightarrow> 'd" where
  "slot_duration from_millis = from_millis SLOT_DURATION"

datatype debug_info = UnsafeDebug | Skip_debug
datatype collect_events = UnsafeCollect | Skip_collect
datatype determinism = Enforced | Relaxed

definition CONTRACTS_DEBUG_OUTPUT :: debug_info where "CONTRACTS_DEBUG_OUTPUT = UnsafeDebug"
definition CONTRACTS_EVENTS :: collect_events where "CONTRACTS_EVENTS = UnsafeCollect"
definition REVIVE_DEBUG_OUTPUT :: debug_info where "REVIVE_DEBUG_OUTPUT = UnsafeDebug"
definition REVIVE_EVENTS :: collect_events where "REVIVE_EVENTS = UnsafeCollect"

text \<open>
  The entry points of a contracts pallet: \<open>'o\<close> is the origin, \<open>'l\<close> the storage limit, \<open>'m\<close>
  what the upload takes after it.
\<close>

record ('o, 'l, 'm, 'code, 'rc, 'ri, 'ru, 'k, 'rg) contracts_pallet =
  bare_call :: "'o \<Rightarrow> account \<Rightarrow> balance \<Rightarrow> weight \<Rightarrow> 'l \<Rightarrow> bytes \<Rightarrow> debug_info \<Rightarrow> collect_events
    \<Rightarrow> determinism option \<Rightarrow> 'rc"
  bare_instantiate :: "'o \<Rightarrow> balance \<Rightarrow> weight \<Rightarrow> 'l \<Rightarrow> 'code \<Rightarrow> bytes \<Rightarrow> bytes \<Rightarrow> debug_info
    \<Rightarrow> collect_events \<Rightarrow> 'ri"
  bare_upload_code :: "'o \<Rightarrow> bytes \<Rightarrow> 'l \<Rightarrow> 'm \<Rightarrow> 'ru"
  pallet_get_storage :: "account \<Rightarrow> 'k \<Rightarrow> 'rg"

type_synonym ('code, 'rc, 'ri, 'ru, 'rg) pallet_contracts =
  "(account, balance option, determinism, 'code, 'rc, 'ri, 'ru, bytes, 'rg) contracts_pallet"

type_synonym ('org, 'code, 'rc, 'ri, 'ru, 'rg) pallet_revive =
  "('org, balance, unit, 'code, 'rc, 'ri, 'ru, bytes, 'rg) contracts_pallet"

definition unwrap_or :: "'a option \<Rightarrow> 'a \<Rightarrow> 'a" where
  "unwrap_or x d = (case x of None \<Rightarrow> d | Some v \<Rightarrow> v)"

definition contracts_call ::
  "('code, 'rc, 'ri, 'ru, 'rg) pallet_contracts \<Rightarrow> weight \<Rightarrow> account \<Rightarrow> account \<Rightarrow> balance
    \<Rightarrow> weight option \<Rightarrow> balance option \<Rightarrow> bytes \<Rightarrow> 'rc" where
  "contracts_call L max_block origin dest value gas_limit storage_deposit_limit input_data =
     bare_call L origin dest value (unwrap_or gas_limit max_block) storage_deposit_limit input_data
       CONTRACTS_DEBUG_OUTPUT CONTRACTS_EVENTS (Some Enforced)"

definition contracts_instantiate ::
  "('code, 'rc, 'ri, 'ru, 'rg) pallet_contracts \<Rightarrow> weight \<Rightarrow> account \<Rightarrow> balance
    \<Rightarrow> weight option \<Rightarrow> balance option \<Rightarrow> 'code \<Rightarrow> bytes \<Rightarrow> bytes \<Rightarrow> 'ri" where
  "contracts_instantiate L max_block origin value gas_limit storage_deposit_limit code data salt =
     bare_instantiate L origin value (unwrap_or gas_limit max_block) storage_deposit_limit code data
       salt CONTRACTS_DEBUG_OUTPUT CONTRACTS_EVENTS"

definition contracts_upload_code ::
  "('code, 'rc, 'ri, 'ru, 'rg) pallet_contracts \<Rightarrow> account \<Rightarrow> bytes \<Rightarrow> balance option
    \<Rightarrow> determinism \<Rightarrow> 'ru" where
  "contracts_upload_code L origin code storage_deposit_limit determinism =
     bare_upload_code L origin code storage_deposit_limit determinism"

definition contracts_get_storage ::
  "('code, 'rc, 'ri, 'ru, 'rg) pallet_contracts \<Rightarrow> account \<Rightarrow> bytes \<Rightarrow> 'rg" where
  "contracts_get_storage L address key = pallet_get_storage L address key"

definition revive_call ::
  "('org, 'code, 'rc, 'ri, 'ru, 'rg) pallet_revive \<Rightarrow> (account \<Rightarrow> 'org) \<Rightarrow> weight \<Rightarrow> account \<Rightarrow> account
    \<Rightarrow> balance \<Rightarrow> weight option \<Rightarrow> balance option \<Rightarrow> bytes \<Rightarrow> 'rc" where
  "revive_call L signed_origin max_block origin dest value gas_limit storage_deposit_limit input_data =
     bare_call L (signed_origin origin) dest value (unwrap_or gas_limit max_block)
       (unwrap_or storage_deposit_limit (- 1)) input_data REVIVE_DEBUG_OUTPUT REVIVE_EVENTS None"

definition revive_instantiate ::
  "('org, 'code, 'rc, 'ri, 'ru, 'rg) pallet_revive \<Rightarrow> (account \<Rightarrow> 'org) \<Rightarrow> weight \<Rightarrow> account \<Rightarrow> balance
    \<Rightarrow> weight option \<Rightarrow> balance option \<Rightarrow> 'code \<Rightarrow> bytes \<Rightarrow> bytes \<Rightarrow> 'ri" where
  "revive_instantiate L signed_origin max_block origin value gas_limit storage_deposit_limit code data salt =
     bare_instantiate L (signed_origin origin) value (unwrap_or gas_limit max_block)
       (unwrap_or storage_deposit_limit (- 1)) code data salt REVIVE_DEBUG_OUTPUT REVIVE_EVENTS"

definition revive_upload_code ::
  "('org, 'code, 'rc, 'ri, 'ru, 'rg) pallet_revive \<Rightarrow> (account \<Rightarrow> 'org) \<Rightarrow> account \<Rightarrow> bytes
    \<Rightarrow> balance option \<Rightarrow> 'ru" where
  "revive_upload_code L signed_origin origin code storage_deposit_limit =
     bare_upload_code L (signed_origin origin) code (unwrap_or storage_deposit_limit (- 1)) ()"

definition revive_get_storage ::
  "('org, 'code, 'rc, 'ri, 'ru, 'rg) pallet_revive \<Rightarrow> account \<Rightarrow> bytes \<Rightarrow> 'rg" where
  "revive_get_storage L address key = pallet_get_storage L address key"

text \<open>
  A dry run without a storage limit differs between the two pallets: the contracts pallet is
  told that there is no limit and uses its own default, the revive pallet is told the largest
  balance, which is the same as being told that balance explicitly.
\<close>

lemma revive_default_limit:
  "revive_call L sg mb o' d v g None i = revive_call L sg mb o' d v g (Some (- 1)) i"
  "revive_instantiate L sg mb o' v g None c dt s = revive_instantiate L sg mb o' v g (Some (- 1)) c dt s"
  "revive_upload_code L signed_origin o' bs None = revive_upload_code L signed_origin o' bs (Some (- 1))"
  by (simp_all add: revive_call_def revive_instantiate_def revive_upload_code_def unwrap_or_def)

lemma default_gas_is_whole_block:
  "contracts_call L mb o' d v None lim i = contracts_call L mb o' d v (Some mb) lim i"
  "revive_call R sg mb o' d v None lim i = revive_call R sg mb o' d v (Some mb) lim i"
  by (simp_all add: contracts_call_def revive_call_def unwrap_or_def)

end
