(* ===== verification/Offchain_Worker_Pallet.thy ===== *)
theory Offchain_Worker_Pallet
  imports Offchain_Utils
begin

text \<open>
  \<open>pallets/offchain-worker/src/lib.rs\<close>: a stored block number, and the off-chain worker that
  fetches a page with an API key taken from the node's off-chain database. What the worker
  logs is its only effect, so a run returns what it would log.
\<close>

section \<open>The call\<close>

datatype owp_event = Owp_something_stored block_number account

record owp_state =
  owp_something :: "block_number option"
  owp_events :: "owp_event list"

text \<open>The pallet's error type has no constructor; a call fails only by its origin.\<close>

datatype owp_error = Owp_no_error

definition owp_do_something ::
  "origin \<Rightarrow> u32 \<Rightarrow> owp_state \<Rightarrow> (owp_error dispatch_error, owp_state) outcome" where
  "owp_do_something orig bn s =
     and_then (ensure_signed orig) (\<lambda>who.
     Ok (s\<lparr>owp_something := Some bn,
           owp_events := owp_events s @ [Owp_something_stored bn who]\<rparr>))"

section \<open>The worker\<close>

definition get_api_key :: "offchain_db \<Rightarrow> (string, rust_string) outcome" where
  "get_api_key db =
     (case fetch_api_key_for_request (ascii ''api_key'') db of
        Ok key \<Rightarrow> Ok key
      | Err err \<Rightarrow> Err ''API key not found in offchain storage''
      | Panic \<Rightarrow> Panic)"

datatype owp_log =
    Key_missing
  | Got_response rust_string
  | Fetch_failed string

definition owp_request :: "rust_string \<Rightarrow> http_request" where
  "owp_request api_key =
     add_header (new_request (ascii ''https://postman-echo.com/basic-auth''))
       (ascii ''Authorization'') api_key"

text \<open>
  The subtraction \<open>block_number - 1\<close> for the parent hash wraps in a release build; only a
  log line uses it. \<open>None\<close> as the block means that the run returned before it.
\<close>

definition owp_offchain_worker ::
  "(http_call \<Rightarrow> http_reply) \<Rightarrow> u64 \<Rightarrow> block_number \<Rightarrow> offchain_db
     \<Rightarrow> (string, owp_log \<times> block_number option) outcome" where
  "owp_offchain_worker net now block_number db =
     (case get_api_key db of
        Panic \<Rightarrow> Panic
      | Err e \<Rightarrow> Ok (Key_missing, None)
      | Ok api_key \<Rightarrow>
          (case fetch_string net now (owp_request api_key) of
             Ok response \<Rightarrow> Ok (Got_response response, Some (block_number - 1))
           | Err e \<Rightarrow> Ok (Fetch_failed e, Some (block_number - 1))
           | Panic \<Rightarrow> Panic))"

section \<open>Properties\<close>

lemma valid_api_key_name: "valid_utf8 (ascii ''api_key'')"
  by (rule valid_utf8_ascii) (simp add: ascii_def)

text \<open>
  The worker on every branch: without a stored key it stops before any request; a key
  that is not UTF-8 panics it (the error text promises "missing or invalid"); with a key it
  sends exactly one request, to the fixed page with the key as its only header and a
  deadline two seconds ahead, and a response counts only with status 200 and UTF-8 text.
\<close>

lemma owp_worker_spec:
  "owp_offchain_worker net now n db =
     (case db_get db (ascii ''api_key'') of
        None \<Rightarrow> Ok (Key_missing, None)
      | Some key \<Rightarrow>
          if \<not> valid_utf8 key then Panic
          else Ok (case net \<lparr>call_url = ascii ''https://postman-echo.com/basic-auth'',
                       call_headers = [(ascii ''Authorization'', key)],
                       call_deadline = saturating_add now 2000\<rparr> of
               Replied code body \<Rightarrow>
                 (if code \<noteq> 200 then Fetch_failed ''Non-200 response code received''
                  else if valid_utf8 body then Got_response body
                  else Fetch_failed ''Failed to parse response as UTF-8'')
             | SendFailed \<Rightarrow> Fetch_failed ''Failed to send HTTP request''
             | _ \<Rightarrow> Fetch_failed ''No response received'', Some (n - 1)))"
proof (cases "db_get db (ascii ''api_key'')")
  case None
  then show ?thesis
    by (simp add: owp_offchain_worker_def get_api_key_def fetch_api_key_cases)
next
  case (Some key)
  show ?thesis
  proof (cases "valid_utf8 key")
    case True
    then show ?thesis
      using Some
      by (simp add: owp_offchain_worker_def get_api_key_def fetch_api_key_cases owp_request_def
          new_request_def add_header_def fetch_string_def fetch_def build_call_eq from_utf8_def
          split: http_reply.split)
  next
    case False
    then show ?thesis
      using Some by (simp add: owp_offchain_worker_def get_api_key_def fetch_api_key_cases)
  qed
qed

text \<open>
  A key stored with \<open>store_api_key\<close> is the one the worker uses: after storing a UTF-8
  key, every request the worker sends carries exactly that key.
\<close>

lemma owp_worker_uses_stored_key:
  assumes "valid_utf8 key" and "net = (\<lambda>c. if call_headers c = [(ascii ''Authorization'', key)]
      then Replied 200 page else SendFailed)" and "valid_utf8 page"
  shows "owp_offchain_worker net now n (store_api_key (ascii ''api_key'') key db)
    = Ok (Got_response page, Some (n - 1))"
  using assms
  by (simp add: owp_offchain_worker_def get_api_key_def fetch_store_same owp_request_def
      new_request_def add_header_def fetch_string_def fetch_def build_call_eq)
text \<open>
  The pallet's call stores the number and reports it for every signed origin, refuses
  every other origin, and never panics.
\<close>

lemma owp_do_something_spec:
  "owp_do_something orig bn s =
     (case orig of
        Signed who \<Rightarrow> Ok (s\<lparr>owp_something := Some bn,
                            owp_events := owp_events s @ [Owp_something_stored bn who]\<rparr>)
      | _ \<Rightarrow> Err BadOrigin)"
  by (cases orig) (simp_all add: owp_do_something_def)

end
