(* ===== verification/Template_Pallet.thy ===== *)
theory Template_Pallet
  imports Byte_Views
begin

text \<open>
  \<open>pallets/template/src/lib.rs\<close>: one optional block number in storage, set by
  \<open>do_something\<close> and incremented with an overflow check by \<open>cause_error\<close>.
\<close>

datatype template_error = NoneValue | StorageOverflow

datatype template_event = SomethingStored block_number account

record template_state =
  something :: "block_number option"
  template_events :: "template_event list"

definition do_something ::
  "origin \<Rightarrow> u32 \<Rightarrow> template_state \<Rightarrow> (template_error dispatch_error, template_state) outcome" where
  "do_something orig bn s =
     and_then (ensure_signed orig) (\<lambda>who.
       Ok (s\<lparr>something := Some bn,
             template_events := template_events s @ [SomethingStored bn who]\<rparr>))"

definition cause_error ::
  "origin \<Rightarrow> template_state \<Rightarrow> (template_error dispatch_error, template_state) outcome" where
  "cause_error orig s =
     and_then (ensure_signed orig) (\<lambda>who.
       case something s of
         None \<Rightarrow> Err (ModuleError NoneValue)
       | Some old \<Rightarrow>
           and_then (ok_or (ModuleError StorageOverflow) (checked_add old 1))
             (\<lambda>n. Ok (s\<lparr>something := Some n\<rparr>)))"

datatype template_call = Do_something origin u32 | Cause_error origin

fun template_dispatch ::
  "template_call \<Rightarrow> template_state \<Rightarrow> (template_error dispatch_error, template_state) outcome" where
  "template_dispatch (Do_something orig bn) = do_something orig bn"
| "template_dispatch (Cause_error orig) = cause_error orig"

section \<open>Properties of the calls\<close>

text \<open>The pallet's tests (\<open>tests.rs\<close>), replayed.\<close>

lemma replayed_tests:
  "\<exists>s'. do_something (Signed 1) 42 s = Ok s' \<and> something s' = Some 42"
  "something s = None \<Longrightarrow> cause_error (Signed 1) s = Err (ModuleError NoneValue)"
  by (simp_all add: do_something_def cause_error_def)

lemma cause_error_Ok_iff:
  "cause_error orig s = Ok s' \<longleftrightarrow>
     (\<exists>who n. orig = Signed who \<and> something s = Some n \<and> n \<noteq> - 1
        \<and> s' = s\<lparr>something := Some (n + 1)\<rparr>)"
proof -
  have "unat n + 1 < 2 ^ 32 \<longleftrightarrow> n \<noteq> - 1" for n :: u32
    using unsigned_less [of n, where 'a = nat]
    by (auto simp: unsigned_minus_1_eq_mask mask_eq_exp_minus_1 word_unat_eq_iff)
  then show ?thesis
    by (auto simp: cause_error_def checked_add_Some outcome_simps split: option.splits)
qed

lemma template_no_panic: "template_dispatch c s \<noteq> Panic"
  by (cases c) (auto simp: do_something_def cause_error_def outcome_simps split: option.splits)

text \<open>Once a value is stored it is never removed, and events only grow.\<close>

definition template_grows :: "template_state \<Rightarrow> template_state \<Rightarrow> bool" where
  "template_grows s t \<longleftrightarrow>
     (something s \<noteq> None \<longrightarrow> something t \<noteq> None) \<and>
     (\<exists>es. template_events t = template_events s @ es)"

interpretation template: call_relation template_dispatch template_grows
proof
  fix s t u c s'
  show "template_grows s s"
    by (simp add: template_grows_def)
  show "template_grows s t \<Longrightarrow> template_grows t u \<Longrightarrow> template_grows s u"
    by (auto simp: template_grows_def)
  show "template_dispatch c s = Ok s' \<Longrightarrow> template_grows s s'"
    by (cases c)
      (auto simp: template_grows_def do_something_def cause_error_Ok_iff outcome_simps)
qed

text \<open>
  The functional behaviour of repeated increments: \<open>k\<close> calls of \<open>cause_error\<close> after
  storing \<open>n\<close> leave \<open>n + k\<close>, stopping at the largest block number.
\<close>

lemma run_cause_error:
  "something s = Some n \<Longrightarrow>
     something (run_calls template_dispatch (replicate k (Cause_error (Signed who))) s)
       = Some (of_nat (min (unat n + k) (2 ^ 32 - 1)))"
proof (induction k arbitrary: s n)
  case 0
  have "unat n \<le> 2 ^ 32 - 1"
    using unsigned_less [of n, where 'a = nat] by simp
  with 0 show ?case by (simp add: min_absorb1)
next
  case (Suc k)
  let ?s' = "case cause_error (Signed who) s of Ok s' \<Rightarrow> s' | _ \<Rightarrow> s"
  show ?case
  proof (cases "n = - 1")
    case True
    then have n: "unat n = 2 ^ 32 - 1"
      by (simp add: unsigned_minus_1_eq_mask mask_eq_exp_minus_1)
    have "something ?s' = Some n"
      using True Suc.prems cause_error_Ok_iff [of "Signed who" s]
      by (auto split: outcome.split)
    from Suc.IH [OF this] n show ?thesis by simp
  next
    case False
    then have ok: "cause_error (Signed who) s = Ok (s\<lparr>something := Some (n + 1)\<rparr>)"
      using Suc.prems by (simp add: cause_error_Ok_iff)
    have "unat (n + 1) = unat n + 1"
      using False by (rule unat_plus_one)
    with Suc.IH [of "s\<lparr>something := Some (n + 1)\<rparr>" "n + 1"] ok show ?thesis
      by simp
  qed
qed

end
