(* ===== verification/Pallet_Weights.thy ===== *)
theory Pallet_Weights
  imports Runtime_Limits Wasmstore_Props Ocw_Pallet Offchain_Worker_Pallet Template_Pallet
begin

text \<open>
  Weights of the pallets: the generated \<open>weights.rs\<close> of the template, wasmstore and ocw
  pallets, and the weights that the dispatchables declare (\<open>#[pallet::weight(...)]\<close> in their
  \<open>lib.rs\<close>). The arithmetic on weights is that of \<open>sp_weights\<close>; which database weights
  apply is an argument, as in the code (\<open>T::DbWeight\<close> or \<open>RocksDbWeight\<close>).
\<close>

section \<open>Arithmetic\<close>

definition sat_add :: "'a::len word \<Rightarrow> 'a word \<Rightarrow> 'a word" where
  "sat_add a b = (if unat a + unat b < 2 ^ LENGTH('a) then a + b else - 1)"

definition weight_saturating_add :: "weight \<Rightarrow> weight \<Rightarrow> weight" where
  "weight_saturating_add a b =
     from_parts (sat_add (ref_time a) (ref_time b)) (sat_add (proof_size a) (proof_size b))"

definition weight_add :: "weight \<Rightarrow> weight \<Rightarrow> weight" where
  "weight_add a b = from_parts (ref_time a + ref_time b) (proof_size a + proof_size b)"

definition db_reads :: "db_weight \<Rightarrow> u64 \<Rightarrow> weight" where
  "db_reads D n = from_parts (saturating_mul (db_read D) n) 0"

definition db_writes :: "db_weight \<Rightarrow> u64 \<Rightarrow> weight" where
  "db_writes D n = from_parts (saturating_mul (db_write D) n) 0"

definition db_reads_writes :: "db_weight \<Rightarrow> u64 \<Rightarrow> u64 \<Rightarrow> weight" where
  "db_reads_writes D r w =
     from_parts (sat_add (saturating_mul (db_read D) r) (saturating_mul (db_write D) w)) 0"

section \<open>The generated weights\<close>

text \<open>
  The wasmstore pallet carries an unchanged copy of the template's file. Each file has the
  functions twice, for a runtime's database weights and for those of RocksDB.
\<close>

record template_weights =
  tw_do_something :: weight
  tw_cause_error :: weight

definition template_weight_info :: "db_weight \<Rightarrow> template_weights" where
  "template_weight_info D =
     \<lparr>tw_do_something = weight_saturating_add (from_parts 9000000 0) (db_writes D 1),
      tw_cause_error = weight_saturating_add
        (weight_saturating_add (from_parts 6000000 1489) (db_reads D 1)) (db_writes D 1)\<rparr>"

definition template_weight_unit :: "sdk_numbers \<Rightarrow> template_weights" where
  "template_weight_unit N =
     \<lparr>tw_do_something = weight_saturating_add (from_parts 9000000 0) (db_writes (rocks_db_weight N) 1),
      tw_cause_error = weight_saturating_add
        (weight_saturating_add (from_parts 6000000 1489) (db_reads (rocks_db_weight N) 1))
        (db_writes (rocks_db_weight N) 1)\<rparr>"

definition ws_weight_info :: "db_weight \<Rightarrow> template_weights" where
  "ws_weight_info D =
     \<lparr>tw_do_something = weight_saturating_add (from_parts 9000000 0) (db_writes D 1),
      tw_cause_error = weight_saturating_add
        (weight_saturating_add (from_parts 6000000 1489) (db_reads D 1)) (db_writes D 1)\<rparr>"

definition ws_weight_unit :: "sdk_numbers \<Rightarrow> template_weights" where
  "ws_weight_unit N =
     \<lparr>tw_do_something = weight_saturating_add (from_parts 9000000 0) (db_writes (rocks_db_weight N) 1),
      tw_cause_error = weight_saturating_add
        (weight_saturating_add (from_parts 6000000 1489) (db_reads (rocks_db_weight N) 1))
        (db_writes (rocks_db_weight N) 1)\<rparr>"

text \<open>The ocw pallet's file is that of another pallet: none of its calls exists here.\<close>

record counter_weights =
  kw_set_counter_value :: weight
  kw_increment :: weight
  kw_decrement :: weight

definition counter_weight_info :: "db_weight \<Rightarrow> counter_weights" where
  "counter_weight_info D =
     \<lparr>kw_set_counter_value = weight_saturating_add (from_parts 6000000 0) (db_writes D 1),
      kw_increment = weight_saturating_add
        (weight_saturating_add (from_parts 15000000 3534) (db_reads D 2)) (db_writes D 2),
      kw_decrement = weight_saturating_add
        (weight_saturating_add (from_parts 14000000 3534) (db_reads D 2)) (db_writes D 2)\<rparr>"

definition counter_weight_unit :: "sdk_numbers \<Rightarrow> counter_weights" where
  "counter_weight_unit N =
     (let D = rocks_db_weight N in
      \<lparr>kw_set_counter_value = weight_saturating_add (from_parts 6000000 0) (db_writes D 1),
       kw_increment = weight_saturating_add
         (weight_saturating_add (from_parts 15000000 3534) (db_reads D 2)) (db_writes D 2),
       kw_decrement = weight_saturating_add
         (weight_saturating_add (from_parts 14000000 3534) (db_reads D 2)) (db_writes D 2)\<rparr>)"

section \<open>The declared weights\<close>

text \<open>A plain number \<open>n\<close> as a weight is \<open>n\<close> picoseconds and no proof.\<close>

fun ws_call_weight :: "ws_call \<Rightarrow> weight" where
  "ws_call_weight (Upload_wasm name typ code abi) = from_parts 0 0"
| "ws_call_weight (Request_script_execution name params) = from_parts 0 0"
| "ws_call_weight (Change_job_state b k) = from_parts 0 0"
| "ws_call_weight (Submit_result_unsiged b k v p t) = from_parts 0 0"
| "ws_call_weight Get_collators_lts = from_parts 0 0"

fun ocw_call_weight :: "db_weight \<Rightarrow> ocw_call \<Rightarrow> weight" where
  "ocw_call_weight D (Stake a) = weight_add (from_parts 10000 0) (db_writes D 1)"
| "ocw_call_weight D Un_stake = weight_add (from_parts 10000 0) (db_writes D 1)"
| "ocw_call_weight D (Slash t a) = from_parts 0 0"
| "ocw_call_weight D Test_acc = from_parts 0 0"
| "ocw_call_weight D (Submit_price p) = from_parts 0 0"
| "ocw_call_weight D (Submit_price_unsigned b p) = from_parts 0 0"
| "ocw_call_weight D (Submit_price_signed_payload p sig) = from_parts 0 0"
| "ocw_call_weight D (Submit_api_url t url) = from_parts 0 0"

definition owp_do_something_weight :: "db_weight \<Rightarrow> weight" where
  "owp_do_something_weight D = weight_add (from_parts 10000 0) (db_writes D 1)"

fun template_call_weight :: "db_weight \<Rightarrow> template_call \<Rightarrow> weight" where
  "template_call_weight D (Do_something orig bn) = weight_add (from_parts 10000 0) (db_writes D 1)"
| "template_call_weight D (Cause_error orig) = weight_add (from_parts 10000 0) (db_reads_writes D 1 1)"

section \<open>What a block accounts\<close>

text \<open>
  The weights that a list of extrinsics declares, with the base weight the runtime
  configures for each extrinsic.
\<close>

definition declared :: "sdk_numbers \<Rightarrow> weight list \<Rightarrow> nat \<times> nat" where
  "declared N ws =
     (\<Sum>w \<leftarrow> ws. unat (ref_time (cw_base_extrinsic (bw_class (runtime_block_weights N) Normal))) + unat (ref_time w),
      \<Sum>w \<leftarrow> ws. unat (proof_size (cw_base_extrinsic (bw_class (runtime_block_weights N) Normal))) + unat (proof_size w))"

text \<open>The bytes of a block that \<open>max_with_normal_ratio\<close> leaves to normal extrinsics.\<close>

definition normal_length :: nat where
  "normal_length = unat (fst runtime_block_length) * snd runtime_block_length div 1000000000"

lemma normal_length: "normal_length = 3932160"
  by (simp add: normal_length_def runtime_block_length_def NORMAL_DISPATCH_RATIO_def perbill_from_percent_def)

lemma normal_ref_time:
  assumes "sdk_numbers_ok N"
  shows "sn_mul N NORMAL_DISPATCH_RATIO (ref_time (MAXIMUM_BLOCK_WEIGHT N)) = 1500000000000"
proof -
  have x: "ref_time (MAXIMUM_BLOCK_WEIGHT N) = 2000000000000"
    using assms by (simp add: sdk_numbers_ok_def MAXIMUM_BLOCK_WEIGHT_def from_parts_def saturating_mul_def)
  have "\<forall>p x. p \<le> 1000000000 \<longrightarrow> unat x * p div 1000000000 \<le> unat (sn_mul N p x)
      \<and> unat (sn_mul N p x) \<le> (unat x * p + 999999999) div 1000000000"
    using assms by (simp add: sdk_numbers_ok_def)
  from this [rule_format, of 750000000 2000000000000]
  have "unat (sn_mul N 750000000 2000000000000) = unat (1500000000000 :: u64)"
    by simp
  then show ?thesis
    by (simp add: x NORMAL_DISPATCH_RATIO_def perbill_from_percent_def word_unat_eq_iff)
qed

lemma base_weight_parts:
  assumes "sdk_numbers_ok N"
  shows "unat (ref_time (extrinsic_base_weight N)) = 125000000" "proof_size (extrinsic_base_weight N) = 0"
  using assms
  by (simp_all add: sdk_numbers_ok_def extrinsic_base_weight_def from_parts_def saturating_mul_def)

lemma ws_call_weight_zero [simp]: "ws_call_weight c = from_parts 0 0"
  by (cases c) simp_all

lemma ws_calls_declared:
  assumes "sdk_numbers_ok N"
  shows "declared N (map ws_call_weight cs) = (length cs * 125000000, 0)"
proof -
  have "cw_base_extrinsic (bw_class (runtime_block_weights N) Normal) = extrinsic_base_weight N"
    by (simp add: runtime_block_weights_def Let_def)
  then show ?thesis
    by (simp add: declared_def base_weight_parts [OF assms] from_parts_def comp_def sum_list_triv)
qed

lemma normal_max_total:
  assumes "sdk_numbers_ok N" "cw_max_total (bw_class (runtime_block_weights N) Normal) = Some m"
  shows "unat (ref_time m) = 1500000000000"
  using assms(2) normal_ref_time [OF assms(1)]
  by (auto simp: runtime_block_weights_def Let_def weight_mul_def from_parts_def)

section \<open>A block of requests\<close>

text \<open>Requests for one script by several accounts, each for a job that is not queued yet.\<close>

definition requests_by :: "rust_string \<Rightarrow> account list \<Rightarrow> ws_step list" where
  "requests_by name whos = map (\<lambda>who. Inr (Signed who, Request_script_execution name None)) whos"

lemma requests_keep_jobs:
  "jobs s h = Some j \<Longrightarrow> jobs (ws_run cfg X collators (requests_by name whos) s) h = Some j"
proof (induction whos arbitrary: s)
  case (Cons who whos)
  let ?st = "Inr (Signed who, Request_script_execution name None)"
  let ?s' = "case ws_exec cfg X collators ?st s of Ok s' \<Rightarrow> s' | _ \<Rightarrow> s"
  have "jobs ?s' h = Some j"
    using Cons.prems ws_exec_job [OF Cons.prems, where st = ?st] by (auto split: outcome.splits)
  from Cons.IH [OF this] show ?case
    by (simp add: requests_by_def)
qed (simp add: requests_by_def)

lemma requests_run:
  assumes "scripts s (script_key X name) = Some d"
    and "length (ws_debug_encode X name) \<le> unat (max_script_key_len cfg)"
    and "length name \<le> unat (max_string_size cfg)"
    and "distinct (map (\<lambda>who. job_key X (new_job who name d)) whos)"
    and "\<forall>who \<in> set whos. jobs s (job_key X (new_job who name d)) = None"
  shows "\<forall>who \<in> set whos. jobs (ws_run cfg X collators (requests_by name whos) s)
     (job_key X (new_job who name d)) = Some (new_job who name d)"
  using assms(1,4,5)
proof (induction whos arbitrary: s)
  case (Cons who whos)
  let ?j = "new_job who name d"
  let ?t = "s\<lparr>jobs := (jobs s)(job_key X ?j \<mapsto> ?j), ws_events := ws_events s @
      [RequestExecution (job_key X ?j) who (ws_block s) name]\<rparr>"
  have "request_script_execution cfg X (Signed who) name None s = Ok ?t"
    using Cons.prems assms(2,3) by (auto simp: request_Ok_iff script_key_def)
  then have run: "ws_run cfg X collators (requests_by name (who # whos)) s =
      ws_run cfg X collators (requests_by name whos) ?t"
    by (simp add: requests_by_def)
  have "\<forall>w \<in> set whos. jobs ?t (job_key X (new_job w name d)) = None"
    using Cons.prems(2,3) by (auto simp: image_iff)
  then have "\<forall>w \<in> set whos. jobs (ws_run cfg X collators (requests_by name whos) ?t)
      (job_key X (new_job w name d)) = Some (new_job w name d)"
    using Cons.prems by (intro Cons.IH) simp_all
  moreover have "jobs (ws_run cfg X collators (requests_by name whos) ?t) (job_key X ?j) = Some ?j"
    by (rule requests_keep_jobs) simp
  ultimately show ?case
    using run by simp
qed simp

text \<open>
  C25: The declared weights do not see what requests cost. For a stored script, up to 12,000
  requests of different accounts stay below the limit of computation that the runtime
  configures for the normal extrinsics of a block and declare no proof size; with at most
  327 bytes each (\<open>xt_len\<close>, the SDK's encoding of the signed extrinsic) they stay below the
  configured limit of length as well. Yet each of them stores one more copy of the script's
  code and interface: whatever the script's size, the queue grows by that many times it.
\<close>

theorem requests_outgrow_block:
  assumes "sdk_numbers_ok N"
    and "scripts s (script_key X name) = Some d"
    and "length (ws_debug_encode X name) \<le> unat (max_script_key_len cfg)"
    and "length name \<le> unat (max_string_size cfg)"
    and "distinct (map (\<lambda>who. job_key X (new_job who name d)) whos)"
    and "\<forall>who \<in> set whos. jobs s (job_key X (new_job who name d)) = None"
    and "length whos \<le> 12000"
    and "\<forall>who \<in> set whos. xt_len who (Request_script_execution name None) \<le> 327"
    and "cw_max_total (bw_class (runtime_block_weights N) Normal) = Some m"
    and "t = ws_run cfg X collators (requests_by name whos) s"
  shows "let weights = declared N (map (\<lambda>who. ws_call_weight (Request_script_execution name None)) whos)
     in fst weights \<le> unat (ref_time m) \<and> snd weights = 0
     \<and> (\<Sum>who \<leftarrow> whos. xt_len who (Request_script_execution name None)) \<le> normal_length
     \<and> (\<Sum>who \<leftarrow> whos. case jobs t (job_key X (new_job who name d)) of None \<Rightarrow> 0
          | Some j \<Rightarrow> length (job_wasm_code j) + length (job_wasm_abi j))
       = length whos * (length (sd_wasm_code d) + length (sd_wasm_abi d))"
proof -
  have "map (\<lambda>who. ws_call_weight (Request_script_execution name None)) whos
      = map ws_call_weight (map (\<lambda>who. Request_script_execution name None) whos)"
    by (simp add: comp_def)
  then have weights: "declared N (map (\<lambda>who. ws_call_weight (Request_script_execution name None)) whos)
      = (length whos * 125000000, 0)"
    using ws_calls_declared [OF assms(1)] by (metis length_map)
  have "(\<Sum>who \<leftarrow> whos. xt_len who (Request_script_execution name None)) \<le> length whos * 327"
    using assms(8) by (induction whos) auto
  then have len: "(\<Sum>who \<leftarrow> whos. xt_len who (Request_script_execution name None)) \<le> normal_length"
    using assms(7) by (simp add: normal_length)
  have "jobs t (job_key X (new_job who name d)) = Some (new_job who name d)" if "who \<in> set whos" for who
    using requests_run [OF assms(2-6)] that by (simp add: assms(10))
  then have "(\<Sum>who \<leftarrow> whos. case jobs t (job_key X (new_job who name d)) of None \<Rightarrow> 0
          | Some j \<Rightarrow> length (job_wasm_code j) + length (job_wasm_abi j))
      = (\<Sum>who \<leftarrow> whos. length (sd_wasm_code d) + length (sd_wasm_abi d))"
    by (intro arg_cong [where f = sum_list] map_cong refl) (simp add: new_job_def)
  then show ?thesis
    unfolding Let_def weights using len assms(7) by (simp add: normal_max_total [OF assms(1,9)] sum_list_triv)
qed

definition sample_numbers :: sdk_numbers where
  "sample_numbers = \<lparr>sn_per_second = 1000000000000, sn_per_millis = 1000000000,
     sn_per_micros = 1000000, sn_per_nanos = 1000, sn_max_pov_size = 5 * 1024 * 1024,
     sn_mul = (\<lambda>p x. of_nat (unat x * p div 1000000000)), sn_block_hash_count = 2400\<rparr>"

lemma sample_numbers_ok: "sdk_numbers_ok sample_numbers"
proof -
  have "unat (of_nat (unat x * p div 1000000000) :: u64) = unat x * p div 1000000000"
    if "p \<le> 1000000000" for x :: u64 and p
  proof (rule unat_of_nat_small)
    have "unat x * p div 1000000000 \<le> unat x * 1000000000 div 1000000000"
      using that by (intro div_le_mono) simp
    then show "unat x * p div 1000000000 < 2 ^ LENGTH(64)"
      using unsigned_less [of x, where 'a = nat] by simp
  qed
  then show ?thesis
    by (auto simp: sdk_numbers_ok_def sample_numbers_def intro!: div_le_mono)
qed

text \<open>
  Twelve thousand accounts, with a hash that tells their jobs apart: of a job it is the
  number of its caller.
\<close>

definition caller_externals :: ws_externals where
  "caller_externals = sample_externals\<lparr>ws_hash := (\<lambda>bs. of_le_bytes (take 32 bs)),
     ws_enc_job := (\<lambda>j. le_bytes 32 (job_caller j))\<rparr>"

lemma caller_job_key [simp]: "job_key caller_externals (new_job who name d) = who"
  by (simp add: job_key_def caller_externals_def new_job_def of_le_bytes_full)

definition one_script :: ws_state where
  "one_script = ws_genesis\<lparr>scripts := [script_key caller_externals [97] \<mapsto>
     uploaded caller_externals 1 [97] Executable (replicate 500000 0) [2] ws_genesis]\<rparr>"

theorem requests_outgrow_block_witness:
  "let d = uploaded caller_externals 1 [97] Executable (replicate 500000 0) [2] ws_genesis;
       whos = map of_nat [0..<12000];
       t = ws_run runtime_ws_config caller_externals [] (requests_by [97] whos) one_script
   in (\<Sum>who \<leftarrow> whos. case jobs t (job_key caller_externals (new_job who [97] d)) of None \<Rightarrow> 0
         | Some j \<Rightarrow> length (job_wasm_code j) + length (job_wasm_abi j)) = 12000 * 500001"
proof -
  let ?X = caller_externals and ?whos = "map of_nat [0..<12000] :: account list"
  let ?d = "uploaded ?X 1 [97] Executable (replicate 500000 0) [2] ws_genesis"
  have "inj_on (of_nat :: nat \<Rightarrow> account) {0..<12000}"
  proof (rule inj_onI)
    fix x y :: nat
    assume xy: "x \<in> {0..<12000}" "y \<in> {0..<12000}" "(of_nat x :: account) = of_nat y"
    have "unat (of_nat n :: account) = n" if "n < 12000" for n
      using that by (intro unat_of_nat_small) simp
    with xy show "x = y" by (metis atLeastLessThan_iff)
  qed
  then have distinct: "distinct (map (\<lambda>who. job_key ?X (new_job who [97] ?d)) ?whos)"
    unfolding caller_job_key map_map comp_def by (simp add: distinct_map)
  have pre: "scripts one_script (script_key ?X [97]) = Some ?d"
      "length (ws_debug_encode ?X [97]) \<le> unat (max_script_key_len runtime_ws_config)"
      "length ([97] :: bytes) \<le> unat (max_string_size runtime_ws_config)"
    by (simp_all add: one_script_def caller_externals_def sample_externals_def runtime_ws_config_def)
  have fresh: "\<forall>who \<in> set ?whos. jobs one_script (job_key ?X (new_job who [97] ?d)) = None"
    by (simp add: one_script_def ws_genesis_def)
  have small: "length ?whos \<le> 12000" "\<forall>who \<in> set ?whos. (\<lambda>_ (_ :: ws_call). 200) who (Request_script_execution [97] None) \<le> (327 :: nat)"
    by simp_all
  obtain m where m: "cw_max_total (bw_class (runtime_block_weights sample_numbers) Normal) = Some m"
    by (simp add: runtime_block_weights_def Let_def)
  have size: "length (sd_wasm_code ?d) + length (sd_wasm_abi ?d) = 500001" "length ?whos = 12000"
    by (simp_all add: uploaded_def)
  from requests_outgrow_block [OF sample_numbers_ok pre distinct fresh small m refl, of "[]"]
  show ?thesis
    unfolding Let_def size by blast
qed

text \<open>The two copies of the generated functions, and of the file, agree.\<close>

lemma weight_files_agree:
  "ws_weight_info = template_weight_info" "ws_weight_unit = template_weight_unit"
  "template_weight_unit N = template_weight_info (rocks_db_weight N)"
  "counter_weight_unit N = counter_weight_info (rocks_db_weight N)"
  by (simp_all add: fun_eq_iff ws_weight_info_def template_weight_info_def ws_weight_unit_def
      template_weight_unit_def counter_weight_unit_def counter_weight_info_def Let_def)

text \<open>
  What the files measured for a call with a single write is never what a call of the
  pallets declares: the wasmstore calls declare nothing, the template's a thousandth of the
  measured computation besides the write.
\<close>

lemma declared_below_measured:
  assumes "sdk_numbers_ok N" and "D = rocks_db_weight N"
  shows "ref_time (ws_call_weight c) = 0" "ref_time (tw_do_something (ws_weight_info D)) = 109000000"
    "ref_time (template_call_weight D (Do_something orig bn)) = 100010000"
    "ref_time (tw_do_something (template_weight_info D)) = 109000000"
  using assms(1)
  by (simp_all add: assms(2) from_parts_def ws_weight_info_def template_weight_info_def sdk_numbers_ok_def
      weight_saturating_add_def weight_add_def sat_add_def db_writes_def saturating_mul_def rocks_db_weight_def)

end
