(* ===== verification/Runtime_Config.thy ===== *)
theory Runtime_Config
  imports Pallet_Weights
begin

text \<open>
  The configuration of the pallets the runtime is made of (\<open>runtime/src/configs/mod.rs\<close>,
  \<open>lib.rs\<close>) and of its cross-chain messages (\<open>xcm.rs\<close>). A configuration names parameters and
  implementations of the SDK; here are the parameters, and for messages the order in which
  the SDK's converters and barriers are tried. Those are fields of records, with their
  documented behaviour as predicates.
\<close>

section \<open>Pallets of the SDK\<close>

record system_params =
  sy_ss58_prefix :: u16
  sy_max_consumers :: u32
  sy_db_weight :: db_weight
  sy_block_weights :: block_weights
  sy_block_length :: "u32 \<times> nat"
  sy_version :: version_params
  sy_block_hash_count :: u32

definition SS58Prefix :: u16 where "SS58Prefix = 42"

definition system_config :: "sdk_numbers \<Rightarrow> system_params" where
  "system_config N =
     \<lparr>sy_ss58_prefix = SS58Prefix, sy_max_consumers = 16, sy_db_weight = rocks_db_weight N,
      sy_block_weights = runtime_block_weights N, sy_block_length = runtime_block_length,
      sy_version = VERSION, sy_block_hash_count = sn_block_hash_count N\<rparr>"

definition timestamp_minimum_period :: u64 where "timestamp_minimum_period = 0"

record balances_params =
  bl_max_locks :: u32
  bl_existential_deposit :: balance
  bl_max_reserves :: u32

definition balances_config :: balances_params where
  "balances_config =
     \<lparr>bl_max_locks = 50, bl_existential_deposit = EXISTENTIAL_DEPOSIT, bl_max_reserves = 50\<rparr>"

record payment_params =
  py_weight_to_fee :: "fee_coefficient list"
  py_length_to_fee :: balance
  py_operational_multiplier :: byte

definition payment_config :: "(balance \<Rightarrow> balance \<Rightarrow> nat) \<Rightarrow> sdk_numbers \<Rightarrow> payment_params" where
  "payment_config perbill N =
     \<lparr>py_weight_to_fee = weight_to_fee perbill (ref_time (extrinsic_base_weight N)),
      py_length_to_fee = TransactionByteFee, py_operational_multiplier = 5\<rparr>"

record message_queue_params =
  mq_heap_size :: u32
  mq_max_stale :: u32
  mq_service_weight :: weight
  mq_idle_max_service_weight :: "weight option"

definition message_queue_config :: "sdk_numbers \<Rightarrow> message_queue_params" where
  "message_queue_config N =
     \<lparr>mq_heap_size = 103 * 1024, mq_max_stale = 8,
      mq_service_weight = message_queue_service_weight N (MAXIMUM_BLOCK_WEIGHT N),
      mq_idle_max_service_weight = None\<rparr>"

record xcmp_queue_params =
  xq_max_inbound_suspended :: u32
  xq_max_active_outbound_channels :: u32
  xq_max_page_size :: u32

definition xcmp_queue_config :: xcmp_queue_params where
  "xcmp_queue_config =
     \<lparr>xq_max_inbound_suspended = 1000, xq_max_active_outbound_channels = 128,
      xq_max_page_size = 103 * 1024\<rparr>"

text \<open>Sessions end, and rotate, periodically: a period and an offset.\<close>

definition session_config :: "block_number \<times> block_number" where
  "session_config = (Period, Offset)"

record aura_config_params =
  au_max_authorities :: u32
  au_multiple_blocks_per_slot :: bool
  au_slot_duration :: u64

definition aura_config :: aura_config_params where
  "aura_config = \<lparr>au_max_authorities = 100000, au_multiple_blocks_per_slot = True,
     au_slot_duration = SLOT_DURATION\<rparr>"

text \<open>The arguments of \<open>FixedVelocityConsensusHook\<close>.\<close>

record consensus_hook_params =
  ch_relay_slot_millis :: u32
  ch_velocity :: u32
  ch_capacity :: u32

definition consensus_hook :: consensus_hook_params where
  "consensus_hook = \<lparr>ch_relay_slot_millis = RELAY_CHAIN_SLOT_DURATION_MILLIS,
     ch_velocity = BLOCK_PROCESSING_VELOCITY, ch_capacity = UNINCLUDED_SEGMENT_CAPACITY\<rparr>"

record parachain_params =
  pa_reserved_dmp :: weight
  pa_reserved_xcmp :: weight
  pa_consensus_hook :: consensus_hook_params

definition parachain_system_config :: "sdk_numbers \<Rightarrow> parachain_params" where
  "parachain_system_config N =
     \<lparr>pa_reserved_dmp = reserved_dmp_weight N, pa_reserved_xcmp = reserved_xcmp_weight N,
      pa_consensus_hook = consensus_hook\<rparr>"

text \<open>
  The numbers fit together: a page of messages fits in the heap of the queue, the collators
  that can be selected are authorities that Aura can hold, a slot is a slot of the relay
  chain, more than one block may wait for inclusion, and the two reserves for messages take
  at most half of a block.
\<close>

lemma pallet_configs_consistent:
  "xq_max_page_size xcmp_queue_config \<le> mq_heap_size (message_queue_config N)"
  "unat (cp_max_candidates collator_config) + unat (cp_max_invulnerables collator_config)
     \<le> unat (au_max_authorities aura_config)"
  "unat (au_slot_duration aura_config) = unat (ch_relay_slot_millis (pa_consensus_hook (parachain_system_config N)))"
  "ch_velocity consensus_hook < ch_capacity consensus_hook"
  "snd session_config < fst session_config"
  by (simp_all add: xcmp_queue_config_def message_queue_config_def collator_config_def aura_config_def
      parachain_system_config_def consensus_hook_def SLOT_DURATION_def MILLISECS_PER_BLOCK_def
      RELAY_CHAIN_SLOT_DURATION_MILLIS_def BLOCK_PROCESSING_VELOCITY_def UNINCLUDED_SEGMENT_CAPACITY_def
      session_config_def Offset_def Period_def HOURS_def MINUTES_def)

lemma message_reserves:
  "2 * (unat (ref_time (pa_reserved_dmp (parachain_system_config N)))
      + unat (ref_time (pa_reserved_xcmp (parachain_system_config N))))
     \<le> unat (ref_time (MAXIMUM_BLOCK_WEIGHT N))"
  by (simp add: parachain_system_config_def reserved_dmp_weight_def reserved_xcmp_weight_def
      weight_saturating_div_def from_parts_def unat_div)

end
