(* ===== verification/Xcm_Config.thy ===== *)
theory Xcm_Config
  imports Runtime_Config
begin

text \<open>
  Cross-chain messages (\<open>runtime/src/configs/xcm.rs\<close>): the account of a location, the origin
  a message is dispatched with, the barrier a message must pass, the filters of the XCM
  pallet, and who may update the collators (\<open>configs/mod.rs\<close>). The converters and barriers
  are the SDK's: fields of records, whose documented behaviour the predicates below state.
\<close>

section \<open>Accounts of locations\<close>

record xcm_converters =
  xc_parent_is_preset :: "xcm_location \<Rightarrow> account option"
  xc_sibling_converts_via :: "xcm_location \<Rightarrow> account option"
  xc_account_id32_aliases :: "xcm_location \<Rightarrow> account option"

fun first_some :: "('a \<Rightarrow> 'b option) list \<Rightarrow> 'a \<Rightarrow> 'b option" where
  "first_some [] x = None"
| "first_some (f # fs) x = (case f x of None \<Rightarrow> first_some fs x | Some y \<Rightarrow> Some y)"

definition location_to_account_id :: "xcm_converters \<Rightarrow> xcm_location \<Rightarrow> account option" where
  "location_to_account_id A =
     first_some [xc_parent_is_preset A, xc_sibling_converts_via A, xc_account_id32_aliases A]"

text \<open>Each converter takes its own shape of location.\<close>

definition converters_documented :: "xcm_converters \<Rightarrow> bool" where
  "converters_documented A \<longleftrightarrow>
     (\<forall>l. xc_parent_is_preset A l \<noteq> None \<longleftrightarrow> loc_parents l = 1 \<and> loc_interior l = [])
     \<and> (\<forall>l. xc_sibling_converts_via A l \<noteq> None \<longleftrightarrow> loc_parents l = 1 \<and> (\<exists>p. loc_interior l = [Parachain p]))
     \<and> (\<forall>l. xc_account_id32_aliases A l \<noteq> None \<longleftrightarrow> loc_parents l = 0 \<and> (\<exists>a. loc_interior l = [Account_id32 a]))"

text \<open>
  Exactly the relay chain, sibling parachains and local accounts own an account here; a body
  of the relay chain or an account on another chain does not.
\<close>

lemma locations_with_account:
  assumes "converters_documented A"
  shows "location_to_account_id A l \<noteq> None \<longleftrightarrow>
     loc_parents l = 1 \<and> (loc_interior l = [] \<or> (\<exists>p. loc_interior l = [Parachain p]))
     \<or> loc_parents l = 0 \<and> (\<exists>a. loc_interior l = [Account_id32 a])"
proof -
  have "location_to_account_id A l \<noteq> None \<longleftrightarrow> xc_parent_is_preset A l \<noteq> None
      \<or> xc_sibling_converts_via A l \<noteq> None \<or> xc_account_id32_aliases A l \<noteq> None"
    by (simp add: location_to_account_id_def split: option.split)
  then show ?thesis
    using assms unfolding converters_documented_def by metis
qed

section \<open>Origins of messages\<close>

datatype origin_kind = Kind_native | Kind_sovereign_account | Kind_superuser | Kind_xcm

datatype runtime_origin =
    Origin_root | Origin_signed account | Origin_relay | Origin_sibling u32 | Origin_xcm xcm_location

type_synonym origin_converter = "xcm_location \<times> origin_kind \<Rightarrow> runtime_origin option"

record xcm_origins =
  xo_sovereign_signed :: "(xcm_location \<Rightarrow> account option) \<Rightarrow> origin_converter"
  xo_relay_as_native :: origin_converter
  xo_sibling_as_native :: origin_converter
  xo_signed_as_native :: origin_converter
  xo_passthrough :: origin_converter

definition xcm_origin :: "xcm_converters \<Rightarrow> xcm_origins \<Rightarrow> origin_converter" where
  "xcm_origin A O1 =
     first_some [xo_sovereign_signed O1 (location_to_account_id A), xo_relay_as_native O1,
       xo_sibling_as_native O1, xo_signed_as_native O1, xo_passthrough O1]"

definition origins_documented :: "xcm_origins \<Rightarrow> bool" where
  "origins_documented O1 \<longleftrightarrow>
     (\<forall>f l k r. xo_sovereign_signed O1 f (l, k) = Some r \<longrightarrow>
        k = Kind_sovereign_account \<and> (\<exists>a. f l = Some a \<and> r = Origin_signed a))
     \<and> (\<forall>l k r. xo_relay_as_native O1 (l, k) = Some r \<longrightarrow>
        k = Kind_native \<and> loc_parents l = 1 \<and> loc_interior l = [] \<and> r = Origin_relay)
     \<and> (\<forall>l k r. xo_sibling_as_native O1 (l, k) = Some r \<longrightarrow>
        k = Kind_native \<and> loc_parents l = 1 \<and> (\<exists>p. loc_interior l = [Parachain p] \<and> r = Origin_sibling p))
     \<and> (\<forall>l k r. xo_signed_as_native O1 (l, k) = Some r \<longrightarrow>
        k = Kind_native \<and> loc_parents l = 0 \<and> (\<exists>a. r = Origin_signed a))
     \<and> (\<forall>l k r. xo_passthrough O1 (l, k) = Some r \<longrightarrow> k = Kind_xcm \<and> r = Origin_xcm l)"

lemma first_some_Some: "first_some fs x = Some y \<Longrightarrow> \<exists>f \<in> set fs. f x = Some y"
  by (induction fs) (auto split: option.splits)

text \<open>No message is ever dispatched as root, and none at all asks for the superuser.\<close>

lemma no_message_is_root:
  assumes "origins_documented O1" "xcm_origin A O1 (l, k) = Some r"
  shows "r \<noteq> Origin_root" "k \<noteq> Kind_superuser"
  using first_some_Some [OF assms(2) [unfolded xcm_origin_def]] assms(1)
  unfolding origins_documented_def by fastforce+

text \<open>
  Who may update the collators: root, or the voice of a body of the relay chain. \<open>voice\<close> is
  \<open>IsVoiceOfBody\<close> for the relay chain and the body \<open>Defense\<close>.
\<close>

definition collator_selection_update_origin :: "(xcm_location \<Rightarrow> bool) \<Rightarrow> runtime_origin \<Rightarrow> bool" where
  "collator_selection_update_origin voice r \<longleftrightarrow>
     r = Origin_root \<or> (case r of Origin_xcm l \<Rightarrow> voice l | _ \<Rightarrow> False)"

lemma messages_that_update_collators:
  assumes "origins_documented O1" "xcm_origin A O1 (l, k) = Some r"
  shows "collator_selection_update_origin voice r \<longleftrightarrow> k = Kind_xcm \<and> voice l"
proof -
  have "(k = Kind_xcm \<and> r = Origin_xcm l) \<or> (k \<noteq> Kind_xcm \<and> r \<noteq> Origin_root \<and> (\<forall>m. r \<noteq> Origin_xcm m))"
    using first_some_Some [OF assms(2) [unfolded xcm_origin_def]] assms(1)
    unfolding origins_documented_def by fastforce
  then show ?thesis
    by (auto simp: collator_selection_update_origin_def split: runtime_origin.splits)
qed

section \<open>The barrier\<close>

text \<open>
  A barrier decides on a message by its origin, its instructions, the weight it may use and
  the weight credit it comes with.
\<close>

type_synonym 'i xcm_barrier = "xcm_location \<Rightarrow> 'i list \<Rightarrow> weight \<Rightarrow> weight \<Rightarrow> bool"

record 'i xcm_barriers =
  xb_trailing_topic :: "'i xcm_barrier \<Rightarrow> 'i xcm_barrier"
  xb_deny_then_try :: "'i xcm_barrier \<Rightarrow> 'i xcm_barrier \<Rightarrow> 'i xcm_barrier"
  xb_any :: "'i xcm_barrier list \<Rightarrow> 'i xcm_barrier"
  xb_deny_reserve_to_relay :: "'i xcm_barrier"
  xb_take_credit :: "'i xcm_barrier"
  xb_computed_origin :: "'i xcm_barrier \<Rightarrow> xcm_location \<Rightarrow> u32 \<Rightarrow> 'i xcm_barrier"
  xb_paid_from :: "(xcm_location \<Rightarrow> bool) \<Rightarrow> 'i xcm_barrier"
  xb_unpaid_from :: "(xcm_location \<Rightarrow> bool) \<Rightarrow> 'i xcm_barrier"

definition universal_location :: "u32 \<Rightarrow> xcm_location" where
  "universal_location parachain_id = \<lparr>loc_parents = 0, loc_interior = [Parachain parachain_id]\<rparr>"

definition barrier :: "'i xcm_barriers \<Rightarrow> u32 \<Rightarrow> 'i xcm_barrier" where
  "barrier B parachain_id =
     xb_trailing_topic B (xb_deny_then_try B (xb_deny_reserve_to_relay B)
       (xb_any B [xb_take_credit B,
         xb_computed_origin B (xb_any B [xb_paid_from B (\<lambda>_. True),
             xb_unpaid_from B parent_or_parents_executive_plurality])
           (universal_location parachain_id) 8]))"

text \<open>
  The documented behaviour: what a topic at the end hides, when messages pay, and which
  origin a message computes for itself by its first instructions are parameters of it.
\<close>

definition barriers_documented ::
  "('i \<Rightarrow> bool) \<Rightarrow> ('i list \<Rightarrow> weight \<Rightarrow> bool) \<Rightarrow> (xcm_location \<Rightarrow> xcm_location \<Rightarrow> 'i list \<Rightarrow> xcm_location \<Rightarrow> bool)
     \<Rightarrow> 'i xcm_barriers \<Rightarrow> bool" where
  "barriers_documented topic pays computes B \<longleftrightarrow>
     (\<forall>b l is w c. xb_trailing_topic B b l is w c \<longrightarrow>
        b l is w c \<or> (\<exists>is' t. is = is' @ [t] \<and> topic t \<and> b l is' w c))
     \<and> (\<forall>d b l is w c. xb_deny_then_try B d b l is w c \<longleftrightarrow> d l is w c \<and> b l is w c)
     \<and> (\<forall>bs l is w c. xb_any B bs l is w c \<longleftrightarrow> list_ex (\<lambda>b. b l is w c) bs)
     \<and> (\<forall>l is w c. xb_take_credit B l is w c \<longleftrightarrow> weight_le w c)
     \<and> (\<forall>b u n l is w c. xb_computed_origin B b u n l is w c \<longrightarrow>
        (\<exists>pre rest l'. is = pre @ rest \<and> length pre \<le> unat n \<and> computes u l pre l' \<and> b l' rest w c))
     \<and> (\<forall>f l is w c. xb_paid_from B f l is w c \<longrightarrow> f l \<and> pays is w)
     \<and> (\<forall>f l is w c. xb_unpaid_from B f l is w c \<longrightarrow> f l)"

text \<open>
  What the barrier lets through: nothing that moves reserves to the relay chain, and, without
  enough credit, after at most eight instructions that compute its origin only a message
  that pays or one of the relay chain or its executive body.
\<close>

lemma barrier_passes:
  assumes "barriers_documented topic pays computes B" and "barrier B para l is w c"
  shows "\<exists>is'. (is' = is \<or> (\<exists>t. is = is' @ [t] \<and> topic t)) \<and> xb_deny_reserve_to_relay B l is' w c
     \<and> (weight_le w c \<or> (\<exists>pre rest l'. is' = pre @ rest \<and> length pre \<le> 8
          \<and> computes (universal_location para) l pre l'
          \<and> (pays rest w \<or> loc_parents l' = 1 \<and> (loc_interior l' = [] \<or> loc_interior l' = [Plurality Executive]))))"
proof -
  note laws = assms(1) [unfolded barriers_documented_def]
  note trailing = laws [THEN conjunct1, rule_format]
  note then_try = laws [THEN conjunct2, THEN conjunct1, rule_format]
  note any = laws [THEN conjunct2, THEN conjunct2, THEN conjunct1, rule_format]
  note credit = laws [THEN conjunct2, THEN conjunct2, THEN conjunct2, THEN conjunct1, rule_format]
  note computed = laws [THEN conjunct2, THEN conjunct2, THEN conjunct2, THEN conjunct2, THEN conjunct1, rule_format]
  note paid = laws [THEN conjunct2, THEN conjunct2, THEN conjunct2, THEN conjunct2, THEN conjunct2,
      THEN conjunct1, rule_format]
  note unpaid = laws [THEN conjunct2, THEN conjunct2, THEN conjunct2, THEN conjunct2, THEN conjunct2,
      THEN conjunct2, rule_format]
  let ?pay = "xb_any B [xb_paid_from B (\<lambda>_. True), xb_unpaid_from B parent_or_parents_executive_plurality]"
  let ?allow = "xb_any B [xb_take_credit B, xb_computed_origin B ?pay (universal_location para) 8]"
  obtain is' where is': "is' = is \<or> (\<exists>t. is = is' @ [t] \<and> topic t)"
      "xb_deny_then_try B (xb_deny_reserve_to_relay B) ?allow l is' w c"
    using trailing [OF assms(2) [unfolded barrier_def]] by (elim disjE exE conjE) auto
  have deny: "xb_deny_reserve_to_relay B l is' w c" "?allow l is' w c"
    using is'(2) unfolding then_try by simp_all
  have "weight_le w c \<or> xb_computed_origin B ?pay (universal_location para) 8 l is' w c"
    using deny(2) unfolding any [of "[xb_take_credit B, xb_computed_origin B ?pay (universal_location para) 8]"]
    by (simp add: credit)
  moreover have "\<exists>pre rest l'. is' = pre @ rest \<and> length pre \<le> 8 \<and> computes (universal_location para) l pre l'
      \<and> (pays rest w \<or> loc_parents l' = 1 \<and> (loc_interior l' = [] \<or> loc_interior l' = [Plurality Executive]))"
    if own: "xb_computed_origin B ?pay (universal_location para) 8 l is' w c"
  proof -
    obtain pre rest l' where split: "is' = pre @ rest" "length pre \<le> 8"
        "computes (universal_location para) l pre l'" "?pay l' rest w c"
      using computed [OF own] by auto
    have "xb_paid_from B (\<lambda>_. True) l' rest w c \<or> xb_unpaid_from B parent_or_parents_executive_plurality l' rest w c"
      using split(4) by (simp add: any)
    then have "pays rest w \<or> parent_or_parents_executive_plurality l'"
      using paid unpaid by blast
    then show ?thesis
      using split(1-3) unfolding free_execution_only_parent by blast
  qed
  ultimately show ?thesis
    using is'(1) deny(1) by blast
qed

section \<open>The executor and the XCM pallet\<close>

text \<open>The filters as functions; \<open>()\<close> as a teleporter trusts nobody.\<close>

record ('asset, 'call) xcm_executor_params =
  xe_is_teleporter :: "'asset \<Rightarrow> xcm_location \<Rightarrow> bool"
  xe_max_instructions :: u32
  xe_unit_weight :: weight
  xe_max_assets_into_holding :: u32
  xe_universal_aliases :: "xcm_location \<Rightarrow> junction \<Rightarrow> bool"
  xe_safe_call_filter :: "'call \<Rightarrow> bool"
  xe_aliasers :: "xcm_location \<Rightarrow> xcm_location \<Rightarrow> bool"

definition xcm_executor_config :: "('asset, 'call) xcm_executor_params" where
  "xcm_executor_config =
     \<lparr>xe_is_teleporter = (\<lambda>_ _. False), xe_max_instructions = 100, xe_unit_weight = unit_weight_cost,
      xe_max_assets_into_holding = 64, xe_universal_aliases = (\<lambda>_ _. False),
      xe_safe_call_filter = (\<lambda>_. True), xe_aliasers = (\<lambda>_ _. False)\<rparr>"

record ('message, 'assets) xcm_pallet_params =
  xp_execute_filter :: "'message \<Rightarrow> bool"
  xp_teleport_filter :: "'assets \<Rightarrow> bool"
  xp_reserve_transfer_filter :: "'assets \<Rightarrow> bool"
  xp_version_discovery_queue_size :: u32
  xp_max_lockers :: u32
  xp_max_remote_lock_consumers :: u32

definition xcm_pallet_config :: "('message, 'assets) xcm_pallet_params" where
  "xcm_pallet_config =
     \<lparr>xp_execute_filter = (\<lambda>_. False), xp_teleport_filter = (\<lambda>_. True),
      xp_reserve_transfer_filter = (\<lambda>_. False), xp_version_discovery_queue_size = 100,
      xp_max_lockers = 8, xp_max_remote_lock_consumers = 0\<rparr>"

text \<open>
  The weight of the longest message that is weighed, a hundred instructions, is a twentieth
  of the time of a block, but with the proof sizes of the instructions it is more than a block
  of five megabytes holds.
\<close>

lemma longest_message_weight:
  assumes "sdk_numbers_ok N" "sn_max_pov_size N = 5 * 1024 * 1024"
  shows "20 * (100 * unat (ref_time unit_weight_cost)) = unat (ref_time (MAXIMUM_BLOCK_WEIGHT N))"
    "unat (proof_size (MAXIMUM_BLOCK_WEIGHT N)) < 100 * unat (proof_size unit_weight_cost)"
  using assms
  by (simp_all add: unit_weight_cost_def from_parts_def MAXIMUM_BLOCK_WEIGHT_def sdk_numbers_ok_def
      saturating_mul_def)

end
