(* ===== verification/Spec2Isabelle.thy ===== *)
theory Spec2Isabelle
  imports Round_Simulation Node_Keys Node_Restart Script_Client Chain_Extension Ocw_Worker
    Node_Command Runtime_Apis Xcm_Config
begin

text \<open>
  A model of the Polkadot oracle parachain: a Substrate runtime whose pallets accept scripts
  and execution requests, a node that runs the scripts off chain, and the off-chain workers
  that carry jobs and results between the two.

  \<^bold>\<open>The program and how its parts interact.\<close> Users call the pallet
  \<open>pallets/wasmstore-pallet\<close>: \<open>upload_wasm\<close> publishes a script, \<open>request_script_execution\<close>
  queues a job for it. On every block the pallet's \<open>offchain_worker\<close> hook looks at the
  first active job of the queue: a pending one is submitted for processing and handed to the
  node through the off-chain database (key list and request), a finished one makes the hook
  submit the results that the node left there. In the node,
  \<open>node/src/scripts_exec_manager.rs\<close> polls the key list, starts a task per key that runs
  the script with \<open>script-executor/src/runtime.rs\<close>, and stores the response. Beside this
  pipeline, \<open>pallets/ocw-pallet\<close> keeps stakes and averaged prices,
  \<open>pallets/offchain-worker\<close> fetches a page with a stored API key, \<open>chain-extensions\<close> lets
  contracts read scripts, and \<open>runtime\<close> and \<open>node\<close> fix constants, genesis states and
  chain specifications.

  \<^bold>\<open>Which theory models what.\<close>
  \<^item> \<open>Oracle_Base\<close>, \<open>Byte_Views\<close>, \<open>Text_Encoding\<close>: the prelude. Machine types as words, the
    type \<open>outcome\<close> of an operation (\<open>Ok\<close>, \<open>Err\<close>, \<open>Panic\<close>), storage maps, saturating
    arithmetic, little-endian bytes, \<open>chunks\<close>, UTF-8 and UTF-16; the locales
    \<open>call_invariant\<close> and \<open>call_relation\<close> lift what each dispatchable keeps to runs of
    blocks and calls, with failing calls rolled back.
  \<^item> \<open>Payload_Model\<close>, \<open>Scale_Format\<close>: \<open>model/src/lib.rs\<close>. The SCALE codec is third-party: a
    record of functions with the round-trip law \<open>codec_laws\<close>. \<open>Scale_Format\<close> defines the
    published format, proves the law for it codec by codec (locale \<open>codec\<close>, composed by
    \<open>codec_pair\<close>), so the law can be met. \<open>Payload_Confusion\<close> decides when the bytes of a
    request decode as a response and the other way round.
  \<^item> \<open>Offchain_Db\<close>, \<open>Offchain_Utils\<close>: the off-chain database as a map (locale \<open>kv_store\<close>
    states what its clients rely on), \<open>offchain-utils/src/offchain_api_key.rs\<close>,
    \<open>offchain-utils/src/fetcher.rs\<close>.
  \<^item> \<open>Wasmstore_Pallet\<close>, \<open>Wasmstore_Props\<close>: the on-chain half of
    \<open>pallets/wasmstore-pallet/src/lib.rs\<close>; the record \<open>ws_state\<close> is its storage, each
    dispatchable one function of the same name. The lemmas give the exact success
    condition of every call, the storage invariant \<open>ws_inv\<close>, the relation \<open>ws_progress\<close>
    between a state and what any run makes of it, the life of a job, and which submission
    the result stored after any run comes from.
  \<^item> \<open>Wasmstore_Worker\<close>, \<open>Wasmstore_Local\<close>: the off-chain half of the same file, the hook
    \<open>offchain_worker\<close> and its helpers over the database and the transaction pool.
  \<^item> \<open>Exec_Manager\<close>: \<open>node/src/scripts_exec_manager.rs\<close>, one definition per access, round
    and task of the executor.
  \<^item> \<open>Job_Handover\<close>: the interleaving of monitor and hook as the step relation
    \<open>handover_step\<close> whose atomic steps are the single database accesses; the runs of the hook
    for several blocks may overlap (\<open>ho_workers\<close>). The lemmas give the invariant of all
    interleavings, and four interleavings in which the protocol loses or repeats a job.
  \<^item> \<open>Job_Queue\<close>, \<open>Handover_Rounds\<close>, \<open>Node_Restart\<close>: the contract of the hand-over as the
    locale \<open>batch_queue\<close>, interpreted on \<open>offchain_worker\<close> and \<open>monitor_round\<close> (whole runs
    that do not interleave refine a first-in first-out queue); the proof that uninterrupted
    small steps are those whole runs, whether a run hands over, is refused, finds nothing or
    a finished job; and the relation \<open>restarted\<close> of everything that can
    happen after a restart of the node.
  \<^item> \<open>Script_Runtime\<close>, \<open>Script_Output\<close>: \<open>script-executor/src/runtime.rs\<close>. The
    specification \<open>object_at\<close> says how an output object lies in linear memory; the decoder
    is proved to implement it, and the size computation is compared with what the decoder
    consumes. \<open>Script_Types\<close> adds a typed reader that every successful output satisfies, and
    the URL scan as the loop it is, its index a machine word, with its termination and the
    one start where it panics. \<open>Script_Client\<close> models the HTTP client
    \<open>https.rs\<close>, the check of a script's hash, and the debugging type of a result.
  \<^item> \<open>Job_Pipeline\<close>: worker, pool, monitor, task and listener composed into a round of a
    node (\<open>node_round\<close>), and the relation \<open>closed_system\<close> of everything that users and the
    program itself can do, with the submitted transactions waiting until they are included,
    in any order, or dropped; its one condition is that no second state change for a job
    is submitted while one still waits. \<open>Job_System\<close> is the same system at single database accesses: the
    relation \<open>system_reach\<close> interleaves the chain with everybody's calls, the hand-over, the
    running tasks, the channel of capacity 20, the listener and the submitting workers, any
    number of them at a time, and
    restarts the node at any time; its invariant says that results are genuine.
    \<open>Round_Simulation\<close> ties the two together: a round from a state at rest is a run of
    \<open>system_reach\<close>, so its invariants hold of the rounds.
  \<^item> \<open>Runtime_Blocks\<close>: the runtime as \<open>apis.rs\<close> and \<open>lib.rs\<close> put it together. Calls are routed
    to the two pallets, unsigned extrinsics pass the pallet's validation first, both kinds
    the SDK's extensions (a parameter), blocks number both pallets alike, and the pool validates in
    the next block. The lemmas lift
    the pallets' invariants to every history (locale \<open>call_invariant\<close> again), bound the rate of
    unsigned prices, say what every history does to the wasmstore storage in terms of that
    pallet alone (\<open>ws_history\<close>), embed the histories into \<open>system_reach\<close>, and show what
    becomes of a job when the worker's transactions are included late. \<open>Late_Delivery\<close> follows such a job through
    worker, executor and runtime until its result is on chain: how the program delivers
    one without help. \<open>Node_Keys\<close> says under which key results are stored.
  \<^item> \<open>Ocw_Pallet\<close>, \<open>Ocw_Props\<close>, \<open>Ocw_Worker\<close>: \<open>pallets/ocw-pallet/src/lib.rs\<close>, its calls
    and validation, its invariant and what staking and averaging do, its off-chain helpers.
  \<^item> \<open>Offchain_Worker_Pallet\<close>, \<open>Template_Pallet\<close>, \<open>Chain_Extension\<close>: the remaining pallets
    and the contract extension.
  \<^item> \<open>Runtime_Genesis\<close>, \<open>Node_Config\<close>: constants and fees of \<open>runtime/src/lib.rs\<close>, the
    presets of \<open>genesis_config_presets.rs\<close>, the location filter of \<open>configs/xcm.rs\<close>,
    \<open>chain_spec.rs\<close> and the parts of \<open>command.rs\<close> and \<open>cli.rs\<close> that choose and default.
  \<^item> \<open>Runtime_Limits\<close>, \<open>Runtime_Apis\<close>: weights and block limits (\<open>runtime/src/weights\<close>), the
    parameter blocks of \<open>configs/mod.rs\<close>, \<open>contracts.rs\<close>, \<open>revive.rs\<close>, the table of pallets;
    the signing of the workers' transactions and the runtime calls that fill in defaults.
  \<^item> \<open>Pallet_Weights\<close>, \<open>Runtime_Config\<close>, \<open>Xcm_Config\<close>: the generated \<open>weights.rs\<close> of the
    pallets and the weights their calls declare, with how many requests then stay below the
    configured limits of weight and length; the
    parameters of the configured pallets; \<open>configs/xcm.rs\<close> (accounts of locations, origins of
    messages, barrier, filters), with the SDK's converters and barriers as records and their
    documented behaviour as predicates.
  \<^item> \<open>Node_Service\<close>, \<open>Node_Command\<close>: \<open>node/src/service.rs\<close> (what a start of the node starts,
    in which order, and how it fails), \<open>rpc.rs\<close>, and \<open>node/src/command.rs\<close> (the dispatch of the command
    line and the relay chain's configuration). An operation returns its outcome and the
    list of effects so far; every SDK call is a field of \<open>sdk\<close> or \<open>cli_env\<close>.

  \<^bold>\<open>State and operations.\<close> A storage value is an option or its default, a storage map a
  partial map, a bounded vector a list with its bound checked where the code converts. A
  dispatchable takes its origin and arguments and returns the new storage as an \<open>outcome\<close>;
  an error leaves the storage as it was, as FRAME's transactional layer does. Off-chain effects (database,
  pool) are threaded explicitly and survive a later panic. Integers keep their width; \<open>+\<close> on
  words wraps where release arithmetic does.

  \<^bold>\<open>Third-party code as parameters.\<close> Hasher, SCALE encoding, the \<open>Debug\<close> form of a name
  (records \<open>ws_externals\<close>, \<open>codecs\<close>), the transaction pool (\<open>accept\<close>), the iteration order
  of a storage map (\<open>iterates\<close>: some order of exactly the entries), the balances pallet
  (record \<open>currency\<close>, laws \<open>currency_laws\<close>, with the ledger of \<open>Ocw_Props\<close> satisfying
  them), the network (\<open>net\<close>), the JSON parsers, signature verification, key derivation, and
  the WebAssembly engine (record \<open>wasm_engine\<close>: imports of a binary, instantiation, calls,
  linear memory as a list of bytes read and written in whole ranges or not at all).

  \<^bold>\<open>Bounds and loops.\<close> Every loop of the code is a recursion over the list or the bytes it
  walks; only \<open>chunks\<close> recurses on a shorter suffix, with its termination proved. So no
  fuel is needed and every definition is total. The URL scan is also written with
  \<open>while_option\<close>, where not ending would be \<open>None\<close>, and proved to end (memory shorter than
  \<open>2 ^ 63\<close> bytes, as every slice is). Infinite loops of the node (monitor, listener) are
  modelled by their body, and their repetition by the step relations.

  \<^bold>\<open>What is not modelled.\<close> Benchmarks, mocks and tests (two crates' tests are replayed as
  lemmas); the FRAME, Cumulus and XCM wiring that only names library types, and the runtime
  calls that only forward to a library; what the SDK does inside a sub-command, the
  networking, RPC and consensus engines; the host functions that expose the database; build
  scripts; logging; wall-clock delays (a round is whatever happens between two polls).
\<close>

end
